theory Spec2Isabelle
  imports Complex_Main "HOL-Library.Signed_Division"
begin


section \<open>Data model of the grid core (Grid.cpp, GridPatch.cpp)\<close>

text \<open>
  The C++ \<open>int\<close> is modelled by \<open>int\<close>. An index into an array that exists, and a
  count of components, levels or slots, stays far inside the 32 bits of an \<open>int\<close>. The
  node counts of \<open>GetTotalNodeCount\<close> and the running sums of them in \<open>Grid::AddPatch\<close>
  and \<open>Grid::GetTotalNodeCount\<close> do not: they grow with the resolution of the grid.
  Signed overflow is undefined in C++; the compiled program wraps in two's complement,
  and this wrap-around is written out there with \<open>wrap_int\<close>, as it is in the expected
  element counts of \<open>Grid::ConsolidateDataAtRoot\<close>, which are products of the same kind.
  A \<open>double\<close> is modelled by \<open>real\<close> (rounding is not modelled).
  An exception thrown by \<open>_EXCEPTIONT\<close> is the value \<open>Exception msg\<close> with the
  message of the source; an unchecked access outside a \<open>std::vector\<close> or a
  \<open>DataVector\<close>, which C++ leaves undefined, is the value \<open>UncheckedAccess\<close>; a
  remainder by zero is \<open>DivisionByZero\<close>; a blocking receive that no message answers
  is \<open>Blocked\<close>.
\<close>

datatype error = Exception string | UncheckedAccess | DivisionByZero | Blocked

text \<open>The value a 32-bit \<open>int\<close> holds after an operation whose exact result is \<open>x\<close>.\<close>

definition wrap_int :: "int \<Rightarrow> int" where
  "wrap_int x = (x + 2147483648) mod 4294967296 - 2147483648"

definition bindE :: "error + 'a \<Rightarrow> ('a \<Rightarrow> error + 'b) \<Rightarrow> error + 'b" where
  "bindE m f = (case m of Inl e \<Rightarrow> Inl e | Inr x \<Rightarrow> f x)"

text \<open>\<open>v[i]\<close> on a vector, with the range written out.\<close>

definition vec_at :: "'a list \<Rightarrow> int \<Rightarrow> error + 'a" where
  "vec_at xs i = (if 0 \<le> i \<and> i < int (length xs) then Inr (xs ! nat i) else Inl UncheckedAccess)"

datatype DataType =
    DataType_State | DataType_Tracers | DataType_Jacobian | DataType_Topography
  | DataType_Longitude | DataType_Latitude | DataType_Z
  | DataType_Vorticity | DataType_Divergence | DataType_Temperature
  | DataType_TopographyDeriv | DataType_RefState | DataType_RayleighStrength
  | DataType_Pressure | DataType_None

datatype DataLocation =
    DataLocation_None | DataLocation_Node | DataLocation_AEdge
  | DataLocation_BEdge | DataLocation_REdge

datatype Direction =
    Direction_Right | Direction_Top | Direction_Left | Direction_Bottom
  | Direction_TopRight | Direction_TopLeft | Direction_BottomLeft | Direction_BottomRight
  | Direction_Unreachable

datatype ChecksumType =
    ChecksumType_Sum | ChecksumType_L1 | ChecksumType_L2 | ChecksumType_Linf
  | ChecksumType_Other

text \<open>
  \<open>PatchBox\<close> is declared in PatchBox.h, which is not among the sources: the record
  holds what each accessor called by Grid.cpp and GridPatch.cpp returns.
\<close>

record PatchBox =
  GetPanel :: int
  GetRefinementLevel :: int
  GetHaloElements :: int
  GetAGlobalInteriorBegin :: int
  GetAGlobalInteriorEnd :: int
  GetBGlobalInteriorBegin :: int
  GetBGlobalInteriorEnd :: int
  GetAInteriorBegin :: int
  GetAInteriorEnd :: int
  GetBInteriorBegin :: int
  GetBInteriorEnd :: int
  GetATotalWidth :: int
  GetBTotalWidth :: int
  GetTotalNodes :: int
  GetInteriorPerimeter :: int

text \<open>The arguments of \<open>ExteriorNeighbor\<close>'s constructor and of \<open>InitializeBuffers\<close>.\<close>

record ExteriorNeighbor =
  nb_dirFirst :: Direction
  nb_dirOpposing :: Direction
  nb_ixNeighbor :: int
  nb_fReverseDirection :: bool
  nb_fFlippedCoordinate :: bool
  nb_nBoundarySize :: int
  nb_ixFirst :: int
  nb_ixSecond :: int
  nb_nRElements :: int
  nb_nHaloElements :: int
  nb_nStateTracerMaxVariables :: int

text \<open>
  A \<open>GridData4D\<close> is indexed by component, level and the two horizontal indices; a
  3D array by level and the two horizontal indices.
\<close>

record GridData4D =
  IsInitialized :: bool
  values4 :: "nat \<Rightarrow> int \<Rightarrow> int \<Rightarrow> int \<Rightarrow> real"

record Model =
  GetComponents :: int
  GetTracers :: int
  GetModelHaloElements :: int
  GetComponentDataInstances :: int
  GetTracerDataInstances :: int

text \<open>
  Of the arrays \<open>InitializeDataLocal\<close> allocates, the patch record keeps the ones an
  operation below reads or writes: the state and tracer slots, the reference state and
  the element areas.
\<close>

record GridPatch =
  m_ixPatch :: int
  m_iProcessor :: int
  m_box :: PatchBox
  m_connect :: "ExteriorNeighbor list"
  m_fContainsData :: bool
  m_datavecStateNode :: "GridData4D list"
  m_datavecStateREdge :: "GridData4D list"
  m_datavecTracers :: "GridData4D list"
  m_dataRefStateNode :: GridData4D
  m_dataElementArea :: "int \<Rightarrow> int \<Rightarrow> int \<Rightarrow> real"
  m_dataElementAreaREdge :: "int \<Rightarrow> int \<Rightarrow> int \<Rightarrow> real"

text \<open>
  The grid owns its patches in \<open>m_vecGridPatches\<close>; the pointers of
  \<open>m_vecActiveGridPatches\<close> point into that vector and are modelled by positions in it.
\<close>

record Grid =
  m_model :: Model
  m_nRElements :: int
  m_vecVarLocation :: "DataLocation list"
  m_vecGridPatches :: "GridPatch list"
  m_vecActiveGridPatches :: "nat list"
  m_vecCumulativePatch2DNodeIndex :: "int list"

section \<open>Grid::AddPatch\<close>

text \<open>
  \<open>GridPatch::GetTotalNodeCount\<close>: the nodes of the patch on all levels or interfaces,
  as the \<open>int\<close> product of the source gives them.
\<close>

definition GetTotalNodeCount :: "Grid \<Rightarrow> GridPatch \<Rightarrow> DataLocation \<Rightarrow> error + int" where
  "GetTotalNodeCount G P loc =
     (if loc = DataLocation_Node
      then Inr (wrap_int (GetTotalNodes (m_box P) * m_nRElements G))
      else if loc = DataLocation_REdge
      then Inr (wrap_int (GetTotalNodes (m_box P) * wrap_int (m_nRElements G + 1)))
      else Inl (Exception ''Invalid DataLocation''))"

text \<open>
  \<open>AddPatch\<close> calls \<open>pPatch->GetTotalNodeCount()\<close> with no argument; the default
  argument is declared in GridPatch.h, which is not among the sources, so it is the
  parameter \<open>loc\<close> here. The new entry of the cumulative index is an \<open>int\<close> sum. The
  patch count that becomes the patch index is the size of a vector of pointers to
  allocated patches, which memory keeps below the range of an \<open>int\<close>.
\<close>

definition AddPatch :: "DataLocation \<Rightarrow> Grid \<Rightarrow> GridPatch \<Rightarrow> error + Grid" where
  "AddPatch loc G pPatch =
     (let ixNextPatch = int (length (m_vecGridPatches G));
          P = pPatch\<lparr>m_ixPatch := ixNextPatch\<rparr>;
          G1 = G\<lparr>m_vecGridPatches := m_vecGridPatches G @ [P]\<rparr>;
          G2 = (if ixNextPatch = 0
                then G1\<lparr>m_vecCumulativePatch2DNodeIndex :=
                          m_vecCumulativePatch2DNodeIndex G1 @ [0]\<rparr>
                else G1)
      in bindE (vec_at (m_vecCumulativePatch2DNodeIndex G2) ixNextPatch) (\<lambda>prev.
         bindE (GetTotalNodeCount G2 P loc) (\<lambda>n.
         Inr (G2\<lparr>m_vecCumulativePatch2DNodeIndex :=
                    m_vecCumulativePatch2DNodeIndex G2 @ [wrap_int (prev + n)]\<rparr>))))"

text \<open>A sequence of \<open>AddPatch\<close> calls, stopping at the first one that fails.\<close>

fun AddPatches :: "DataLocation \<Rightarrow> Grid \<Rightarrow> GridPatch list \<Rightarrow> error + Grid" where
  "AddPatches loc G [] = Inr G"
| "AddPatches loc G (p # ps) = bindE (AddPatch loc G p) (\<lambda>G'. AddPatches loc G' ps)"

text \<open>\<open>Grid::GetTotalNodeCount\<close>: the loop over all patches, summing in an \<open>int\<close>.\<close>

fun sum_node_counts :: "DataLocation \<Rightarrow> Grid \<Rightarrow> GridPatch list \<Rightarrow> int \<Rightarrow> error + int" where
  "sum_node_counts loc G [] nTotalNodes = Inr nTotalNodes"
| "sum_node_counts loc G (p # ps) nTotalNodes =
     bindE (GetTotalNodeCount G p loc) (\<lambda>n. sum_node_counts loc G ps (wrap_int (nTotalNodes + n)))"

definition Grid_GetTotalNodeCount :: "DataLocation \<Rightarrow> Grid \<Rightarrow> error + int" where
  "Grid_GetTotalNodeCount loc G = sum_node_counts loc G (m_vecGridPatches G) 0"

text \<open>The grid as \<open>Grid::Grid\<close> leaves it: no patch, no cumulative index.\<close>

definition empty_grid :: "Model \<Rightarrow> int \<Rightarrow> Grid" where
  "empty_grid model nRElements =
     \<lparr>m_model = model, m_nRElements = nRElements, m_vecVarLocation = [],
      m_vecGridPatches = [], m_vecActiveGridPatches = [],
      m_vecCumulativePatch2DNodeIndex = []\<rparr>"

text \<open>
  \<open>GridPatch::GridPatch\<close>: a new patch holds its box and no data; its processor is 0 and
  its connectivity is empty.
\<close>

definition unallocated :: GridData4D where
  "unallocated = \<lparr>IsInitialized = False, values4 = (\<lambda>c k i j. 0)\<rparr>"

definition GridPatch_new :: "int \<Rightarrow> PatchBox \<Rightarrow> GridPatch" where
  "GridPatch_new ixPatch box =
     \<lparr>m_ixPatch = ixPatch, m_iProcessor = 0, m_box = box, m_connect = [],
      m_fContainsData = False,
      m_datavecStateNode = [], m_datavecStateREdge = [], m_datavecTracers = [],
      m_dataRefStateNode = unallocated,
      m_dataElementArea = (\<lambda>k i j. 0), m_dataElementAreaREdge = (\<lambda>k i j. 0)\<rparr>"

text \<open>
  Modelled from the spec: the constructor of \<open>PatchBox\<close> (PatchBox.h is not among the
  sources). The total extent is the interior width plus twice the halo width, the local
  interior starts after the halo, and the interior perimeter is twice the sum of the two
  interior widths.
\<close>

definition PatchBox_new :: "int \<Rightarrow> int \<Rightarrow> int \<Rightarrow> int \<Rightarrow> int \<Rightarrow> int \<Rightarrow> int \<Rightarrow> PatchBox" where
  "PatchBox_new ixPanel iRefinementLevel nHaloElements
      ixAGlobalInteriorBegin ixAGlobalInteriorEnd ixBGlobalInteriorBegin ixBGlobalInteriorEnd =
     (let wA = ixAGlobalInteriorEnd - ixAGlobalInteriorBegin;
          wB = ixBGlobalInteriorEnd - ixBGlobalInteriorBegin
      in \<lparr>GetPanel = ixPanel, GetRefinementLevel = iRefinementLevel,
          GetHaloElements = nHaloElements,
          GetAGlobalInteriorBegin = ixAGlobalInteriorBegin,
          GetAGlobalInteriorEnd = ixAGlobalInteriorEnd,
          GetBGlobalInteriorBegin = ixBGlobalInteriorBegin,
          GetBGlobalInteriorEnd = ixBGlobalInteriorEnd,
          GetAInteriorBegin = nHaloElements, GetAInteriorEnd = nHaloElements + wA,
          GetBInteriorBegin = nHaloElements, GetBInteriorEnd = nHaloElements + wB,
          GetATotalWidth = wA + 2 * nHaloElements, GetBTotalWidth = wB + 2 * nHaloElements,
          GetTotalNodes = (wA + 2 * nHaloElements) * (wB + 2 * nHaloElements),
          GetInteriorPerimeter = 2 * wA + 2 * wB\<rparr>)"

text \<open>A model (equation set) with three components and no tracer, for the examples.\<close>

definition example_model :: Model where
  "example_model = \<lparr>GetComponents = 3, GetTracers = 0, GetModelHaloElements = 2,
      GetComponentDataInstances = 2, GetTracerDataInstances = 2\<rparr>"

text \<open>
  The invariant \<open>AddPatch\<close> keeps once the grid has a patch: the cumulative index has
  one entry more than there are patches, starts at 0, and every entry is the one before
  it plus the node count of the patch between them, as an \<open>int\<close> adds; every patch
  carries its position as index.
\<close>

definition cum_inv :: "DataLocation \<Rightarrow> Grid \<Rightarrow> bool" where
  "cum_inv loc G =
     (let ps = m_vecGridPatches G; cum = m_vecCumulativePatch2DNodeIndex G
      in length cum = length ps + 1 \<and> cum ! 0 = 0 \<and>
         (\<forall>k<length ps. m_ixPatch (ps ! k) = int k \<and>
            (\<exists>n. GetTotalNodeCount G (ps ! k) loc = Inr n \<and>
                 cum ! (k + 1) = wrap_int (cum ! k + n))))"

text \<open>
  The node counts \<open>GetTotalNodeCount\<close> returns for the patches of a list, in order (0
  for a location the function refuses).
\<close>

definition node_counts :: "DataLocation \<Rightarrow> Grid \<Rightarrow> GridPatch list \<Rightarrow> int list" where
  "node_counts loc G ps =
     map (\<lambda>p. case GetTotalNodeCount G p loc of Inr n \<Rightarrow> n | Inl e \<Rightarrow> 0) ps"

text \<open>The largest value of a 32-bit \<open>int\<close>.\<close>

definition INT_MAX :: int where
  "INT_MAX = 2147483647"

text \<open>
  For the examples: a patch of 4000 by 4000 interior elements with a halo of 2, which
  has 4004 * 4004 = 16032016 nodes on every level.
\<close>

definition large_patch :: GridPatch where
  "large_patch = GridPatch_new 0 (PatchBox_new 0 0 2 0 4000 0 4000)"

section \<open>Grid::DistributePatches\<close>

text \<open>
  \<open>GridData4D::Initialize\<close> allocates the array, zeroed, and marks it initialized.
\<close>

definition allocated4 :: GridData4D where
  "allocated4 = \<lparr>IsInitialized = True, values4 = (\<lambda>c k i j. 0)\<rparr>"

text \<open>
  \<open>GridPatch::DeinitializeData\<close>, \<open>InitializeDataRemote\<close> and
  \<open>InitializeDataLocal\<close>. The rank \<open>MPI_Comm_rank\<close> writes into \<open>m_iProcessor\<close> is
  the argument \<open>nRank\<close>. A slot vector is resized to the model's instance count (no
  slot for a count that is not positive); the tracer slots are initialized only when the
  model has tracers. The arrays the patch record does not keep are left out.
\<close>

definition DeinitializeData :: "GridPatch \<Rightarrow> error + GridPatch" where
  "DeinitializeData P =
     (if \<not> m_fContainsData P then Inl (Exception ''Attempting to deinitialize a stub GridPatch.'')
      else Inr (P\<lparr>m_fContainsData := False,
                  m_datavecStateNode := [], m_datavecStateREdge := [], m_datavecTracers := [],
                  m_dataElementArea := (\<lambda>k i j. 0), m_dataElementAreaREdge := (\<lambda>k i j. 0)\<rparr>))"

definition InitializeDataRemote :: "int \<Rightarrow> GridPatch \<Rightarrow> error + GridPatch" where
  "InitializeDataRemote iProcessor P =
     bindE (if m_fContainsData P then DeinitializeData P else Inr P) (\<lambda>P1.
     Inr (P1\<lparr>m_iProcessor := iProcessor\<rparr>))"

definition InitializeDataLocal :: "Grid \<Rightarrow> int \<Rightarrow> GridPatch \<Rightarrow> error + GridPatch" where
  "InitializeDataLocal G nRank P =
     (if m_fContainsData P
      then Inl (Exception ''Attempting to initialize a previously initialized GridPatch.'')
      else Inr (P\<lparr>m_fContainsData := True,
                  m_iProcessor := nRank,
                  m_dataElementArea := (\<lambda>k i j. 0),
                  m_dataElementAreaREdge := (\<lambda>k i j. 0),
                  m_dataRefStateNode := allocated4,
                  m_datavecStateNode :=
                    replicate (nat (GetComponentDataInstances (m_model G))) allocated4,
                  m_datavecStateREdge :=
                    replicate (nat (GetComponentDataInstances (m_model G))) allocated4,
                  m_datavecTracers :=
                    replicate (nat (GetTracerDataInstances (m_model G)))
                      (if GetTracers (m_model G) \<noteq> 0 then allocated4 else unallocated)\<rparr>))"

text \<open>
  \<open>Grid::DistributePatches\<close> on the process of rank \<open>nRank\<close> among \<open>nSize\<close>: the loop
  over \<open>n\<close>. The C++ remainder \<open>n % nSize\<close> truncates towards zero (\<open>smod\<close>) and is
  undefined for \<open>nSize = 0\<close>.
\<close>

function DistributePatches_loop :: "int \<Rightarrow> int \<Rightarrow> int \<Rightarrow> Grid \<Rightarrow> error + Grid" where
  "DistributePatches_loop nSize nRank n G =
     (if n < int (length (m_vecGridPatches G)) then
        (if nSize = 0 then Inl DivisionByZero
         else
           let nPatchProcessor = n smod nSize in
           if nPatchProcessor = nRank then
             bindE (InitializeDataLocal G nRank (m_vecGridPatches G ! nat n)) (\<lambda>P.
               DistributePatches_loop nSize nRank (n + 1)
                 (G\<lparr>m_vecGridPatches := (m_vecGridPatches G)[nat n := P],
                    m_vecActiveGridPatches := m_vecActiveGridPatches G @ [nat n]\<rparr>))
           else
             bindE (InitializeDataRemote nPatchProcessor (m_vecGridPatches G ! nat n)) (\<lambda>P.
               DistributePatches_loop nSize nRank (n + 1)
                 (G\<lparr>m_vecGridPatches := (m_vecGridPatches G)[nat n := P]\<rparr>)))
      else Inr G)"
  by pat_completeness auto
termination
  by (relation "measure (\<lambda>(nSize, nRank, n, G). nat (int (length (m_vecGridPatches G)) - n))") auto

declare DistributePatches_loop.simps [simp del]

definition DistributePatches :: "Grid \<Rightarrow> int \<Rightarrow> int \<Rightarrow> error + Grid" where
  "DistributePatches G nSize nRank = DistributePatches_loop nSize nRank 0 G"

text \<open>
  What one pass of the loop leaves of patch \<open>i\<close>: the owner has run
  \<open>InitializeDataLocal\<close> on it, any other process holds the patch as it was, with the
  owner's rank recorded.
\<close>

definition assigned :: "Grid \<Rightarrow> int \<Rightarrow> int \<Rightarrow> nat \<Rightarrow> GridPatch \<Rightarrow> GridPatch \<Rightarrow> bool" where
  "assigned G nSize nRank i P P' =
     (if int i mod nSize = nRank then InitializeDataLocal G nRank P = Inr P'
      else P' = P\<lparr>m_iProcessor := int i mod nSize\<rparr>)"

text \<open>
  The scenario of the spec: six patches, one per panel, of 10 by 10 interior elements
  with a halo of 2, on three levels.
\<close>

definition example_patch :: "int \<Rightarrow> GridPatch" where
  "example_patch k = GridPatch_new k (PatchBox_new k 0 2 0 10 0 10)"

definition example_grid :: Grid where
  "example_grid =
     \<lparr>m_model = example_model, m_nRElements = 3,
      m_vecVarLocation = [DataLocation_Node, DataLocation_Node, DataLocation_Node],
      m_vecGridPatches = [example_patch 0, example_patch 1, example_patch 2,
                          example_patch 3, example_patch 4, example_patch 5],
      m_vecActiveGridPatches = [],
      m_vecCumulativePatch2DNodeIndex = [0, 588, 1176, 1764, 2352, 2940, 3528]\<rparr>"

section \<open>GridPatch::ExteriorConnect and Grid::InitializeConnectivity\<close>

text \<open>
  Modelled from the spec: \<open>GridPatch::InvalidIndex\<close> (declared in GridPatch.h, which is
  not among the sources), the value that stands for no patch where a sample resolves to
  none; no patch has a negative index.
\<close>

definition InvalidIndex :: int where
  "InvalidIndex = - 1"

text \<open>
  Two collaborators are parameters. \<open>Grid::GetOpposingDirection\<close> (the panel topology
  table of the concrete grid) maps the two panels and the direction to the opposing
  direction and the two flags. \<open>Grid::GetPatchFromCoordinateIndex\<close> resolves a sample
  (refinement level, the two global indices, panel) to a patch index or to
  \<open>InvalidIndex\<close>; it is taken sample by sample.
\<close>

type_synonym opposing = "int \<Rightarrow> int \<Rightarrow> Direction \<Rightarrow> Direction \<times> bool \<times> bool"

type_synonym resolver = "int \<Rightarrow> int \<Rightarrow> int \<Rightarrow> int \<Rightarrow> int"

text \<open>
  \<open>GridPatch::ExteriorConnect\<close> with the two indices. A null second patch is \<open>None\<close>.
  The new neighbour is appended to the connectivity of the patch.
\<close>

definition ExteriorConnect ::
  "opposing \<Rightarrow> Grid \<Rightarrow> GridPatch \<Rightarrow> Direction \<Rightarrow> GridPatch option \<Rightarrow> int \<Rightarrow> int
     \<Rightarrow> error + GridPatch" where
  "ExteriorConnect GetOpposingDirection G P dirFirst pPatchSecond ixFirst ixSecond =
     (case pPatchSecond of
        None \<Rightarrow> Inr P
      | Some S \<Rightarrow>
          (let nStateTracerMaxVariables =
                 (if GetComponents (m_model G) > GetTracers (m_model G)
                  then GetComponents (m_model G) else GetTracers (m_model G));
               nRElements = m_nRElements G;
               nHaloElements = GetModelHaloElements (m_model G);
               (dirOpposing, fReverseDirection, fFlippedCoordinate) =
                 GetOpposingDirection (GetPanel (m_box P)) (GetPanel (m_box S)) dirFirst;
               nBoundarySize =
                 (if dirFirst = Direction_Right \<or> dirFirst = Direction_Top \<or>
                     dirFirst = Direction_Left \<or> dirFirst = Direction_Bottom
                  then ixSecond - ixFirst else nHaloElements)
           in
             if dirFirst = Direction_TopRight \<and>
                (ixFirst < GetAInteriorBegin (m_box P) + nBoundarySize - 1 \<or>
                 ixSecond < GetBInteriorBegin (m_box P) + nBoundarySize - 1)
             then Inl (Exception ''Insufficient interior elements to build diagonal connection.'')
             else if dirFirst = Direction_TopLeft \<and>
                (ixFirst > GetAInteriorEnd (m_box P) - nBoundarySize \<or>
                 ixSecond < GetBInteriorBegin (m_box P) + nBoundarySize - 1)
             then Inl (Exception ''Insufficient interior elements to build diagonal connection.'')
             else if dirFirst = Direction_BottomLeft \<and>
                (ixFirst > GetAInteriorEnd (m_box P) - nBoundarySize \<or>
                 ixSecond > GetBInteriorEnd (m_box P) - nBoundarySize)
             then Inl (Exception ''Insufficient interior elements to build diagonal connection.'')
             else if dirFirst = Direction_BottomRight \<and>
                (ixFirst < GetAInteriorBegin (m_box P) + nBoundarySize - 1 \<or>
                 ixSecond > GetBInteriorEnd (m_box P) - nBoundarySize)
             then Inl (Exception ''Insufficient interior elements to build diagonal connection.'')
             else Inr (P\<lparr>m_connect := m_connect P @
                    [\<lparr>nb_dirFirst = dirFirst, nb_dirOpposing = dirOpposing,
                      nb_ixNeighbor = m_ixPatch S,
                      nb_fReverseDirection = fReverseDirection,
                      nb_fFlippedCoordinate = fFlippedCoordinate,
                      nb_nBoundarySize = nBoundarySize,
                      nb_ixFirst = ixFirst, nb_ixSecond = ixSecond,
                      nb_nRElements = nRElements, nb_nHaloElements = nHaloElements,
                      nb_nStateTracerMaxVariables = nStateTracerMaxVariables\<rparr>]\<rparr>)))"

text \<open>
  \<open>GridPatch::ExteriorConnect\<close> without indices: the whole edge, or the corner element.
\<close>

definition ExteriorConnect_dir ::
  "opposing \<Rightarrow> Grid \<Rightarrow> GridPatch \<Rightarrow> Direction \<Rightarrow> GridPatch option \<Rightarrow> error + GridPatch" where
  "ExteriorConnect_dir GetOpposingDirection G P dirFirst pPatchSecond =
     (if dirFirst = Direction_Right \<or> dirFirst = Direction_Left then
        ExteriorConnect GetOpposingDirection G P dirFirst pPatchSecond
          (GetBInteriorBegin (m_box P)) (GetBInteriorEnd (m_box P))
      else if dirFirst = Direction_Top \<or> dirFirst = Direction_Bottom then
        ExteriorConnect GetOpposingDirection G P dirFirst pPatchSecond
          (GetAInteriorBegin (m_box P)) (GetAInteriorEnd (m_box P))
      else if dirFirst = Direction_TopRight then
        ExteriorConnect GetOpposingDirection G P dirFirst pPatchSecond
          (GetAInteriorEnd (m_box P) - 1) (GetBInteriorEnd (m_box P) - 1)
      else if dirFirst = Direction_TopLeft then
        ExteriorConnect GetOpposingDirection G P dirFirst pPatchSecond
          (GetAInteriorBegin (m_box P)) (GetBInteriorEnd (m_box P) - 1)
      else if dirFirst = Direction_BottomLeft then
        ExteriorConnect GetOpposingDirection G P dirFirst pPatchSecond
          (GetAInteriorBegin (m_box P)) (GetBInteriorBegin (m_box P))
      else if dirFirst = Direction_BottomRight then
        ExteriorConnect GetOpposingDirection G P dirFirst pPatchSecond
          (GetAInteriorEnd (m_box P) - 1) (GetBInteriorBegin (m_box P))
      else Inl (Exception ''Invalid direction''))"

text \<open>
  The first half of the loop body of \<open>Grid::InitializeConnectivity\<close>: the samples
  written to \<open>vecIxA\<close>, \<open>vecIxB\<close> and \<open>vecPanel\<close>, in the order they are written; the
  index \<open>ix\<close> after it is the length of this list.
\<close>

definition boundary_samples :: "PatchBox \<Rightarrow> (int \<times> int \<times> int) list" where
  "boundary_samples box =
     [(GetAGlobalInteriorBegin box - 1, GetBGlobalInteriorBegin box - 1, GetPanel box)]
     @ map (\<lambda>i. (i, GetBGlobalInteriorBegin box - 1, GetPanel box))
         [GetAGlobalInteriorBegin box .. GetAGlobalInteriorEnd box - 1]
     @ [(GetAGlobalInteriorEnd box, GetBGlobalInteriorBegin box - 1, GetPanel box)]
     @ map (\<lambda>j. (GetAGlobalInteriorEnd box, j, GetPanel box))
         [GetBGlobalInteriorBegin box .. GetBGlobalInteriorEnd box - 1]
     @ [(GetAGlobalInteriorEnd box, GetBGlobalInteriorEnd box, GetPanel box)]
     @ map (\<lambda>i. (i, GetBGlobalInteriorEnd box, GetPanel box))
         (rev [GetAGlobalInteriorBegin box .. GetAGlobalInteriorEnd box - 1])
     @ [(GetAGlobalInteriorBegin box - 1, GetBGlobalInteriorEnd box, GetPanel box)]
     @ map (\<lambda>j. (GetAGlobalInteriorBegin box - 1, j, GetPanel box))
         (rev [GetBGlobalInteriorBegin box .. GetBGlobalInteriorEnd box - 1])"


text \<open>
  Modelled from the spec: \<open>Connectivity::ExteriorConnect\<close>, which Grid.cpp calls, is
  defined in Connectivity.cpp, not among the sources. It adds the relation to the first
  patch; it is taken to forward to \<open>GridPatch::ExteriorConnect\<close> of the first patch with
  the second patch, which is never null here.
\<close>

definition Connectivity_ExteriorConnect ::
  "opposing \<Rightarrow> Grid \<Rightarrow> GridPatch \<Rightarrow> Direction \<Rightarrow> GridPatch \<Rightarrow> int \<Rightarrow> int \<Rightarrow> error + GridPatch" where
  "Connectivity_ExteriorConnect GetOpposingDirection G pPatch dirFirst pPatchSecond ixFirst ixSecond =
     ExteriorConnect GetOpposingDirection G pPatch dirFirst (Some pPatchSecond) ixFirst ixSecond"

definition Connectivity_ExteriorConnect_dir ::
  "opposing \<Rightarrow> Grid \<Rightarrow> GridPatch \<Rightarrow> Direction \<Rightarrow> GridPatch \<Rightarrow> error + GridPatch" where
  "Connectivity_ExteriorConnect_dir GetOpposingDirection G pPatch dirFirst pPatchSecond =
     ExteriorConnect_dir GetOpposingDirection G pPatch dirFirst (Some pPatchSecond)"

text \<open>
  \<open>m_vecGridPatches[ix]\<close>, an unchecked access.
\<close>

definition patch_at :: "Grid \<Rightarrow> int \<Rightarrow> error + GridPatch" where
  "patch_at G ix = vec_at (m_vecGridPatches G) ix"

text \<open>
  The four corner blocks of \<open>Grid::InitializeConnectivity\<close>: a relation for the corner
  sample at \<open>ix\<close> unless it resolved to \<open>InvalidIndex\<close>.
\<close>

definition connect_corner ::
  "opposing \<Rightarrow> Grid \<Rightarrow> int list \<Rightarrow> Direction \<Rightarrow> int \<Rightarrow> GridPatch \<Rightarrow> error + GridPatch" where
  "connect_corner GetOpposingDirection G vecPatch dir ix pPatch =
     bindE (vec_at vecPatch ix) (\<lambda>v.
       if v \<noteq> InvalidIndex then
         bindE (patch_at G v) (\<lambda>S.
           Connectivity_ExteriorConnect_dir GetOpposingDirection G pPatch dir S)
       else Inr pPatch)"

text \<open>
  The variables an edge loop changes: the sample index \<open>ix\<close>, the start of the current
  run (\<open>ixFirstBegin\<close> or \<open>ixFirstEnd\<close>), the patch of the current run, and the patch
  being connected.
\<close>

record edge_state =
  es_ix :: int
  es_ixFirst :: int
  es_iCurrentPatch :: int
  es_patch :: GridPatch

text \<open>
  The body of an edge loop. The four loops differ in the end test \<open>atEnd\<close>, in the three
  directions and in the index arguments of the three \<open>ExteriorConnect\<close> calls, which
  are the parameters here; \<open>bottom_body\<close>, \<open>right_body\<close>, \<open>top_body\<close> and \<open>left_body\<close>
  give them as the source does.
\<close>

definition edge_step ::
  "opposing \<Rightarrow> Grid \<Rightarrow> int list \<Rightarrow> bool \<Rightarrow>
   Direction \<Rightarrow> int \<times> int \<Rightarrow> Direction \<Rightarrow> int \<times> int \<Rightarrow> Direction \<Rightarrow> int \<times> int \<Rightarrow> int \<Rightarrow>
   edge_state \<Rightarrow> error + edge_state" where
  "edge_step GetOpposingDirection G vecPatch atEnd dirEdge argEdge dirOld argOld dirNew argNew
      ixFirstNew st =
     bindE (if atEnd then Inr True
            else bindE (vec_at vecPatch (es_ix st)) (\<lambda>v. Inr (v \<noteq> es_iCurrentPatch st))) (\<lambda>change.
     bindE (if change then
              bindE (patch_at G (es_iCurrentPatch st)) (\<lambda>pPatchOld.
              bindE (Connectivity_ExteriorConnect GetOpposingDirection G (es_patch st)
                       dirEdge pPatchOld (fst argEdge) (snd argEdge)) (\<lambda>P1.
              if \<not> atEnd then
                bindE (Connectivity_ExteriorConnect GetOpposingDirection G P1
                         dirOld pPatchOld (fst argOld) (snd argOld)) (\<lambda>P2.
                bindE (vec_at vecPatch (es_ix st)) (\<lambda>iCurrentPatch.
                bindE (patch_at G iCurrentPatch) (\<lambda>pPatchNew.
                bindE (Connectivity_ExteriorConnect GetOpposingDirection G P2
                         dirNew pPatchNew (fst argNew) (snd argNew)) (\<lambda>P3.
                Inr (st\<lparr>es_ixFirst := ixFirstNew, es_iCurrentPatch := iCurrentPatch,
                       es_patch := P3\<rparr>)))))
              else Inr (st\<lparr>es_patch := P1\<rparr>)))
            else Inr st) (\<lambda>st1.
     Inr (if \<not> atEnd then st1\<lparr>es_ix := es_ix st1 + 1\<rparr> else st1)))"

definition bottom_body :: "opposing \<Rightarrow> Grid \<Rightarrow> int list \<Rightarrow> PatchBox \<Rightarrow> int \<Rightarrow> edge_state \<Rightarrow> error + edge_state" where
  "bottom_body GetOpposingDirection G vecPatch box i st =
     edge_step GetOpposingDirection G vecPatch (i = GetAInteriorEnd box)
       Direction_Bottom (es_ixFirst st, i)
       Direction_BottomLeft (i, GetBInteriorBegin box)
       Direction_BottomRight (i - 1, GetBInteriorBegin box)
       i st"

definition right_body :: "opposing \<Rightarrow> Grid \<Rightarrow> int list \<Rightarrow> PatchBox \<Rightarrow> int \<Rightarrow> edge_state \<Rightarrow> error + edge_state" where
  "right_body GetOpposingDirection G vecPatch box j st =
     edge_step GetOpposingDirection G vecPatch (j = GetBInteriorEnd box)
       Direction_Right (es_ixFirst st, j)
       Direction_BottomRight (GetAInteriorEnd box - 1, j)
       Direction_TopRight (GetAInteriorEnd box - 1, j - 1)
       j st"

definition top_body :: "opposing \<Rightarrow> Grid \<Rightarrow> int list \<Rightarrow> PatchBox \<Rightarrow> int \<Rightarrow> edge_state \<Rightarrow> error + edge_state" where
  "top_body GetOpposingDirection G vecPatch box i st =
     edge_step GetOpposingDirection G vecPatch (i = GetAInteriorBegin box - 1)
       Direction_Top (i + 1, es_ixFirst st)
       Direction_TopRight (i, GetBInteriorEnd box - 1)
       Direction_TopLeft (i + 1, GetBInteriorEnd box - 1)
       (i + 1) st"

definition left_body :: "opposing \<Rightarrow> Grid \<Rightarrow> int list \<Rightarrow> PatchBox \<Rightarrow> int \<Rightarrow> edge_state \<Rightarrow> error + edge_state" where
  "left_body GetOpposingDirection G vecPatch box j st =
     edge_step GetOpposingDirection G vecPatch (j = GetBInteriorBegin box - 1)
       Direction_Left (j + 1, es_ixFirst st)
       Direction_TopLeft (GetAInteriorBegin box, j)
       Direction_BottomLeft (GetAInteriorBegin box, j + 1)
       (j + 1) st"

text \<open>
  \<open>for (i = lo; i <= hi; i++)\<close> and \<open>for (i = hi; i >= lo; i--)\<close> over a body that may
  throw.
\<close>

function for_up :: "int \<Rightarrow> int \<Rightarrow> (int \<Rightarrow> 's \<Rightarrow> error + 's) \<Rightarrow> 's \<Rightarrow> error + 's" where
  "for_up i hi body s =
     (if i \<le> hi then bindE (body i s) (\<lambda>s'. for_up (i + 1) hi body s') else Inr s)"
  by pat_completeness auto
termination
  by (relation "measure (\<lambda>(i, hi, body, s). nat (hi + 1 - i))") auto

function for_down :: "int \<Rightarrow> int \<Rightarrow> (int \<Rightarrow> 's \<Rightarrow> error + 's) \<Rightarrow> 's \<Rightarrow> error + 's" where
  "for_down i lo body s =
     (if i \<ge> lo then bindE (body i s) (\<lambda>s'. for_down (i - 1) lo body s') else Inr s)"
  by pat_completeness auto
termination
  by (relation "measure (\<lambda>(i, lo, body, s). nat (i + 1 - lo))") auto

declare for_up.simps [simp del] for_down.simps [simp del]

text \<open>
  The two declarations before an edge loop: the start of the first run and
  \<open>iCurrentPatch = vecPatch[ix]\<close>.
\<close>

definition edge_start :: "int list \<Rightarrow> int \<Rightarrow> int \<Rightarrow> GridPatch \<Rightarrow> error + edge_state" where
  "edge_start vecPatch ix ixFirst pPatch =
     bindE (vec_at vecPatch ix) (\<lambda>iCurrentPatch.
       Inr \<lparr>es_ix = ix, es_ixFirst = ixFirst, es_iCurrentPatch = iCurrentPatch,
            es_patch = pPatch\<rparr>)"

text \<open>
  The second half of the loop body of \<open>Grid::InitializeConnectivity\<close>, from the reset of
  \<open>ix\<close> to the last edge loop; it returns the final \<open>ix\<close> and the connected patch.
\<close>

definition connect_boundary ::
  "opposing \<Rightarrow> Grid \<Rightarrow> int list \<Rightarrow> GridPatch \<Rightarrow> error + (int \<times> GridPatch)" where
  "connect_boundary GetOpposingDirection G vecPatch pPatch =
     (let box = m_box pPatch in
      bindE (connect_corner GetOpposingDirection G vecPatch Direction_BottomLeft 0 pPatch) (\<lambda>P1.
      bindE (edge_start vecPatch 1 (GetAInteriorBegin box) P1) (\<lambda>s0.
      bindE (for_up (GetAInteriorBegin box) (GetAInteriorEnd box)
               (bottom_body GetOpposingDirection G vecPatch box) s0) (\<lambda>s1.
      bindE (connect_corner GetOpposingDirection G vecPatch Direction_BottomRight
               (es_ix s1) (es_patch s1)) (\<lambda>P2.
      bindE (edge_start vecPatch (es_ix s1 + 1) (GetBInteriorBegin box) P2) (\<lambda>s2.
      bindE (for_up (GetBInteriorBegin box) (GetBInteriorEnd box)
               (right_body GetOpposingDirection G vecPatch box) s2) (\<lambda>s3.
      bindE (connect_corner GetOpposingDirection G vecPatch Direction_TopRight
               (es_ix s3) (es_patch s3)) (\<lambda>P3.
      bindE (edge_start vecPatch (es_ix s3 + 1) (GetAInteriorEnd box) P3) (\<lambda>s4.
      bindE (for_down (GetAInteriorEnd box - 1) (GetAInteriorBegin box - 1)
               (top_body GetOpposingDirection G vecPatch box) s4) (\<lambda>s5.
      bindE (connect_corner GetOpposingDirection G vecPatch Direction_TopLeft
               (es_ix s5) (es_patch s5)) (\<lambda>P4.
      bindE (edge_start vecPatch (es_ix s5 + 1) (GetBInteriorEnd box) P4) (\<lambda>s6.
      bindE (for_down (GetBInteriorEnd box - 1) (GetBInteriorBegin box - 1)
               (left_body GetOpposingDirection G vecPatch box) s6) (\<lambda>s7.
      Inr (es_ix s7, es_patch s7))))))))))))))"

text \<open>
  The loop body of \<open>Grid::InitializeConnectivity\<close> for one active patch, with its two
  \<open>Index mismatch\<close> checks. \<open>vecPatch\<close> holds the patches of the samples of this patch;
  an entry past them, which in the source is whatever an earlier patch left there, is an
  unchecked access here.
\<close>

definition InitializeConnectivity_patch ::
  "opposing \<Rightarrow> resolver \<Rightarrow> Grid \<Rightarrow> GridPatch \<Rightarrow> error + GridPatch" where
  "InitializeConnectivity_patch GetOpposingDirection GetPatchFromCoordinateIndex G pPatch =
     (let box = m_box pPatch;
          samples = boundary_samples box;
          ix = int (length samples);
          vecPatch = map (\<lambda>(ixA, ixB, panel).
                       GetPatchFromCoordinateIndex (GetRefinementLevel box) ixA ixB panel) samples
      in if ix \<noteq> GetInteriorPerimeter box + 4 then Inl (Exception ''Index mismatch'')
         else bindE (connect_boundary GetOpposingDirection G vecPatch pPatch) (\<lambda>(ix, P).
              if ix \<noteq> GetInteriorPerimeter box + 4 then Inl (Exception ''Index mismatch'')
              else Inr P))"

text \<open>
  Modelled from the spec: a well-formed \<open>PatchBox\<close> (PatchBox.h is not among the
  sources). Both interior widths are positive, the interior has the same width in local
  and in global indices, and the interior perimeter is twice the sum of the two widths.
\<close>

definition PatchBox_wf :: "PatchBox \<Rightarrow> bool" where
  "PatchBox_wf box =
     (0 < GetAGlobalInteriorEnd box - GetAGlobalInteriorBegin box \<and>
      0 < GetBGlobalInteriorEnd box - GetBGlobalInteriorBegin box \<and>
      GetAInteriorEnd box - GetAInteriorBegin box =
        GetAGlobalInteriorEnd box - GetAGlobalInteriorBegin box \<and>
      GetBInteriorEnd box - GetBInteriorBegin box =
        GetBGlobalInteriorEnd box - GetBGlobalInteriorBegin box \<and>
      GetInteriorPerimeter box =
        2 * ((GetAGlobalInteriorEnd box - GetAGlobalInteriorBegin box)
           + (GetBGlobalInteriorEnd box - GetBGlobalInteriorBegin box)))"


text \<open>
  For the examples: the topology table of two patches of one panel, and two patches of
  3 by 2 interior elements with a halo of 2, side by side on panel 0.
\<close>

definition same_panel_opposing :: opposing where
  "same_panel_opposing ixPanelFirst ixPanelSecond dirFirst =
     ((case dirFirst of
         Direction_Right \<Rightarrow> Direction_Left | Direction_Left \<Rightarrow> Direction_Right
       | Direction_Top \<Rightarrow> Direction_Bottom | Direction_Bottom \<Rightarrow> Direction_Top
       | Direction_TopRight \<Rightarrow> Direction_BottomLeft | Direction_BottomLeft \<Rightarrow> Direction_TopRight
       | Direction_TopLeft \<Rightarrow> Direction_BottomRight | Direction_BottomRight \<Rightarrow> Direction_TopLeft
       | Direction_Unreachable \<Rightarrow> Direction_Unreachable), False, False)"

definition small_patch :: "int \<Rightarrow> GridPatch" where
  "small_patch k = GridPatch_new k (PatchBox_new 0 0 2 (3 * k) (3 * k + 3) 0 2)"

definition small_grid :: Grid where
  "small_grid =
     \<lparr>m_model = example_model, m_nRElements = 3,
      m_vecVarLocation = [DataLocation_Node, DataLocation_Node, DataLocation_Node],
      m_vecGridPatches = [small_patch 0, small_patch 1],
      m_vecActiveGridPatches = [0],
      m_vecCumulativePatch2DNodeIndex = [0, 126, 252]\<rparr>"

text \<open>
  The four diagonal directions.
\<close>

definition is_corner :: "Direction \<Rightarrow> bool" where
  "is_corner d = (d = Direction_TopRight \<or> d = Direction_TopLeft \<or>
                  d = Direction_BottomLeft \<or> d = Direction_BottomRight)"

text \<open>
  The sample the traversal of \<open>Grid::InitializeConnectivity\<close> writes for a corner: the
  two global indices and the panel.
\<close>

definition corner_sample :: "PatchBox \<Rightarrow> Direction \<Rightarrow> int \<times> int \<times> int" where
  "corner_sample box d =
     (if d = Direction_BottomLeft then
        (GetAGlobalInteriorBegin box - 1, GetBGlobalInteriorBegin box - 1, GetPanel box)
      else if d = Direction_BottomRight then
        (GetAGlobalInteriorEnd box, GetBGlobalInteriorBegin box - 1, GetPanel box)
      else if d = Direction_TopRight then
        (GetAGlobalInteriorEnd box, GetBGlobalInteriorEnd box, GetPanel box)
      else
        (GetAGlobalInteriorBegin box - 1, GetBGlobalInteriorEnd box, GetPanel box))"

text \<open>
  The patch index that \<open>GetPatchFromCoordinateIndex\<close> gives for the sample of a corner.
\<close>

definition corner_patch :: "resolver \<Rightarrow> PatchBox \<Rightarrow> Direction \<Rightarrow> int" where
  "corner_patch GetPatchFromCoordinateIndex box d =
     (case corner_sample box d of (ixA, ixB, panel) \<Rightarrow>
        GetPatchFromCoordinateIndex (GetRefinementLevel box) ixA ixB panel)"

text \<open>
  The two indices \<open>GridPatch::ExteriorConnect\<close> without indices passes on for a diagonal
  direction: the corner element of the interior.
\<close>

definition corner_element :: "PatchBox \<Rightarrow> Direction \<Rightarrow> int \<times> int" where
  "corner_element box d =
     (if d = Direction_TopRight then (GetAInteriorEnd box - 1, GetBInteriorEnd box - 1)
      else if d = Direction_TopLeft then (GetAInteriorBegin box, GetBInteriorEnd box - 1)
      else if d = Direction_BottomLeft then (GetAInteriorBegin box, GetBInteriorBegin box)
      else (GetAInteriorEnd box - 1, GetBInteriorBegin box))"

text \<open>
  A standalone corner relation of a patch: a neighbour in the diagonal direction \<open>d\<close> at
  the corner element. An edge loop adds diagonal neighbours too, where the patch changes
  along the edge, at the element of the change.
\<close>

definition standalone_corner :: "PatchBox \<Rightarrow> Direction \<Rightarrow> ExteriorNeighbor \<Rightarrow> bool" where
  "standalone_corner box d nb =
     (nb_dirFirst nb = d \<and> (nb_ixFirst nb, nb_ixSecond nb) = corner_element box d)"

text \<open>
  For the examples: a grid whose first patch has 1 by 2 interior elements, less than
  the halo of 2 along the first axis; and a resolver that finds patch 1 at every sample
  but the bottom-left and the top-right corner of the first small patch, where it finds
  no patch.
\<close>

definition narrow_patch :: GridPatch where
  "narrow_patch = GridPatch_new 0 (PatchBox_new 0 0 2 0 1 0 2)"

definition narrow_grid :: Grid where
  "narrow_grid = small_grid\<lparr>m_vecGridPatches := [narrow_patch, small_patch 1]\<rparr>"

definition two_corner_resolver :: resolver where
  "two_corner_resolver level ixA ixB panel =
     (if (ixA = - 1 \<and> ixB = - 1) \<or> (ixA = 3 \<and> ixB = 2) then InvalidIndex else 1)"

section \<open>Root consolidation\<close>

text \<open>
  \<open>ConsolidationStatus\<close> is declared in ConsolidationStatus.h, which is not among the
  sources: its state is the type parameter \<open>'s\<close> and the members the grid calls are
  parameters. \<open>ParseTag\<close> and \<open>SetReceiveStatus\<close> may throw.
\<close>

record 's ConsolidationStatus =
  Done :: "'s \<Rightarrow> bool"
  Contains :: "'s \<Rightarrow> DataType \<Rightarrow> bool"
  SetReceiveStatus :: "'s \<Rightarrow> int \<Rightarrow> DataType \<Rightarrow> error + 's"
  ParseTag :: "int \<Rightarrow> error + (int \<times> DataType)"
  GenerateTag :: "int \<Rightarrow> DataType \<Rightarrow> int"

text \<open>
  What the root process sees: the status object and the messages that have arrived and
  are not yet received, each with its tag and its count of doubles, in the order
  \<open>MPI_Recv\<close> from any source with any tag hands them out.
\<close>

record 's root_state =
  rs_status :: 's
  rs_mailbox :: "(int \<times> int) list"

text \<open>
  \<open>Grid::ConsolidateDataAtRoot\<close> on the process of rank \<open>nRank\<close>. The result pairs the
  outcome (an error, or the output arguments \<open>nRecvCount\<close>, \<open>ixRecvPatch\<close> and
  \<open>eRecvDataType\<close>) with the state at the moment the function returns or throws. With
  no pending message \<open>MPI_Recv\<close> does not return. The difference \<open>nDiff\<close> the Jacobian
  branch computes is never used and is left out.
\<close>

definition ConsolidateDataAtRoot ::
  "'s ConsolidationStatus \<Rightarrow> Grid \<Rightarrow> int \<Rightarrow> 's root_state
     \<Rightarrow> (error + (int \<times> int \<times> DataType)) \<times> 's root_state" where
  "ConsolidateDataAtRoot ops G nRank st =
     (if nRank \<noteq> 0 then
        (Inl (Exception ''Non-root process calling ConsolidateDataAtRoot''), st)
      else if Done ops (rs_status st) then
        (Inl (Exception ''Attempting to consolidate data after completion''), st)
      else
        (case rs_mailbox st of
           [] \<Rightarrow> (Inl Blocked, st)
         | (nTag, nRecvCount) # rest \<Rightarrow>
             (let st1 = st\<lparr>rs_mailbox := rest\<rparr> in
              case ParseTag ops nTag of
                Inl e \<Rightarrow> (Inl e, st1)
              | Inr (ixRecvPatch, eRecvDataType) \<Rightarrow>
                  if ixRecvPatch < 0 \<or> ixRecvPatch \<ge> int (length (m_vecGridPatches G)) then
                    (Inl (Exception ''Panel tag index out of range''), st1)
                  else
                    (case SetReceiveStatus ops (rs_status st1) ixRecvPatch eRecvDataType of
                       Inl e \<Rightarrow> (Inl e, st1)
                     | Inr status' \<Rightarrow>
                         (let st2 = st1\<lparr>rs_status := status'\<rparr>;
                              pPatch = m_vecGridPatches G ! nat ixRecvPatch
                          in
                            if eRecvDataType = DataType_State then
                              (if wrap_int (wrap_int (GetComponents (m_model G) * m_nRElements G)
                                    * GetTotalNodes (m_box pPatch)) \<noteq> nRecvCount
                               then (Inl (Exception ''State dimension mismatch''), st2)
                               else (Inr (nRecvCount, ixRecvPatch, eRecvDataType), st2))
                            else if eRecvDataType = DataType_Tracers then
                              (if wrap_int (wrap_int (GetTracers (m_model G) * m_nRElements G)
                                    * GetTotalNodes (m_box pPatch)) \<noteq> nRecvCount
                               then (Inl (Exception ''Tracers dimension mismatch''), st2)
                               else (Inr (nRecvCount, ixRecvPatch, eRecvDataType), st2))
                            else if eRecvDataType = DataType_Jacobian then
                              (if wrap_int (m_nRElements G * GetTotalNodes (m_box pPatch))
                                    \<noteq> nRecvCount
                               then (Inl (Exception ''Jacobian dimension mismatch''), st2)
                               else (Inr (nRecvCount, ixRecvPatch, eRecvDataType), st2))
                            else (Inr (nRecvCount, ixRecvPatch, eRecvDataType), st2))))))"

text \<open>
  \<open>Grid::ConsolidateDataToRoot\<close>: the messages one process sends to the root, each with
  its tag and its count of doubles (\<open>GetTotalElements\<close> of the array, which is the product
  of the extents \<open>InitializeDataLocal\<close> allocated it with; an array that was never
  initialized has no element). \<open>GetDataState(0)\<close> and \<open>GetDataTracers(0)\<close> read slot 0 of
  the patch, whatever the status contains.
\<close>

definition GetTotalElements4 :: "GridData4D \<Rightarrow> int \<Rightarrow> int \<Rightarrow> int \<Rightarrow> int \<Rightarrow> int" where
  "GetTotalElements4 d nComponents nRElements nA nB =
     (if IsInitialized d then nComponents * nRElements * nA * nB else 0)"

definition patch_sends :: "'s ConsolidationStatus \<Rightarrow> Grid \<Rightarrow> 's \<Rightarrow> GridPatch \<Rightarrow> error + (int \<times> int) list" where
  "patch_sends ops G status pPatch =
     bindE (vec_at (m_datavecStateNode pPatch) 0) (\<lambda>dataState.
     bindE (vec_at (m_datavecTracers pPatch) 0) (\<lambda>dataTracers.
     (let nA = GetATotalWidth (m_box pPatch); nB = GetBTotalWidth (m_box pPatch);
          nR = m_nRElements G; ix = m_ixPatch pPatch
      in Inr (
        (if Contains ops status DataType_State
         then [(GenerateTag ops ix DataType_State,
                GetTotalElements4 dataState (GetComponents (m_model G)) nR nA nB)] else [])
      @ (if Contains ops status DataType_Tracers
         then [(GenerateTag ops ix DataType_Tracers,
                GetTotalElements4 dataTracers (GetTracers (m_model G)) nR nA nB)] else [])
      @ (if Contains ops status DataType_Jacobian
         then [(GenerateTag ops ix DataType_Jacobian, nR * nA * nB)] else [])
      @ (if Contains ops status DataType_Topography
         then [(GenerateTag ops ix DataType_Topography, nA * nB)] else [])
      @ (if Contains ops status DataType_Longitude
         then [(GenerateTag ops ix DataType_Longitude, nA * nB)] else [])
      @ (if Contains ops status DataType_Latitude
         then [(GenerateTag ops ix DataType_Latitude, nA * nB)] else [])
      @ (if Contains ops status DataType_Z
         then [(GenerateTag ops ix DataType_Z, nR * nA * nB)] else [])))))"

fun active_sends :: "'s ConsolidationStatus \<Rightarrow> Grid \<Rightarrow> 's \<Rightarrow> nat list \<Rightarrow> error + (int \<times> int) list" where
  "active_sends ops G status [] = Inr []"
| "active_sends ops G status (n # ns) =
     bindE (vec_at (m_vecGridPatches G) (int n)) (\<lambda>pPatch.
     bindE (patch_sends ops G status pPatch) (\<lambda>ms.
     bindE (active_sends ops G status ns) (\<lambda>rest. Inr (ms @ rest))))"

definition ConsolidateDataToRoot :: "'s ConsolidationStatus \<Rightarrow> Grid \<Rightarrow> 's \<Rightarrow> error + (int \<times> int) list" where
  "ConsolidateDataToRoot ops G status =
     (if Contains ops status DataType_Tracers \<and> GetTracers (m_model G) = 0
      then Inl (Exception ''Attempting to consolidate empty tracer data'')
      else active_sends ops G status (m_vecActiveGridPatches G))"


text \<open>
  For the examples, modelled from the spec: a status that holds the (patch, data type)
  pairs it expects and the ones it has received, is done when every expected pair is
  received, refuses a pair it does not expect or has already received, and encodes a
  pair in a tag as sixteen times the patch index plus a code of the data type.
\<close>

definition DataType_code :: "DataType \<Rightarrow> int" where
  "DataType_code dt =
     (case dt of DataType_State \<Rightarrow> 0 | DataType_Tracers \<Rightarrow> 1 | DataType_Jacobian \<Rightarrow> 2
      | DataType_Topography \<Rightarrow> 3 | DataType_Longitude \<Rightarrow> 4 | DataType_Latitude \<Rightarrow> 5
      | DataType_Z \<Rightarrow> 6 | _ \<Rightarrow> 7)"

definition DataType_of_code :: "int \<Rightarrow> error + DataType" where
  "DataType_of_code c =
     (if c = 0 then Inr DataType_State else if c = 1 then Inr DataType_Tracers
      else if c = 2 then Inr DataType_Jacobian else if c = 3 then Inr DataType_Topography
      else if c = 4 then Inr DataType_Longitude else if c = 5 then Inr DataType_Latitude
      else if c = 6 then Inr DataType_Z else Inl (Exception ''Invalid tag''))"

type_synonym example_status = "(int \<times> DataType) list \<times> (int \<times> DataType) list"

definition example_status_ops :: "example_status ConsolidationStatus" where
  "example_status_ops =
     \<lparr>Done = (\<lambda>(expected, received). list_all (\<lambda>x. x \<in> set received) expected),
      Contains = (\<lambda>(expected, received) dt. dt \<in> set (map snd expected)),
      SetReceiveStatus = (\<lambda>(expected, received) ix dt.
         if (ix, dt) \<in> set expected \<and> (ix, dt) \<notin> set received
         then Inr (expected, received @ [(ix, dt)])
         else Inl (Exception ''Unexpected consolidation message'')),
      ParseTag = (\<lambda>nTag. bindE (DataType_of_code (nTag mod 16)) (\<lambda>dt. Inr (nTag div 16, dt))),
      GenerateTag = (\<lambda>ix dt. 16 * ix + DataType_code dt)\<rparr>"

section \<open>Data-slot operations of GridPatch\<close>

text \<open>
  The members of \<open>GridData4D\<close> the slot operations call (GridData4D.h is not among the
  sources), by their names: \<open>Zero\<close>, \<open>Scale\<close> and \<open>AddProduct\<close>.
\<close>

definition Zero4 :: "GridData4D \<Rightarrow> GridData4D" where
  "Zero4 d = d\<lparr>values4 := (\<lambda>c k i j. 0)\<rparr>"

definition Scale4 :: "real \<Rightarrow> GridData4D \<Rightarrow> GridData4D" where
  "Scale4 x d = d\<lparr>values4 := (\<lambda>c k i j. x * values4 d c k i j)\<rparr>"

definition AddProduct4 :: "GridData4D \<Rightarrow> real \<Rightarrow> GridData4D \<Rightarrow> GridData4D" where
  "AddProduct4 src x d = d\<lparr>values4 := (\<lambda>c k i j. values4 d c k i j + x * values4 src c k i j)\<rparr>"

text \<open>\<open>v[i] = x\<close> on a vector, with the range written out.\<close>

definition vec_set :: "'a list \<Rightarrow> int \<Rightarrow> 'a \<Rightarrow> error + 'a list" where
  "vec_set xs i x = (if 0 \<le> i \<and> i < int (length xs) then Inr (xs[nat i := x]) else Inl UncheckedAccess)"

text \<open>
  \<open>GridPatch::Send\<close> and \<open>GridPatch::Receive\<close>. The exchange buffers of the connectivity
  are the type parameter \<open>'c\<close>; \<open>Connectivity::Pack\<close>, \<open>Connectivity::Send\<close> and the
  unpacking of every neighbour that \<open>WaitReceive\<close> hands out are parameters, as is the
  packing of the arrays that have no slot (vorticity, divergence, temperature,
  topography derivatives). \<open>Receive\<close> reads the slot once per neighbour, so not at all for
  a patch without neighbours.
\<close>

definition GridPatch_Send ::
  "(GridData4D \<Rightarrow> 'c \<Rightarrow> 'c) \<Rightarrow> (DataType \<Rightarrow> 'c \<Rightarrow> 'c) \<Rightarrow> ('c \<Rightarrow> 'c) \<Rightarrow>
   GridPatch \<Rightarrow> 'c \<Rightarrow> DataType \<Rightarrow> int \<Rightarrow> error + 'c" where
  "GridPatch_Send Pack PackArray SendBuffers P c eDataType iDataIndex =
     (if eDataType = DataType_State then
        (if iDataIndex < 0 \<or> iDataIndex > int (length (m_datavecStateNode P))
         then Inl (Exception ''Invalid state data instance.'')
         else bindE (vec_at (m_datavecStateNode P) iDataIndex) (\<lambda>dNode.
              bindE (vec_at (m_datavecStateREdge P) iDataIndex) (\<lambda>dREdge.
              Inr (SendBuffers (Pack dREdge (Pack dNode c))))))
      else if eDataType = DataType_Tracers then
        (if iDataIndex < 0 \<or> iDataIndex > int (length (m_datavecTracers P))
         then Inl (Exception ''Invalid tracers data instance.'')
         else bindE (vec_at (m_datavecTracers P) iDataIndex) (\<lambda>d.
              Inr (SendBuffers (Pack d c))))
      else if eDataType = DataType_Vorticity \<or> eDataType = DataType_Divergence \<or>
              eDataType = DataType_Temperature \<or> eDataType = DataType_TopographyDeriv then
        Inr (SendBuffers (PackArray eDataType c))
      else Inl (Exception ''Invalid DataType''))"

definition GridPatch_Receive ::
  "('c \<Rightarrow> GridData4D \<Rightarrow> GridData4D) \<Rightarrow> GridPatch \<Rightarrow> 'c \<Rightarrow> DataType \<Rightarrow> int \<Rightarrow> error + GridPatch" where
  "GridPatch_Receive UnpackAll P c eDataType iDataIndex =
     (if eDataType = DataType_State then
        (if iDataIndex < 0 \<or> iDataIndex > int (length (m_datavecStateNode P))
         then Inl (Exception ''Invalid state data instance.'')
         else if m_connect P = [] then Inr P
         else bindE (vec_at (m_datavecStateNode P) iDataIndex) (\<lambda>dNode.
              bindE (vec_at (m_datavecStateREdge P) iDataIndex) (\<lambda>dREdge.
              Inr (P\<lparr>m_datavecStateNode := (m_datavecStateNode P)[nat iDataIndex := UnpackAll c dNode],
                     m_datavecStateREdge := (m_datavecStateREdge P)[nat iDataIndex := UnpackAll c dREdge]\<rparr>))))
      else if eDataType = DataType_Tracers then
        (if iDataIndex < 0 \<or> iDataIndex > int (length (m_datavecTracers P))
         then Inl (Exception ''Invalid tracers data instance.'')
         else if m_connect P = [] then Inr P
         else bindE (vec_at (m_datavecTracers P) iDataIndex) (\<lambda>d.
              Inr (P\<lparr>m_datavecTracers := (m_datavecTracers P)[nat iDataIndex := UnpackAll c d]\<rparr>)))
      else if eDataType = DataType_Vorticity \<or> eDataType = DataType_Divergence \<or>
              eDataType = DataType_Temperature \<or> eDataType = DataType_TopographyDeriv then
        Inr P
      else Inl (Exception ''Invalid DataType''))"

text \<open>\<open>GridPatch::CopyData\<close>, \<open>ZeroData\<close> and \<open>AddReferenceState\<close>.\<close>

definition CopyData :: "GridPatch \<Rightarrow> int \<Rightarrow> int \<Rightarrow> DataType \<Rightarrow> error + GridPatch" where
  "CopyData P ixSource ixDest eDataType =
     (if eDataType = DataType_State then
        (if ixSource < 0 \<or> ixSource \<ge> int (length (m_datavecStateNode P))
         then Inl (Exception ''Invalid ixSource index in CopyData.'')
         else if ixDest < 0 \<or> ixDest \<ge> int (length (m_datavecStateNode P))
         then Inl (Exception ''Invalid ixDest index in CopyData.'')
         else bindE (vec_at (m_datavecStateNode P) ixSource) (\<lambda>dNode.
              bindE (vec_set (m_datavecStateNode P) ixDest dNode) (\<lambda>vNode.
              bindE (vec_at (m_datavecStateREdge P) ixSource) (\<lambda>dREdge.
              bindE (vec_set (m_datavecStateREdge P) ixDest dREdge) (\<lambda>vREdge.
              Inr (P\<lparr>m_datavecStateNode := vNode, m_datavecStateREdge := vREdge\<rparr>))))))
      else if eDataType = DataType_Tracers then
        (if ixSource < 0 \<or> ixSource \<ge> int (length (m_datavecTracers P))
         then Inl (Exception ''Invalid ixSource index in CopyData.'')
         else if ixDest < 0 \<or> ixDest \<ge> int (length (m_datavecTracers P))
         then Inl (Exception ''Invalid ixDest index in CopyData.'')
         else bindE (vec_at (m_datavecTracers P) ixSource) (\<lambda>d.
              bindE (vec_set (m_datavecTracers P) ixDest d) (\<lambda>v.
              Inr (P\<lparr>m_datavecTracers := v\<rparr>))))
      else Inl (Exception ''Invalid DataType specified for CopyData.''))"

definition ZeroData :: "GridPatch \<Rightarrow> int \<Rightarrow> DataType \<Rightarrow> error + GridPatch" where
  "ZeroData P ixData eDataType =
     (if eDataType = DataType_State then
        (if ixData < 0 \<or> ixData \<ge> int (length (m_datavecStateNode P))
         then Inl (Exception ''Invalid ixData index in LinearCombineData.'')
         else bindE (vec_at (m_datavecStateNode P) ixData) (\<lambda>dNode.
              bindE (vec_set (m_datavecStateNode P) ixData (Zero4 dNode)) (\<lambda>vNode.
              bindE (vec_at (m_datavecStateREdge P) ixData) (\<lambda>dREdge.
              bindE (vec_set (m_datavecStateREdge P) ixData (Zero4 dREdge)) (\<lambda>vREdge.
              Inr (P\<lparr>m_datavecStateNode := vNode, m_datavecStateREdge := vREdge\<rparr>))))))
      else if eDataType = DataType_Tracers then
        (if ixData < 0 \<or> ixData \<ge> int (length (m_datavecTracers P))
         then Inl (Exception ''Invalid ixData index in LinearCombineData.'')
         else bindE (vec_at (m_datavecTracers P) ixData) (\<lambda>d.
              if \<not> IsInitialized d then Inr P
              else bindE (vec_set (m_datavecTracers P) ixData (Zero4 d)) (\<lambda>v.
                   Inr (P\<lparr>m_datavecTracers := v\<rparr>))))
      else Inl (Exception ''Invalid DataType specified for LinearCombineData.''))"

definition AddReferenceState :: "GridPatch \<Rightarrow> int \<Rightarrow> error + GridPatch" where
  "AddReferenceState P ix =
     (if ix < 0 \<or> ix \<ge> int (length (m_datavecStateNode P))
      then Inl (Exception ''Invalid ix in AddReferenceState.'')
      else bindE (vec_at (m_datavecStateNode P) ix) (\<lambda>d.
           bindE (vec_set (m_datavecStateNode P) ix (AddProduct4 (m_dataRefStateNode P) 1 d)) (\<lambda>v.
           Inr (P\<lparr>m_datavecStateNode := v\<rparr>))))"

text \<open>
  The linear combination of one slot vector: the destination is scaled (or zeroed), then
  every other slot with a non-zero coefficient is added to it.
\<close>

definition combine_slots :: "real list \<Rightarrow> int \<Rightarrow> GridData4D list \<Rightarrow> error + GridData4D list" where
  "combine_slots dCoeff ixDest slots =
     bindE (vec_at dCoeff ixDest) (\<lambda>x.
     bindE (vec_at slots ixDest) (\<lambda>d.
     bindE (vec_set slots ixDest (if x = 0 then Zero4 d else Scale4 x d)) (\<lambda>slots1.
     fold (\<lambda>m r.
             bindE r (\<lambda>cur.
               if int m = ixDest then Inr cur
               else if dCoeff ! m = 0 then Inr cur
               else bindE (vec_at cur ixDest) (\<lambda>dst.
                    bindE (vec_at cur (int m)) (\<lambda>src.
                    vec_set cur ixDest (AddProduct4 src (dCoeff ! m) dst)))))
          [0..<length dCoeff] (Inr slots1))))"

text \<open>
  The text \<open>printf\<close> writes for \<open>%i\<close>: the decimal digits of an \<open>int\<close>, after a minus
  sign when it is negative.
\<close>

function format_nat :: "nat \<Rightarrow> string" where
  "format_nat n =
     (if n < 10 then [''0123456789'' ! n]
      else format_nat (n div 10) @ [''0123456789'' ! (n mod 10)])"
  by pat_completeness auto
termination
  by (relation "measure id") auto

declare format_nat.simps [simp del]

definition format_int :: "int \<Rightarrow> string" where
  "format_int i = (if i < 0 then CHR ''-'' # format_nat (nat (- i)) else format_nat (nat i))"

text \<open>
  \<open>GridPatch::LinearCombineData\<close>. \<open>DataArray1D::GetRows\<close> (DataArray1D.h is not among the
  sources) returns the unsigned \<open>size_t\<close>, so in the first test the \<open>int\<close> \<open>ixDest\<close> is
  converted to it: a negative \<open>ixDest\<close> compares as a value above every row count, and
  the first test throws for it. The exception of that test carries the formatted message,
  with \<open>ixDest\<close> and the last row index.
\<close>

definition LinearCombineData :: "GridPatch \<Rightarrow> real list \<Rightarrow> int \<Rightarrow> DataType \<Rightarrow> error + GridPatch" where
  "LinearCombineData P dCoeff ixDest eDataType =
     (if ixDest < 0 \<or> ixDest \<ge> int (length dCoeff)
      then Inl (Exception (''Destination index ['' @ format_int ixDest
                           @ ''] out of coefficient bounds [0,''
                           @ format_int (int (length dCoeff) - 1) @ '']''))
      else if eDataType = DataType_State then
        (if ixDest < 0 \<or> ixDest \<ge> int (length (m_datavecStateNode P))
         then Inl (Exception ''Invalid ixDest index in LinearCombineData.'')
         else if length dCoeff > length (m_datavecStateNode P)
         then Inl (Exception ''Too many elements in coefficient vector.'')
         else bindE (combine_slots dCoeff ixDest (m_datavecStateNode P)) (\<lambda>vNode.
              bindE (combine_slots dCoeff ixDest (m_datavecStateREdge P)) (\<lambda>vREdge.
              Inr (P\<lparr>m_datavecStateNode := vNode, m_datavecStateREdge := vREdge\<rparr>))))
      else if eDataType = DataType_Tracers then
        (if ixDest < 0 \<or> ixDest \<ge> int (length (m_datavecTracers P))
         then Inl (Exception ''Invalid ixDest index in LinearCombineData.'')
         else if length dCoeff > length (m_datavecTracers P)
         then Inl (Exception ''Too many elements in coefficient vector.'')
         else bindE (vec_at (m_datavecTracers P) ixDest) (\<lambda>d.
              if \<not> IsInitialized d then Inr P
              else bindE (combine_slots dCoeff ixDest (m_datavecTracers P)) (\<lambda>v.
                   Inr (P\<lparr>m_datavecTracers := v\<rparr>))))
      else Inl (Exception ''Invalid DataType specified for LinearCombineData.''))"

text \<open>
  For the examples: the first small patch after \<open>InitializeDataLocal\<close> on the small grid,
  which has two state slots and two tracer slots.
\<close>

definition small_active_patch :: GridPatch where
  "small_active_patch =
     (case InitializeDataLocal small_grid 0 (small_patch 0) of Inr P \<Rightarrow> P | Inl e \<Rightarrow> small_patch 0)"


section \<open>Checksums\<close>

text \<open>
  \<open>GridPatch::Checksum\<close>. The first loop sorts the components by their location, with
  \<open>Grid::GetVarLocation\<close> an unchecked read of \<open>m_vecVarLocation\<close>.
\<close>

fun classify_vars :: "DataLocation list \<Rightarrow> nat list \<Rightarrow> error + (nat list \<times> nat list)" where
  "classify_vars locs [] = Inr ([], [])"
| "classify_vars locs (c # cs) =
     bindE (vec_at locs (int c)) (\<lambda>loc.
       if loc = DataLocation_Node then
         bindE (classify_vars locs cs) (\<lambda>(nodevars, redgevars). Inr (c # nodevars, redgevars))
       else if loc = DataLocation_REdge then
         bindE (classify_vars locs cs) (\<lambda>(nodevars, redgevars). Inr (nodevars, c # redgevars))
       else Inl (Exception ''Not implemented.''))"

text \<open>
  The statement in the innermost loop, for each checksum type: the new value of
  \<open>dChecksums[c]\<close> from the old one, the nodal value and the element area.
\<close>

definition checksum_update :: "ChecksumType \<Rightarrow> real \<Rightarrow> real \<Rightarrow> real \<Rightarrow> real" where
  "checksum_update eChecksumType old dValue area =
     (if eChecksumType = ChecksumType_Sum then old + dValue * area
      else if eChecksumType = ChecksumType_L1 then old + \<bar>dValue\<bar> * area
      else if eChecksumType = ChecksumType_L2 then old + dValue * dValue * area
      else if \<bar>dValue\<bar> > old then \<bar>dValue\<bar> else old)"

text \<open>The four nested loops over the variables, the levels and the interior nodes.\<close>

definition accumulate ::
  "ChecksumType \<Rightarrow> (nat \<Rightarrow> int \<Rightarrow> int \<Rightarrow> int \<Rightarrow> real) \<Rightarrow> (int \<Rightarrow> int \<Rightarrow> int \<Rightarrow> real) \<Rightarrow>
   nat list \<Rightarrow> int list \<Rightarrow> int list \<Rightarrow> int list \<Rightarrow> real list \<Rightarrow> real list" where
  "accumulate eChecksumType dat area vars ks is js dChecksums =
     fold (\<lambda>c. fold (\<lambda>k. fold (\<lambda>i. fold (\<lambda>j cs.
        cs[c := checksum_update eChecksumType (cs ! c) (dat c k i j) (area k i j)]) js) is) ks)
       vars dChecksums"

definition GridPatch_Checksum ::
  "Grid \<Rightarrow> GridPatch \<Rightarrow> DataType \<Rightarrow> real list \<Rightarrow> int \<Rightarrow> ChecksumType \<Rightarrow> error + real list" where
  "GridPatch_Checksum G P eDataType dChecksums iDataIndex eChecksumType =
     (if \<not> m_fContainsData P then Inl (Exception ''Checksum called on uninitialized GridPatch'')
      else
        bindE
          (if eDataType = DataType_State then
             bindE (vec_at (m_datavecStateNode P) iDataIndex) (\<lambda>pDataNode.
             bindE (vec_at (m_datavecStateREdge P) iDataIndex) (\<lambda>pDataREdge.
             bindE (classify_vars (m_vecVarLocation G) [0..<nat (GetComponents (m_model G))])
               (\<lambda>(nodevars, redgevars).
             if int (length dChecksums) < GetComponents (m_model G)
             then Inl (Exception ''Invalid Checksum count'')
             else Inr (pDataNode, pDataREdge, nodevars, redgevars))))
           else if eDataType = DataType_Tracers then
             bindE (vec_at (m_datavecTracers P) iDataIndex) (\<lambda>pDataNode.
             if int (length dChecksums) < GetTracers (m_model G)
             then Inl (Exception ''Invalid Checksum count'')
             else Inr (pDataNode, unallocated, [0..<nat (GetTracers (m_model G))], []))
           else Inl (Exception ''Invalid DataType.''))
          (\<lambda>(pDataNode, pDataREdge, nodevars, redgevars).
             if eChecksumType = ChecksumType_Sum \<or> eChecksumType = ChecksumType_L1 \<or>
                eChecksumType = ChecksumType_L2 \<or> eChecksumType = ChecksumType_Linf
             then Inr
               (accumulate eChecksumType (values4 pDataREdge) (m_dataElementAreaREdge P) redgevars
                  [0 .. m_nRElements G]
                  [GetAInteriorBegin (m_box P) .. GetAInteriorEnd (m_box P) - 1]
                  [GetBInteriorBegin (m_box P) .. GetBInteriorEnd (m_box P) - 1]
               (accumulate eChecksumType (values4 pDataNode) (m_dataElementArea P) nodevars
                  [0 .. m_nRElements G - 1]
                  [GetAInteriorBegin (m_box P) .. GetAInteriorEnd (m_box P) - 1]
                  [GetBInteriorBegin (m_box P) .. GetBInteriorEnd (m_box P) - 1]
                  dChecksums))
             else Inl (Exception ''Invalid DataType in Checksum: Expected State or Tracers'')))"

text \<open>
  \<open>Grid::Checksum\<close> on one process up to the reduction: the local checksums, or nothing
  when the function has returned early. \<open>DataVector::Initialize\<close> gives an array of
  zeros. The loop runs over the active patches.
\<close>

fun checksum_patches ::
  "Grid \<Rightarrow> DataType \<Rightarrow> int \<Rightarrow> ChecksumType \<Rightarrow> nat list \<Rightarrow> real list \<Rightarrow> error + real list" where
  "checksum_patches G eDataType iDataIndex eChecksumType [] dChecksumsLocal = Inr dChecksumsLocal"
| "checksum_patches G eDataType iDataIndex eChecksumType (n # ns) dChecksumsLocal =
     bindE (vec_at (m_vecGridPatches G) (int n)) (\<lambda>P.
     bindE (GridPatch_Checksum G P eDataType dChecksumsLocal iDataIndex eChecksumType) (\<lambda>cs.
     checksum_patches G eDataType iDataIndex eChecksumType ns cs))"

definition Checksum_local ::
  "Grid \<Rightarrow> DataType \<Rightarrow> int \<Rightarrow> ChecksumType \<Rightarrow> error + real list option" where
  "Checksum_local G eDataType iDataIndex eChecksumType =
     (if eDataType = DataType_State then
        bindE (checksum_patches G eDataType iDataIndex eChecksumType
                 (m_vecActiveGridPatches G) (replicate (nat (GetComponents (m_model G))) 0))
          (\<lambda>cs. Inr (Some cs))
      else if eDataType = DataType_Tracers then
        (if GetTracers (m_model G) = 0 then Inr None
         else bindE (checksum_patches G eDataType iDataIndex eChecksumType
                 (m_vecActiveGridPatches G) (replicate (nat (GetTracers (m_model G))) 0))
          (\<lambda>cs. Inr (Some cs)))
      else Inl (Exception ''Invalid DataType''))"

text \<open>
  \<open>MPI_Reduce\<close> to the root with \<open>MPI_SUM\<close> or \<open>MPI_MAX\<close>: the vectors of the processes,
  in rank order, combined element by element.
\<close>

fun reduce_vec :: "(real \<Rightarrow> real \<Rightarrow> real) \<Rightarrow> real list list \<Rightarrow> real list" where
  "reduce_vec f [] = []"
| "reduce_vec f (v # vs) = fold (\<lambda>w acc. map2 f acc w) vs v"

fun collect_locals :: "(error + 'a) list \<Rightarrow> error + 'a list" where
  "collect_locals [] = Inr []"
| "collect_locals (r # rs) = bindE r (\<lambda>x. bindE (collect_locals rs) (\<lambda>xs. Inr (x # xs)))"

text \<open>
  \<open>Grid::Checksum\<close> as the collective call it is: \<open>procs\<close> holds the grid of each process,
  by rank, and \<open>outs\<close> the \<open>dChecksums\<close> argument of each; the result is \<open>dChecksums\<close> on
  each process after the call. When every process has returned early nothing is reduced;
  when only some have, the reduction never completes.
\<close>

definition Grid_Checksum ::
  "Grid list \<Rightarrow> real list list \<Rightarrow> DataType \<Rightarrow> int \<Rightarrow> ChecksumType \<Rightarrow> error + real list list" where
  "Grid_Checksum procs outs eDataType iDataIndex eChecksumType =
     bindE (collect_locals
              (map (\<lambda>G. Checksum_local G eDataType iDataIndex eChecksumType) procs)) (\<lambda>locals.
       if list_all (\<lambda>l. l = None) locals then Inr outs
       else
         (case those locals of
            None \<Rightarrow> Inl Blocked
          | Some vs \<Rightarrow>
              (let reduced = reduce_vec (if eChecksumType = ChecksumType_Linf then max else (+)) vs
               in Inr (outs[0 := (if eChecksumType = ChecksumType_L2
                                  then map sqrt reduced else reduced)]))))"

text \<open>
  The checksum as the spec words it. \<open>patch_values\<close> lists, for one component of one
  patch, the value and the element area at every level and interior node: on levels with
  the nodal areas, or on interfaces with the interface areas for a State component
  located on interfaces. \<open>all_values\<close> gathers them over the active patches of a process.
  \<open>local_checksum\<close> is the area-weighted accumulation of one process and
  \<open>global_checksum\<close> the value at the root from the local values of all processes.
\<close>

definition patch_values :: "Grid \<Rightarrow> GridPatch \<Rightarrow> DataType \<Rightarrow> int \<Rightarrow> nat \<Rightarrow> (real \<times> real) list" where
  "patch_values G P eDataType iDataIndex c =
     (if eDataType = DataType_State \<and> m_vecVarLocation G ! c = DataLocation_REdge then
        [(values4 (m_datavecStateREdge P ! nat iDataIndex) c k i j, m_dataElementAreaREdge P k i j).
           k \<leftarrow> [0 .. m_nRElements G],
           i \<leftarrow> [GetAInteriorBegin (m_box P) .. GetAInteriorEnd (m_box P) - 1],
           j \<leftarrow> [GetBInteriorBegin (m_box P) .. GetBInteriorEnd (m_box P) - 1]]
      else
        [(values4 ((if eDataType = DataType_State then m_datavecStateNode P
                    else m_datavecTracers P) ! nat iDataIndex) c k i j,
          m_dataElementArea P k i j).
           k \<leftarrow> [0 .. m_nRElements G - 1],
           i \<leftarrow> [GetAInteriorBegin (m_box P) .. GetAInteriorEnd (m_box P) - 1],
           j \<leftarrow> [GetBInteriorBegin (m_box P) .. GetBInteriorEnd (m_box P) - 1]])"

definition all_values :: "Grid \<Rightarrow> DataType \<Rightarrow> int \<Rightarrow> nat \<Rightarrow> (real \<times> real) list" where
  "all_values G eDataType iDataIndex c =
     concat (map (\<lambda>n. patch_values G (m_vecGridPatches G ! n) eDataType iDataIndex c)
               (m_vecActiveGridPatches G))"

definition local_checksum :: "ChecksumType \<Rightarrow> (real \<times> real) list \<Rightarrow> real" where
  "local_checksum eChecksumType vals =
     (if eChecksumType = ChecksumType_Sum then (\<Sum>(v, a) \<leftarrow> vals. v * a)
      else if eChecksumType = ChecksumType_L1 then (\<Sum>(v, a) \<leftarrow> vals. \<bar>v\<bar> * a)
      else if eChecksumType = ChecksumType_L2 then (\<Sum>(v, a) \<leftarrow> vals. v * v * a)
      else Max (insert 0 (set (map (\<lambda>(v, a). \<bar>v\<bar>) vals))))"

definition global_checksum :: "ChecksumType \<Rightarrow> real list \<Rightarrow> real" where
  "global_checksum eChecksumType locals =
     (if eChecksumType = ChecksumType_Linf then Max (set locals)
      else if eChecksumType = ChecksumType_L2 then sqrt (sum_list locals)
      else sum_list locals)"

text \<open>
  The number of entries of the checksum array, and the four checksum types the patch
  loops know.
\<close>

definition num_vars :: "Grid \<Rightarrow> DataType \<Rightarrow> nat" where
  "num_vars G eDataType =
     nat (if eDataType = DataType_State then GetComponents (m_model G)
          else GetTracers (m_model G))"

definition valid_checksum_type :: "ChecksumType \<Rightarrow> bool" where
  "valid_checksum_type t =
     (t = ChecksumType_Sum \<or> t = ChecksumType_L1 \<or> t = ChecksumType_L2 \<or> t = ChecksumType_Linf)"


text \<open>
  For the examples: the small grid on two processes, each owning one of the two patches;
  the state of patch \<open>k\<close> is the constant \<open>3 + k\<close> on levels and 0 on interfaces, and every
  element area is 2.
\<close>

definition filled_patch :: "int \<Rightarrow> GridPatch" where
  "filled_patch k =
     (small_patch k)\<lparr>m_fContainsData := True,
        m_datavecStateNode := [\<lparr>IsInitialized = True, values4 = (\<lambda>c l i j. 3 + real_of_int k)\<rparr>],
        m_datavecStateREdge := [allocated4],
        m_dataElementArea := (\<lambda>l i j. 2),
        m_dataElementAreaREdge := (\<lambda>l i j. 2)\<rparr>"

definition checksum_grid :: "nat \<Rightarrow> Grid" where
  "checksum_grid r =
     small_grid\<lparr>m_vecGridPatches := [filled_patch 0, filled_patch 1],
                m_vecActiveGridPatches := [r]\<rparr>"

section \<open>Grid::AddPatch: patch indices and the cumulative node index\<close>

lemma GetTotalNodeCount_frame:
  "m_nRElements G' = m_nRElements G \<Longrightarrow> m_box P' = m_box P \<Longrightarrow>
   GetTotalNodeCount G' P' loc = GetTotalNodeCount G P loc"
  by (simp add: GetTotalNodeCount_def)

lemma GetTotalNodeCount_ok:
  "loc = DataLocation_Node \<or> loc = DataLocation_REdge \<Longrightarrow>
   \<exists>n. GetTotalNodeCount G P loc = Inr n"
  by (auto simp: GetTotalNodeCount_def)

lemma wrap_int_id: "- 2147483648 \<le> x \<Longrightarrow> x \<le> 2147483647 \<Longrightarrow> wrap_int x = x"
  by (simp add: wrap_int_def)

lemma AddPatch_first:
  assumes "m_vecGridPatches G = []" "m_vecCumulativePatch2DNodeIndex G = []"
    and "GetTotalNodeCount G p loc = Inr n"
  shows "AddPatch loc G p =
     Inr (G\<lparr>m_vecGridPatches := [p\<lparr>m_ixPatch := 0\<rparr>],
            m_vecCumulativePatch2DNodeIndex := [0, wrap_int (0 + n)]\<rparr>)"
proof -
  have "GetTotalNodeCount (G\<lparr>m_vecGridPatches := [p\<lparr>m_ixPatch := 0\<rparr>],
            m_vecCumulativePatch2DNodeIndex := [0]\<rparr>) (p\<lparr>m_ixPatch := 0\<rparr>) loc = Inr n"
    unfolding assms(3) [symmetric] by (rule GetTotalNodeCount_frame) simp_all
  then show ?thesis
    using assms(1,2) by (simp add: AddPatch_def Let_def bindE_def vec_at_def)
qed

lemma AddPatch_next:
  assumes "m_vecGridPatches G \<noteq> []"
    and "length (m_vecCumulativePatch2DNodeIndex G) = length (m_vecGridPatches G) + 1"
    and "GetTotalNodeCount G p loc = Inr n"
  shows "AddPatch loc G p =
     Inr (G\<lparr>m_vecGridPatches :=
               m_vecGridPatches G @ [p\<lparr>m_ixPatch := int (length (m_vecGridPatches G))\<rparr>],
            m_vecCumulativePatch2DNodeIndex :=
               m_vecCumulativePatch2DNodeIndex G @
                 [wrap_int (last (m_vecCumulativePatch2DNodeIndex G) + n)]\<rparr>)"
proof -
  let ?P = "p\<lparr>m_ixPatch := int (length (m_vecGridPatches G))\<rparr>"
  let ?G1 = "G\<lparr>m_vecGridPatches := m_vecGridPatches G @ [?P]\<rparr>"
  have c: "GetTotalNodeCount ?G1 ?P loc = Inr n"
    unfolding assms(3) [symmetric] by (rule GetTotalNodeCount_frame) simp_all
  have ne: "m_vecCumulativePatch2DNodeIndex G \<noteq> []" using assms(2) by auto
  have l: "m_vecCumulativePatch2DNodeIndex G ! length (m_vecGridPatches G)
           = last (m_vecCumulativePatch2DNodeIndex G)"
    using assms(2) ne by (simp add: last_conv_nth)
  show ?thesis
    using assms(1,2) c l by (simp add: AddPatch_def Let_def bindE_def vec_at_def)
qed

lemma cum_inv_first:
  assumes "m_nRElements G' = m_nRElements G" "GetTotalNodeCount G p loc = Inr n"
    and "m_vecGridPatches G' = [p\<lparr>m_ixPatch := 0\<rparr>]"
    and "m_vecCumulativePatch2DNodeIndex G' = [0, wrap_int (0 + n)]"
  shows "cum_inv loc G'"
proof -
  have "GetTotalNodeCount G' (p\<lparr>m_ixPatch := 0\<rparr>) loc = Inr n"
    unfolding assms(2) [symmetric] by (rule GetTotalNodeCount_frame) (simp_all add: assms(1))
  then show ?thesis by (simp add: cum_inv_def assms(3,4))
qed

lemma cum_inv_next:
  assumes inv: "cum_inv loc G" and ne: "m_vecGridPatches G \<noteq> []"
    and r: "m_nRElements G' = m_nRElements G" and c: "GetTotalNodeCount G p loc = Inr n"
    and ps: "m_vecGridPatches G' =
       m_vecGridPatches G @ [p\<lparr>m_ixPatch := int (length (m_vecGridPatches G))\<rparr>]"
    and cs: "m_vecCumulativePatch2DNodeIndex G' =
       m_vecCumulativePatch2DNodeIndex G @
         [wrap_int (last (m_vecCumulativePatch2DNodeIndex G) + n)]"
  shows "cum_inv loc G'"
proof -
  let ?ps = "m_vecGridPatches G" and ?cum = "m_vecCumulativePatch2DNodeIndex G"
  have len: "length ?cum = length ?ps + 1" and z: "?cum ! 0 = 0"
    and old: "\<And>k. k < length ?ps \<Longrightarrow> m_ixPatch (?ps ! k) = int k \<and>
            (\<exists>m. GetTotalNodeCount G (?ps ! k) loc = Inr m \<and>
                 ?cum ! (k + 1) = wrap_int (?cum ! k + m))"
    using inv by (simp_all add: cum_inv_def Let_def)
  have lst: "last ?cum = ?cum ! length ?ps"
    using len by (metis add_diff_cancel_right' last_conv_nth length_0_conv add_is_0 zero_neq_one)
  have "m_ixPatch (m_vecGridPatches G' ! k) = int k \<and>
        (\<exists>m. GetTotalNodeCount G' (m_vecGridPatches G' ! k) loc = Inr m \<and>
          m_vecCumulativePatch2DNodeIndex G' ! (k + 1) =
            wrap_int (m_vecCumulativePatch2DNodeIndex G' ! k + m))"
    if k: "k < length (m_vecGridPatches G')" for k
  proof (cases "k < length ?ps")
    case True
    have "GetTotalNodeCount G' (?ps ! k) loc = GetTotalNodeCount G (?ps ! k) loc"
      by (rule GetTotalNodeCount_frame) (simp_all add: r)
    then show ?thesis using True old [OF True] len by (simp add: ps cs nth_append)
  next
    case False
    then have kk: "k = length ?ps" using k by (simp add: ps)
    have "GetTotalNodeCount G' (p\<lparr>m_ixPatch := int (length ?ps)\<rparr>) loc = Inr n"
      unfolding c [symmetric] by (rule GetTotalNodeCount_frame) (simp_all add: r)
    then show ?thesis using len lst by (simp add: kk ps cs nth_append)
  qed
  moreover have "length (m_vecCumulativePatch2DNodeIndex G') = length (m_vecGridPatches G') + 1"
    using len by (simp add: ps cs)
  moreover have "m_vecCumulativePatch2DNodeIndex G' ! 0 = 0"
    using len z by (simp add: cs nth_append)
  ultimately show ?thesis by (simp add: cum_inv_def Let_def)
qed

lemma AddPatches_inv:
  assumes "loc = DataLocation_Node \<or> loc = DataLocation_REdge"
    and "cum_inv loc G" and "m_vecGridPatches G \<noteq> []"
  shows "\<exists>G'. AddPatches loc G ps = Inr G' \<and> cum_inv loc G' \<and>
           m_nRElements G' = m_nRElements G \<and>
           map m_box (m_vecGridPatches G') = map m_box (m_vecGridPatches G) @ map m_box ps"
  using assms(2,3)
proof (induction ps arbitrary: G)
  case Nil
  then show ?case by simp
next
  case (Cons p ps)
  obtain n where n: "GetTotalNodeCount G p loc = Inr n"
    using GetTotalNodeCount_ok [OF assms(1)] by blast
  let ?G1 = "G\<lparr>m_vecGridPatches :=
               m_vecGridPatches G @ [p\<lparr>m_ixPatch := int (length (m_vecGridPatches G))\<rparr>],
            m_vecCumulativePatch2DNodeIndex :=
               m_vecCumulativePatch2DNodeIndex G @
                 [wrap_int (last (m_vecCumulativePatch2DNodeIndex G) + n)]\<rparr>"
  have len: "length (m_vecCumulativePatch2DNodeIndex G) = length (m_vecGridPatches G) + 1"
    using Cons.prems(1) by (simp add: cum_inv_def Let_def)
  have step: "AddPatch loc G p = Inr ?G1"
    by (rule AddPatch_next [OF Cons.prems(2) len n])
  have inv1: "cum_inv loc ?G1"
    by (rule cum_inv_next [OF Cons.prems(1) Cons.prems(2) _ n]) simp_all
  have ne1: "m_vecGridPatches ?G1 \<noteq> []" by simp
  from Cons.IH [OF inv1 ne1] obtain G' where
    "AddPatches loc ?G1 ps = Inr G'" "cum_inv loc G'" "m_nRElements G' = m_nRElements ?G1"
    "map m_box (m_vecGridPatches G') = map m_box (m_vecGridPatches ?G1) @ map m_box ps"
    by blast
  then show ?case by (simp add: step bindE_def)
qed

lemma AddPatches_from_empty:
  assumes loc: "loc = DataLocation_Node \<or> loc = DataLocation_REdge" and ne: "ps \<noteq> []"
  shows "\<exists>G'. AddPatches loc (empty_grid model nR) ps = Inr G' \<and> cum_inv loc G' \<and>
           m_nRElements G' = nR \<and>
           map m_box (m_vecGridPatches G') = map m_box ps"
proof -
  obtain p qs where ps: "ps = p # qs" using ne by (cases ps) auto
  let ?G = "empty_grid model nR"
  obtain n where n: "GetTotalNodeCount ?G p loc = Inr n"
    using GetTotalNodeCount_ok [OF loc] by blast
  let ?G1 = "?G\<lparr>m_vecGridPatches := [p\<lparr>m_ixPatch := 0\<rparr>],
            m_vecCumulativePatch2DNodeIndex := [0, wrap_int (0 + n)]\<rparr>"
  have step: "AddPatch loc ?G p = Inr ?G1"
    by (rule AddPatch_first [OF _ _ n]) (simp_all add: empty_grid_def)
  have inv1: "cum_inv loc ?G1"
    by (rule cum_inv_first [OF _ n]) simp_all
  have ne1: "m_vecGridPatches ?G1 \<noteq> []" by simp
  from AddPatches_inv [OF loc inv1 ne1, of qs] obtain G' where
    "AddPatches loc ?G1 qs = Inr G'" "cum_inv loc G'" "m_nRElements G' = m_nRElements ?G1"
    "map m_box (m_vecGridPatches G') = map m_box (m_vecGridPatches ?G1) @ map m_box qs"
    by blast
  moreover have "m_nRElements ?G1 = nR" by (simp add: empty_grid_def)
  ultimately show ?thesis by (simp add: ps step bindE_def)
qed

lemma sum_node_counts_inv:
  assumes inv: "cum_inv loc G"
  shows "j \<le> length (m_vecGridPatches G) \<Longrightarrow>
     sum_node_counts loc G (drop j (m_vecGridPatches G)) (m_vecCumulativePatch2DNodeIndex G ! j) =
       Inr (m_vecCumulativePatch2DNodeIndex G ! length (m_vecGridPatches G))"
proof (induction "length (m_vecGridPatches G) - j" arbitrary: j)
  case 0
  then show ?case by simp
next
  case (Suc d)
  let ?ps = "m_vecGridPatches G" and ?cum = "m_vecCumulativePatch2DNodeIndex G"
  have j: "j < length ?ps" using Suc.hyps(2) by simp
  obtain n where c: "GetTotalNodeCount G (?ps ! j) loc = Inr n"
    and nx: "?cum ! (j + 1) = wrap_int (?cum ! j + n)"
    using inv j by (auto simp: cum_inv_def Let_def)
  have d: "d = length ?ps - Suc j" using Suc.hyps(2) by simp
  have "sum_node_counts loc G (drop (Suc j) ?ps) (?cum ! Suc j) = Inr (?cum ! length ?ps)"
    using Suc.hyps(1) [OF d] j by simp
  then show ?case
    using c nx by (simp add: Cons_nth_drop_Suc [OF j, symmetric] bindE_def)
qed

lemma node_counts_nth:
  assumes "k < length ps" and "GetTotalNodeCount G (ps ! k) loc = Inr n"
  shows "node_counts loc G ps ! k = n"
  using assms by (simp add: node_counts_def)

lemma sum_list_take_le:
  fixes xs :: "int list"
  assumes "\<forall>x\<in>set xs. 0 \<le> x"
  shows "0 \<le> sum_list (take k xs) \<and> sum_list (take k xs) \<le> sum_list xs"
proof -
  have "sum_list xs = sum_list (take k xs) + sum_list (drop k xs)"
    by (metis append_take_drop_id sum_list_append)
  moreover have "0 \<le> sum_list (drop k xs)"
    using assms by (intro sum_list_nonneg) (auto dest: in_set_dropD)
  moreover have "0 \<le> sum_list (take k xs)"
    using assms by (intro sum_list_nonneg) (auto dest: in_set_takeD)
  ultimately show ?thesis by simp
qed

lemma cum_exact:
  assumes inv: "cum_inv loc G"
    and nn: "\<forall>n\<in>set (node_counts loc G (m_vecGridPatches G)). 0 \<le> n"
    and bound: "sum_list (node_counts loc G (m_vecGridPatches G)) \<le> INT_MAX"
  shows "k \<le> length (m_vecGridPatches G) \<Longrightarrow>
     m_vecCumulativePatch2DNodeIndex G ! k =
       sum_list (take k (node_counts loc G (m_vecGridPatches G)))"
proof (induction k)
  case 0
  then show ?case using inv by (simp add: cum_inv_def Let_def)
next
  case (Suc k)
  let ?ps = "m_vecGridPatches G" and ?cum = "m_vecCumulativePatch2DNodeIndex G"
  let ?cs = "node_counts loc G ?ps"
  have k: "k < length ?ps" using Suc.prems by simp
  obtain n where c: "GetTotalNodeCount G (?ps ! k) loc = Inr n"
    and nx: "?cum ! (k + 1) = wrap_int (?cum ! k + n)"
    using inv k by (auto simp: cum_inv_def Let_def)
  have n: "?cs ! k = n" by (rule node_counts_nth [OF k c])
  have lk: "k < length ?cs" using k by (simp add: node_counts_def)
  have tk: "sum_list (take (Suc k) ?cs) = sum_list (take k ?cs) + n"
    using lk n by (simp add: take_Suc_conv_app_nth)
  have "?cum ! k = sum_list (take k ?cs)" using Suc.IH k by simp
  then have e: "?cum ! k + n = sum_list (take (Suc k) ?cs)" using tk by simp
  have "0 \<le> sum_list (take (Suc k) ?cs) \<and> sum_list (take (Suc k) ?cs) \<le> sum_list ?cs"
    by (rule sum_list_take_le [OF nn])
  then have "wrap_int (?cum ! k + n) = ?cum ! k + n"
    using bound e by (intro wrap_int_id) (simp_all add: INT_MAX_def)
  then show ?case using nx e by simp
qed

lemma node_counts_frame:
  assumes "m_nRElements G' = m_nRElements G" and "map m_box qs = map m_box ps"
  shows "node_counts loc G' qs = node_counts loc G ps"
proof -
  have len: "length qs = length ps" using assms(2) by (metis length_map)
  have "node_counts loc G' qs ! k = node_counts loc G ps ! k" if "k < length ps" for k
  proof -
    have "m_box (qs ! k) = m_box (ps ! k)" using assms(2) that len by (metis nth_map)
    then have "GetTotalNodeCount G' (qs ! k) loc = GetTotalNodeCount G (ps ! k) loc"
      by (intro GetTotalNodeCount_frame assms(1))
    then show ?thesis using that len by (simp add: node_counts_def)
  qed
  then show ?thesis using len by (intro nth_equalityI) (simp_all add: node_counts_def)
qed

text \<open>
  Claim C10, as the code has it. After one or more \<open>AddPatch\<close> calls on a grid that
  \<open>Grid::Grid\<close> left empty, every call has succeeded, the k-th added patch has index k
  (its position in \<open>m_vecGridPatches\<close>) and keeps its box, the cumulative index has
  one entry more than there are patches, starts at 0, every entry k+1 is entry k plus
  the node count \<open>GetTotalNodeCount\<close> of patch k as a 32-bit \<open>int\<close> adds them, and its
  last entry is what \<open>Grid::GetTotalNodeCount\<close> returns. When no patch has a negative
  node count and the node counts of all patches add up to at most \<open>INT_MAX\<close>, entry k+1
  minus entry k is exactly the node count of patch k, the last entry is the sum of all
  node counts, and the cumulative index is non-decreasing. Before the first call the
  cumulative index is empty, and beyond \<open>INT_MAX\<close> the sums wrap and the index decreases
  (see the counterexample below).
\<close>

theorem AddPatch_cumulative_index:
  assumes "ps \<noteq> []" and "loc = DataLocation_Node \<or> loc = DataLocation_REdge"
  shows "\<exists>G'. AddPatches loc (empty_grid model nR) ps = Inr G' \<and>
     length (m_vecGridPatches G') = length ps \<and>
     (\<forall>k<length ps. m_ixPatch (m_vecGridPatches G' ! k) = int k \<and>
                     m_box (m_vecGridPatches G' ! k) = m_box (ps ! k)) \<and>
     length (m_vecCumulativePatch2DNodeIndex G') = length ps + 1 \<and>
     m_vecCumulativePatch2DNodeIndex G' ! 0 = 0 \<and>
     (\<forall>k<length ps. \<exists>n. GetTotalNodeCount G' (m_vecGridPatches G' ! k) loc = Inr n \<and>
        m_vecCumulativePatch2DNodeIndex G' ! (k + 1) =
          wrap_int (m_vecCumulativePatch2DNodeIndex G' ! k + n)) \<and>
     Grid_GetTotalNodeCount loc G' = Inr (last (m_vecCumulativePatch2DNodeIndex G')) \<and>
     ((\<forall>n\<in>set (node_counts loc (empty_grid model nR) ps). 0 \<le> n) \<and>
      sum_list (node_counts loc (empty_grid model nR) ps) \<le> INT_MAX \<longrightarrow>
        (\<forall>k<length ps. GetTotalNodeCount G' (m_vecGridPatches G' ! k) loc =
           Inr (m_vecCumulativePatch2DNodeIndex G' ! (k + 1)
                - m_vecCumulativePatch2DNodeIndex G' ! k)) \<and>
        last (m_vecCumulativePatch2DNodeIndex G') =
          sum_list (node_counts loc (empty_grid model nR) ps) \<and>
        sorted (m_vecCumulativePatch2DNodeIndex G'))"
proof -
  from AddPatches_from_empty [OF assms(2,1)] obtain G' where
    run: "AddPatches loc (empty_grid model nR) ps = Inr G'" and inv: "cum_inv loc G'"
    and nR: "m_nRElements G' = nR"
    and boxes: "map m_box (m_vecGridPatches G') = map m_box ps"
    by blast
  let ?qs = "m_vecGridPatches G'" and ?cum = "m_vecCumulativePatch2DNodeIndex G'"
  let ?cs = "node_counts loc (empty_grid model nR) ps"
  have n: "length ?qs = length ps"
    using boxes by (metis length_map)
  have len: "length ?cum = length ps + 1" and z: "?cum ! 0 = 0"
    and each: "\<And>k. k < length ps \<Longrightarrow> m_ixPatch (?qs ! k) = int k \<and>
            (\<exists>m. GetTotalNodeCount G' (?qs ! k) loc = Inr m \<and>
                 ?cum ! (k + 1) = wrap_int (?cum ! k + m))"
    using inv n by (simp_all add: cum_inv_def Let_def)
  have bx: "m_box (?qs ! k) = m_box (ps ! k)" if "k < length ps" for k
    using boxes that n by (metis nth_map)
  have "sum_node_counts loc G' (drop 0 ?qs) (?cum ! 0) = Inr (?cum ! length ?qs)"
    by (rule sum_node_counts_inv [OF inv]) simp
  moreover have lst: "last ?cum = ?cum ! length ?qs"
    using len n by (metis add_diff_cancel_right' last_conv_nth length_0_conv add_is_0 zero_neq_one)
  ultimately have tot: "Grid_GetTotalNodeCount loc G' = Inr (last ?cum)"
    using z by (simp add: Grid_GetTotalNodeCount_def)
  have cs: "node_counts loc G' ?qs = ?cs"
    by (rule node_counts_frame) (simp_all add: nR boxes empty_grid_def)
  have lcs: "length ?cs = length ps" by (simp add: node_counts_def)
  have exact: "(\<forall>k<length ps. GetTotalNodeCount G' (?qs ! k) loc =
                   Inr (?cum ! (k + 1) - ?cum ! k)) \<and>
               last ?cum = sum_list ?cs \<and> sorted ?cum"
    if nn: "\<forall>n\<in>set ?cs. 0 \<le> n" and bound: "sum_list ?cs \<le> INT_MAX"
  proof -
    have ex: "?cum ! k = sum_list (take k ?cs)" if "k \<le> length ps" for k
      using cum_exact [OF inv, of k] nn bound that n by (simp add: cs)
    have d: "GetTotalNodeCount G' (?qs ! k) loc = Inr (?cum ! (k + 1) - ?cum ! k) \<and>
             ?cum ! k \<le> ?cum ! (k + 1)" if k: "k < length ps" for k
    proof -
      obtain m where c: "GetTotalNodeCount G' (?qs ! k) loc = Inr m"
        using each [OF k] by blast
      have "k < length ?qs" using k n by simp
      then have m: "?cs ! k = m"
        using node_counts_nth [OF _ c] by (simp add: cs)
      have "?cum ! (k + 1) = sum_list (take k ?cs) + m"
        using ex [of "k + 1"] k lcs m by (simp add: take_Suc_conv_app_nth)
      moreover have "?cum ! k = sum_list (take k ?cs)" using ex [of k] k by simp
      moreover have "0 \<le> m" using nn m k lcs by (metis nth_mem)
      ultimately show ?thesis using c by simp
    qed
    have "last ?cum = sum_list ?cs"
      using ex [of "length ps"] lst n lcs by simp
    moreover have "sorted ?cum"
      unfolding sorted_iff_nth_Suc using d len by auto
    ultimately show ?thesis using d by blast
  qed
  show ?thesis
    using run n len z each bx tot exact by blast
qed

text \<open>
  Two patches of 36 and 64 nodes on three levels: the counts are 108 and 192, and the
  index is 0, 108, 300.
\<close>

theorem AddPatch_cumulative_index_witness:
  "[GridPatch_new 7 (PatchBox_new 0 0 2 0 2 0 2), GridPatch_new 9 (PatchBox_new 1 0 2 0 4 0 4)] \<noteq> []
   \<and> (DataLocation_Node = DataLocation_Node \<or> DataLocation_Node = DataLocation_REdge)
   \<and> node_counts DataLocation_Node (empty_grid example_model 3)
       [GridPatch_new 7 (PatchBox_new 0 0 2 0 2 0 2),
        GridPatch_new 9 (PatchBox_new 1 0 2 0 4 0 4)] = [108, 192]
   \<and> sum_list [108, 192] \<le> INT_MAX
   \<and> (\<exists>G'. AddPatches DataLocation_Node (empty_grid example_model 3)
           [GridPatch_new 7 (PatchBox_new 0 0 2 0 2 0 2),
            GridPatch_new 9 (PatchBox_new 1 0 2 0 4 0 4)] = Inr G'
         \<and> map m_ixPatch (m_vecGridPatches G') = [0, 1]
         \<and> m_vecCumulativePatch2DNodeIndex G' = [0, 108, 300]
         \<and> Grid_GetTotalNodeCount DataLocation_Node G' = Inr 300
         \<and> sorted (m_vecCumulativePatch2DNodeIndex G'))"
proof -
  let ?ps = "[GridPatch_new 7 (PatchBox_new 0 0 2 0 2 0 2),
              GridPatch_new 9 (PatchBox_new 1 0 2 0 4 0 4)]"
  have cs: "node_counts DataLocation_Node (empty_grid example_model 3) ?ps = [108, 192]"
    by (simp add: node_counts_def GetTotalNodeCount_def wrap_int_def
        empty_grid_def GridPatch_new_def PatchBox_new_def)
  have e: "AddPatches DataLocation_Node (empty_grid example_model 3) ?ps =
     Inr ((empty_grid example_model 3)\<lparr>m_vecGridPatches :=
            [(GridPatch_new 7 (PatchBox_new 0 0 2 0 2 0 2))\<lparr>m_ixPatch := 0\<rparr>,
             (GridPatch_new 9 (PatchBox_new 1 0 2 0 4 0 4))\<lparr>m_ixPatch := 1\<rparr>],
          m_vecCumulativePatch2DNodeIndex := [0, 108, 300]\<rparr>)"
    by (simp add: AddPatch_def Let_def bindE_def vec_at_def GetTotalNodeCount_def wrap_int_def
        empty_grid_def GridPatch_new_def PatchBox_new_def)
  from AddPatch_cumulative_index [of ?ps DataLocation_Node example_model 3]
  obtain G' where
    "AddPatches DataLocation_Node (empty_grid example_model 3) ?ps = Inr G'"
    "Grid_GetTotalNodeCount DataLocation_Node G' = Inr (last (m_vecCumulativePatch2DNodeIndex G'))"
    "sorted (m_vecCumulativePatch2DNodeIndex G')"
    by (auto simp: cs INT_MAX_def)
  then show ?thesis
    using e cs by (simp add: INT_MAX_def)
qed

text \<open>
  Three sequences of calls for which the claim as it was made fails. With no call the
  grid has no patch and the cumulative index has no entry at all, so its length is not
  the patch count plus one and it has no entry 0. With two patches of 16032016 nodes on
  100 levels each node count is 1603201600 and their sum 3206403200 is above
  \<open>INT_MAX\<close>: the last entry wraps to -1088564096, the index decreases, and entry 2
  minus entry 1 is not the node count of patch 1. With one such patch on 140 levels the
  node count itself wraps: \<open>GetTotalNodeCount\<close> returns -2050485056 and the index
  decreases from 0.
\<close>

theorem AddPatch_cumulative_index_counterexample:
  "AddPatches DataLocation_Node (empty_grid example_model 3) [] = Inr (empty_grid example_model 3)
   \<and> length (m_vecGridPatches (empty_grid example_model 3)) = 0
   \<and> length (m_vecCumulativePatch2DNodeIndex (empty_grid example_model 3)) \<noteq>
       length (m_vecGridPatches (empty_grid example_model 3)) + 1
   \<and> vec_at (m_vecCumulativePatch2DNodeIndex (empty_grid example_model 3)) 0 = Inl UncheckedAccess
   \<and> (\<exists>G'. AddPatches DataLocation_Node (empty_grid example_model 100)
              [large_patch, large_patch] = Inr G'
         \<and> node_counts DataLocation_Node G' (m_vecGridPatches G') = [1603201600, 1603201600]
         \<and> m_vecCumulativePatch2DNodeIndex G' = [0, 1603201600, - 1088564096]
         \<and> m_vecCumulativePatch2DNodeIndex G' ! 2 - m_vecCumulativePatch2DNodeIndex G' ! 1
             \<noteq> 1603201600
         \<and> \<not> sorted (m_vecCumulativePatch2DNodeIndex G'))
   \<and> (\<exists>G'. AddPatches DataLocation_Node (empty_grid example_model 140) [large_patch] = Inr G'
         \<and> GetTotalNodeCount G' (m_vecGridPatches G' ! 0) DataLocation_Node
             = Inr (- 2050485056)
         \<and> m_vecCumulativePatch2DNodeIndex G' = [0, - 2050485056]
         \<and> \<not> sorted (m_vecCumulativePatch2DNodeIndex G'))"
proof -
  have a: "AddPatches DataLocation_Node (empty_grid example_model 100) [large_patch, large_patch] =
     Inr ((empty_grid example_model 100)\<lparr>m_vecGridPatches :=
            [large_patch\<lparr>m_ixPatch := 0\<rparr>, large_patch\<lparr>m_ixPatch := 1\<rparr>],
          m_vecCumulativePatch2DNodeIndex := [0, 1603201600, - 1088564096]\<rparr>)"
    by (simp add: AddPatch_def Let_def bindE_def vec_at_def GetTotalNodeCount_def wrap_int_def
        empty_grid_def large_patch_def GridPatch_new_def PatchBox_new_def)
  have b: "AddPatches DataLocation_Node (empty_grid example_model 140) [large_patch] =
     Inr ((empty_grid example_model 140)\<lparr>m_vecGridPatches := [large_patch\<lparr>m_ixPatch := 0\<rparr>],
          m_vecCumulativePatch2DNodeIndex := [0, - 2050485056]\<rparr>)"
    by (simp add: AddPatch_def Let_def bindE_def vec_at_def GetTotalNodeCount_def wrap_int_def
        empty_grid_def large_patch_def GridPatch_new_def PatchBox_new_def)
  show ?thesis
    unfolding a b
    by (simp add: empty_grid_def vec_at_def node_counts_def GetTotalNodeCount_def wrap_int_def
        large_patch_def GridPatch_new_def PatchBox_new_def)
qed

section \<open>Grid::DistributePatches: round-robin ownership\<close>

lemma smod_nonneg: "0 \<le> n \<Longrightarrow> 0 < m \<Longrightarrow> (n::int) smod m = n mod m"
  by (cases "n = 0") (simp_all add: signed_modulo_int_def)

lemma InitializeDataLocal_frame:
  "m_model G1 = m_model G \<Longrightarrow> InitializeDataLocal G1 r P = InitializeDataLocal G r P"
  by (simp add: InitializeDataLocal_def)

lemma InitializeDataLocal_fresh:
  "\<not> m_fContainsData P \<Longrightarrow> \<exists>P'. InitializeDataLocal G r P = Inr P'"
  by (simp add: InitializeDataLocal_def)

lemma InitializeDataRemote_fresh:
  "\<not> m_fContainsData P \<Longrightarrow> InitializeDataRemote q P = Inr (P\<lparr>m_iProcessor := q\<rparr>)"
  by (simp add: InitializeDataRemote_def bindE_def)

lemma DistributePatches_loop_done:
  "\<not> n < int (length (m_vecGridPatches G)) \<Longrightarrow> DistributePatches_loop nSize nRank n G = Inr G"
  by (subst DistributePatches_loop.simps) simp

lemma DistributePatches_loop_local:
  assumes "n < int (length (m_vecGridPatches G))" "0 \<le> n" "0 < nSize" "n mod nSize = nRank"
    and "InitializeDataLocal G nRank (m_vecGridPatches G ! nat n) = Inr P"
  shows "DistributePatches_loop nSize nRank n G =
     DistributePatches_loop nSize nRank (n + 1)
       (G\<lparr>m_vecGridPatches := (m_vecGridPatches G)[nat n := P],
          m_vecActiveGridPatches := m_vecActiveGridPatches G @ [nat n]\<rparr>)"
  using assms
  by (subst DistributePatches_loop.simps) (simp add: smod_nonneg bindE_def Let_def)

lemma DistributePatches_loop_remote:
  assumes "n < int (length (m_vecGridPatches G))" "0 \<le> n" "0 < nSize" "n mod nSize \<noteq> nRank"
    and "InitializeDataRemote (n mod nSize) (m_vecGridPatches G ! nat n) = Inr P"
  shows "DistributePatches_loop nSize nRank n G =
     DistributePatches_loop nSize nRank (n + 1)
       (G\<lparr>m_vecGridPatches := (m_vecGridPatches G)[nat n := P]\<rparr>)"
  using assms
  by (subst DistributePatches_loop.simps) (simp add: smod_nonneg bindE_def Let_def)

lemma assigned_frame:
  "m_model G1 = m_model G \<Longrightarrow> assigned G1 nSize nRank i P P' = assigned G nSize nRank i P P'"
  by (simp add: assigned_def InitializeDataLocal_def)

lemma DistributePatches_loop_char:
  assumes pos: "0 < nSize"
  shows "N = length (m_vecGridPatches G) \<Longrightarrow> n \<le> N \<Longrightarrow>
     (\<forall>i. n \<le> i \<and> i < N \<longrightarrow> \<not> m_fContainsData (m_vecGridPatches G ! i)) \<Longrightarrow>
     \<exists>G'. DistributePatches_loop nSize nRank (int n) G = Inr G' \<and>
       m_model G' = m_model G \<and>
       length (m_vecGridPatches G') = N \<and>
       (\<forall>i<n. m_vecGridPatches G' ! i = m_vecGridPatches G ! i) \<and>
       (\<forall>i. n \<le> i \<and> i < N \<longrightarrow>
          assigned G nSize nRank i (m_vecGridPatches G ! i) (m_vecGridPatches G' ! i)) \<and>
       m_vecActiveGridPatches G' =
         m_vecActiveGridPatches G @ filter (\<lambda>i. int i mod nSize = nRank) [n..<N]"
proof (induction "N - n" arbitrary: n G)
  case 0
  then have "n = N" by simp
  then show ?case using 0 by (auto simp: DistributePatches_loop_done)
next
  case (Suc d)
  let ?ps = "m_vecGridPatches G"
  have nN: "n < N" using Suc.hyps(2) by simp
  have lt: "int n < int (length ?ps)" using nN Suc.prems(1) by simp
  have fresh_n: "\<not> m_fContainsData (?ps ! n)" using Suc.prems(3) nN by simp
  have d: "d = N - Suc n" using Suc.hyps(2) by simp
  have up: "[n..<N] = n # [Suc n..<N]" using nN by (simp add: upt_conv_Cons)
  have Sn: "int (Suc n) = int n + 1" by simp
  have sn: "Suc n \<le> N" using nN by simp
  show ?case
  proof (cases "int n mod nSize = nRank")
    case True
    obtain P where P: "InitializeDataLocal G nRank (?ps ! n) = Inr P"
      using InitializeDataLocal_fresh [OF fresh_n] by blast
    let ?G1 = "G\<lparr>m_vecGridPatches := ?ps[n := P],
                  m_vecActiveGridPatches := m_vecActiveGridPatches G @ [n]\<rparr>"
    have step: "DistributePatches_loop nSize nRank (int n) G =
                DistributePatches_loop nSize nRank (int (Suc n)) ?G1"
    proof -
      have "InitializeDataLocal G nRank (?ps ! nat (int n)) = Inr P" using P by simp
      from DistributePatches_loop_local [OF lt _ pos True this] show ?thesis
        unfolding Sn by simp
    qed
    have N1: "N = length (m_vecGridPatches ?G1)" using Suc.prems(1) by simp
    have fresh1: "\<forall>i. Suc n \<le> i \<and> i < N \<longrightarrow> \<not> m_fContainsData (m_vecGridPatches ?G1 ! i)"
      using Suc.prems(3) by simp
    from Suc.hyps(1) [OF d N1 sn fresh1] obtain G' where
      run: "DistributePatches_loop nSize nRank (int (Suc n)) ?G1 = Inr G'"
      and mdl: "m_model G' = m_model ?G1"
      and len: "length (m_vecGridPatches G') = N"
      and low: "\<forall>i<Suc n. m_vecGridPatches G' ! i = m_vecGridPatches ?G1 ! i"
      and high: "\<forall>i. Suc n \<le> i \<and> i < N \<longrightarrow>
          assigned ?G1 nSize nRank i (m_vecGridPatches ?G1 ! i) (m_vecGridPatches G' ! i)"
      and act: "m_vecActiveGridPatches G' =
         m_vecActiveGridPatches ?G1 @ filter (\<lambda>i. int i mod nSize = nRank) [Suc n..<N]"
      by blast
    have a: "\<forall>i<n. m_vecGridPatches G' ! i = ?ps ! i" using low by simp
    have b: "assigned G nSize nRank i (?ps ! i) (m_vecGridPatches G' ! i)"
      if "n \<le> i \<and> i < N" for i
    proof (cases "i = n")
      case True
      have "m_vecGridPatches G' ! n = P" using low nN Suc.prems(1) by simp
      then show ?thesis using P \<open>int n mod nSize = nRank\<close> True by (simp add: assigned_def)
    next
      case False
      then have i: "Suc n \<le> i \<and> i < N" using that by simp
      have "assigned ?G1 nSize nRank i (m_vecGridPatches ?G1 ! i) (m_vecGridPatches G' ! i)"
        using high i by blast
      moreover have "m_vecGridPatches ?G1 ! i = ?ps ! i" using i by simp
      ultimately show ?thesis by (simp add: assigned_frame [of ?G1 G])
    qed
    have c: "m_vecActiveGridPatches G' =
         m_vecActiveGridPatches G @ filter (\<lambda>i. int i mod nSize = nRank) [n..<N]"
      using act True by (simp add: up)
    show ?thesis using run step mdl len a b c by simp
  next
    case False
    let ?P = "(?ps ! n)\<lparr>m_iProcessor := int n mod nSize\<rparr>"
    have P: "InitializeDataRemote (int n mod nSize) (?ps ! n) = Inr ?P"
      by (rule InitializeDataRemote_fresh [OF fresh_n])
    let ?G1 = "G\<lparr>m_vecGridPatches := ?ps[n := ?P]\<rparr>"
    have step: "DistributePatches_loop nSize nRank (int n) G =
                DistributePatches_loop nSize nRank (int (Suc n)) ?G1"
    proof -
      have "InitializeDataRemote (int n mod nSize) (?ps ! nat (int n)) = Inr ?P" using P by simp
      from DistributePatches_loop_remote [OF lt _ pos False this] show ?thesis
        unfolding Sn by simp
    qed
    have N1: "N = length (m_vecGridPatches ?G1)" using Suc.prems(1) by simp
    have fresh1: "\<forall>i. Suc n \<le> i \<and> i < N \<longrightarrow> \<not> m_fContainsData (m_vecGridPatches ?G1 ! i)"
      using Suc.prems(3) by simp
    from Suc.hyps(1) [OF d N1 sn fresh1] obtain G' where
      run: "DistributePatches_loop nSize nRank (int (Suc n)) ?G1 = Inr G'"
      and mdl: "m_model G' = m_model ?G1"
      and len: "length (m_vecGridPatches G') = N"
      and low: "\<forall>i<Suc n. m_vecGridPatches G' ! i = m_vecGridPatches ?G1 ! i"
      and high: "\<forall>i. Suc n \<le> i \<and> i < N \<longrightarrow>
          assigned ?G1 nSize nRank i (m_vecGridPatches ?G1 ! i) (m_vecGridPatches G' ! i)"
      and act: "m_vecActiveGridPatches G' =
         m_vecActiveGridPatches ?G1 @ filter (\<lambda>i. int i mod nSize = nRank) [Suc n..<N]"
      by blast
    have a: "\<forall>i<n. m_vecGridPatches G' ! i = ?ps ! i" using low by simp
    have b: "assigned G nSize nRank i (?ps ! i) (m_vecGridPatches G' ! i)"
      if "n \<le> i \<and> i < N" for i
    proof (cases "i = n")
      case True
      have "m_vecGridPatches G' ! n = ?P" using low nN Suc.prems(1) by simp
      then show ?thesis using \<open>int n mod nSize \<noteq> nRank\<close> True by (simp add: assigned_def)
    next
      case False
      then have i: "Suc n \<le> i \<and> i < N" using that by simp
      have "assigned ?G1 nSize nRank i (m_vecGridPatches ?G1 ! i) (m_vecGridPatches G' ! i)"
        using high i by blast
      moreover have "m_vecGridPatches ?G1 ! i = ?ps ! i" using i by simp
      ultimately show ?thesis by (simp add: assigned_frame [of ?G1 G])
    qed
    have c: "m_vecActiveGridPatches G' =
         m_vecActiveGridPatches G @ filter (\<lambda>i. int i mod nSize = nRank) [n..<N]"
      using act False by (simp add: up)
    show ?thesis using run step mdl len a b c by simp
  qed
qed

lemma round_robin_count:
  assumes "0 < nSize" "0 \<le> r" "r < nSize"
  shows "int (length (filter (\<lambda>i. int i mod nSize = r) [0..<N])) =
         int N div nSize + (if r < int N mod nSize then 1 else 0)"
proof (induction N)
  case 0
  then show ?case using assms by simp
next
  case (Suc N)
  let ?q = "int N div nSize" and ?m = "int N mod nSize"
  have m: "0 \<le> ?m" "?m < nSize" using assms(1) by simp_all
  have N: "int N = nSize * ?q + ?m" by simp
  show ?case
  proof (cases "?m + 1 < nSize")
    case True
    have e: "int (Suc N) = nSize * ?q + (?m + 1)" using N by simp
    have dq: "int (Suc N) div nSize = ?q"
      by (rule int_div_pos_eq [OF e]) (use m True in simp_all)
    have dm: "int (Suc N) mod nSize = ?m + 1"
      by (rule int_mod_pos_eq [OF e]) (use m True in simp_all)
    show ?thesis
      unfolding dq dm using Suc.IH m by auto
  next
    case False
    then have top: "?m = nSize - 1" using m by simp
    have e: "int (Suc N) = nSize * (?q + 1) + 0" using N top by (simp add: algebra_simps)
    have dq: "int (Suc N) div nSize = ?q + 1"
      by (rule int_div_pos_eq [OF e]) (use assms in simp_all)
    have dm: "int (Suc N) mod nSize = 0"
      by (rule int_mod_pos_eq [OF e]) (use assms in simp_all)
    show ?thesis
      unfolding dq dm using Suc.IH m top assms by auto
  qed
qed

lemma round_robin_balance:
  assumes "0 < nSize" "0 \<le> r1" "r1 < nSize" "0 \<le> r2" "r2 < nSize"
  shows "\<bar>int (length (filter (\<lambda>i. int i mod nSize = r1) [0..<N])) -
          int (length (filter (\<lambda>i. int i mod nSize = r2) [0..<N]))\<bar> \<le> 1"
  unfolding round_robin_count [OF assms(1,2,3)] round_robin_count [OF assms(1,4,5)]
  by simp

lemma InitializeDataLocal_result:
  assumes "InitializeDataLocal G r P = Inr P'"
  shows "m_fContainsData P' \<and> m_iProcessor P' = r \<and> m_box P' = m_box P \<and>
         m_ixPatch P' = m_ixPatch P \<and> m_connect P' = m_connect P \<and>
         IsInitialized (m_dataRefStateNode P') \<and>
         length (m_datavecStateNode P') = nat (GetComponentDataInstances (m_model G)) \<and>
         list_all IsInitialized (m_datavecStateNode P') \<and>
         length (m_datavecStateREdge P') = nat (GetComponentDataInstances (m_model G)) \<and>
         list_all IsInitialized (m_datavecStateREdge P') \<and>
         length (m_datavecTracers P') = nat (GetTracerDataInstances (m_model G)) \<and>
         list_all (\<lambda>d. IsInitialized d = (GetTracers (m_model G) \<noteq> 0)) (m_datavecTracers P')"
  using assms
  by (auto simp: InitializeDataLocal_def allocated4_def unallocated_def list_all_iff
           split: if_splits)

lemma DistributePatches_char:
  assumes pos: "0 < nSize"
    and fresh: "\<forall>p \<in> set (m_vecGridPatches G). \<not> m_fContainsData p"
    and act: "m_vecActiveGridPatches G = []"
  shows "\<exists>G'. DistributePatches G nSize nRank = Inr G' \<and>
       m_model G' = m_model G \<and>
       length (m_vecGridPatches G') = length (m_vecGridPatches G) \<and>
       (\<forall>i<length (m_vecGridPatches G).
          assigned G nSize nRank i (m_vecGridPatches G ! i) (m_vecGridPatches G' ! i)) \<and>
       m_vecActiveGridPatches G' =
         filter (\<lambda>i. int i mod nSize = nRank) [0..<length (m_vecGridPatches G)]"
proof -
  have f: "\<forall>i. 0 \<le> i \<and> i < length (m_vecGridPatches G) \<longrightarrow>
              \<not> m_fContainsData (m_vecGridPatches G ! i)"
    using fresh by simp
  from DistributePatches_loop_char [OF pos refl _ f, of nRank] obtain G' where
    "DistributePatches_loop nSize nRank (int 0) G = Inr G'"
    "m_model G' = m_model G"
    "length (m_vecGridPatches G') = length (m_vecGridPatches G)"
    "\<forall>i. 0 \<le> i \<and> i < length (m_vecGridPatches G) \<longrightarrow>
          assigned G nSize nRank i (m_vecGridPatches G ! i) (m_vecGridPatches G' ! i)"
    "m_vecActiveGridPatches G' = m_vecActiveGridPatches G @
         filter (\<lambda>i. int i mod nSize = nRank) [0..<length (m_vecGridPatches G)]"
    by blast
  then show ?thesis
    using act by (simp add: DistributePatches_def)
qed

lemma DistributePatches_per_rank:
  assumes pos: "0 < nSize"
    and fresh: "\<forall>p \<in> set (m_vecGridPatches G). \<not> m_fContainsData p"
    and act: "m_vecActiveGridPatches G = []"
  shows "\<exists>G'. DistributePatches G nSize nRank = Inr G' \<and>
       length (m_vecGridPatches G') = length (m_vecGridPatches G) \<and>
       m_vecActiveGridPatches G' =
         filter (\<lambda>i. int i mod nSize = nRank) [0..<length (m_vecGridPatches G)] \<and>
       (\<forall>i<length (m_vecGridPatches G).
          m_iProcessor (m_vecGridPatches G' ! i) = int i mod nSize \<and>
          m_fContainsData (m_vecGridPatches G' ! i) = (int i mod nSize = nRank) \<and>
          (i \<in> set (m_vecActiveGridPatches G')) = (int i mod nSize = nRank) \<and>
          m_ixPatch (m_vecGridPatches G' ! i) = m_ixPatch (m_vecGridPatches G ! i) \<and>
          m_box (m_vecGridPatches G' ! i) = m_box (m_vecGridPatches G ! i) \<and>
          (if int i mod nSize = nRank
           then InitializeDataLocal G nRank (m_vecGridPatches G ! i) = Inr (m_vecGridPatches G' ! i)
                \<and> IsInitialized (m_dataRefStateNode (m_vecGridPatches G' ! i))
                \<and> length (m_datavecStateNode (m_vecGridPatches G' ! i)) =
                    nat (GetComponentDataInstances (m_model G))
                \<and> list_all IsInitialized (m_datavecStateNode (m_vecGridPatches G' ! i))
                \<and> length (m_datavecStateREdge (m_vecGridPatches G' ! i)) =
                    nat (GetComponentDataInstances (m_model G))
                \<and> list_all IsInitialized (m_datavecStateREdge (m_vecGridPatches G' ! i))
                \<and> length (m_datavecTracers (m_vecGridPatches G' ! i)) =
                    nat (GetTracerDataInstances (m_model G))
                \<and> list_all (\<lambda>d. IsInitialized d = (GetTracers (m_model G) \<noteq> 0))
                      (m_datavecTracers (m_vecGridPatches G' ! i))
           else m_vecGridPatches G' ! i =
                  (m_vecGridPatches G ! i)\<lparr>m_iProcessor := int i mod nSize\<rparr>
                \<and> m_datavecStateNode (m_vecGridPatches G' ! i) =
                    m_datavecStateNode (m_vecGridPatches G ! i)
                \<and> m_datavecStateREdge (m_vecGridPatches G' ! i) =
                    m_datavecStateREdge (m_vecGridPatches G ! i)
                \<and> m_datavecTracers (m_vecGridPatches G' ! i) =
                    m_datavecTracers (m_vecGridPatches G ! i)
                \<and> m_dataRefStateNode (m_vecGridPatches G' ! i) =
                    m_dataRefStateNode (m_vecGridPatches G ! i)))"
proof -
  from DistributePatches_char [OF pos fresh act, of nRank] obtain G' where
    run: "DistributePatches G nSize nRank = Inr G'"
    and len: "length (m_vecGridPatches G') = length (m_vecGridPatches G)"
    and each: "\<forall>i<length (m_vecGridPatches G).
          assigned G nSize nRank i (m_vecGridPatches G ! i) (m_vecGridPatches G' ! i)"
    and active: "m_vecActiveGridPatches G' =
         filter (\<lambda>i. int i mod nSize = nRank) [0..<length (m_vecGridPatches G)]"
    by blast
  have "m_iProcessor (m_vecGridPatches G' ! i) = int i mod nSize \<and>
          m_fContainsData (m_vecGridPatches G' ! i) = (int i mod nSize = nRank) \<and>
          (i \<in> set (m_vecActiveGridPatches G')) = (int i mod nSize = nRank) \<and>
          m_ixPatch (m_vecGridPatches G' ! i) = m_ixPatch (m_vecGridPatches G ! i) \<and>
          m_box (m_vecGridPatches G' ! i) = m_box (m_vecGridPatches G ! i) \<and>
          (if int i mod nSize = nRank
           then InitializeDataLocal G nRank (m_vecGridPatches G ! i) = Inr (m_vecGridPatches G' ! i)
                \<and> IsInitialized (m_dataRefStateNode (m_vecGridPatches G' ! i))
                \<and> length (m_datavecStateNode (m_vecGridPatches G' ! i)) =
                    nat (GetComponentDataInstances (m_model G))
                \<and> list_all IsInitialized (m_datavecStateNode (m_vecGridPatches G' ! i))
                \<and> length (m_datavecStateREdge (m_vecGridPatches G' ! i)) =
                    nat (GetComponentDataInstances (m_model G))
                \<and> list_all IsInitialized (m_datavecStateREdge (m_vecGridPatches G' ! i))
                \<and> length (m_datavecTracers (m_vecGridPatches G' ! i)) =
                    nat (GetTracerDataInstances (m_model G))
                \<and> list_all (\<lambda>d. IsInitialized d = (GetTracers (m_model G) \<noteq> 0))
                      (m_datavecTracers (m_vecGridPatches G' ! i))
           else m_vecGridPatches G' ! i =
                  (m_vecGridPatches G ! i)\<lparr>m_iProcessor := int i mod nSize\<rparr>
                \<and> m_datavecStateNode (m_vecGridPatches G' ! i) =
                    m_datavecStateNode (m_vecGridPatches G ! i)
                \<and> m_datavecStateREdge (m_vecGridPatches G' ! i) =
                    m_datavecStateREdge (m_vecGridPatches G ! i)
                \<and> m_datavecTracers (m_vecGridPatches G' ! i) =
                    m_datavecTracers (m_vecGridPatches G ! i)
                \<and> m_dataRefStateNode (m_vecGridPatches G' ! i) =
                    m_dataRefStateNode (m_vecGridPatches G ! i))"
    if i: "i < length (m_vecGridPatches G)" for i
  proof (cases "int i mod nSize = nRank")
    case True
    have "InitializeDataLocal G nRank (m_vecGridPatches G ! i) = Inr (m_vecGridPatches G' ! i)"
      using each i True by (simp add: assigned_def)
    from InitializeDataLocal_result [OF this] this show ?thesis
      using True i by (simp add: active)
  next
    case False
    have "\<not> m_fContainsData (m_vecGridPatches G ! i)" using fresh i by simp
    moreover have "m_vecGridPatches G' ! i =
        (m_vecGridPatches G ! i)\<lparr>m_iProcessor := int i mod nSize\<rparr>"
      using each i False by (simp add: assigned_def)
    ultimately show ?thesis using False i by (simp add: active)
  qed
  then show ?thesis using run len active by blast
qed

text \<open>
  Claim C2. With \<open>nSize \<ge> 1\<close> processes, on a grid whose patches are stubs as
  \<open>AddPatch\<close> left them and whose active list is empty, \<open>DistributePatches\<close> succeeds on
  every process; patch \<open>i\<close> gets the processor \<open>i mod nSize\<close> on every process; the
  process of that rank, and no other, runs \<open>InitializeDataLocal\<close> on it and appends it to
  its active list. On the owner the patch then contains data: its reference state is
  initialized, it has one state slot on levels and one on interfaces for every component
  data instance of the model, all initialized, and one tracer slot for every tracer data
  instance, initialized exactly when the model has tracers. On any other process the
  patch stays the stub it was, with its box and index, with the owner's rank recorded,
  without data and with the slots and the reference state of the stub untouched.
  So every patch has exactly one owning process among the ranks \<open>0 \<le> nRank < nSize\<close>, and
  the active lists of two processes differ in length by at most one.
\<close>

theorem DistributePatches_round_robin:
  assumes P: "1 \<le> nSize"
    and fresh: "\<forall>p \<in> set (m_vecGridPatches G). \<not> m_fContainsData p"
    and act: "m_vecActiveGridPatches G = []"
  shows "(\<forall>nRank. \<exists>G'. DistributePatches G nSize nRank = Inr G' \<and>
       length (m_vecGridPatches G') = length (m_vecGridPatches G) \<and>
       m_vecActiveGridPatches G' =
         filter (\<lambda>i. int i mod nSize = nRank) [0..<length (m_vecGridPatches G)] \<and>
       (\<forall>i<length (m_vecGridPatches G).
          m_iProcessor (m_vecGridPatches G' ! i) = int i mod nSize \<and>
          m_fContainsData (m_vecGridPatches G' ! i) = (int i mod nSize = nRank) \<and>
          (i \<in> set (m_vecActiveGridPatches G')) = (int i mod nSize = nRank) \<and>
          m_ixPatch (m_vecGridPatches G' ! i) = m_ixPatch (m_vecGridPatches G ! i) \<and>
          m_box (m_vecGridPatches G' ! i) = m_box (m_vecGridPatches G ! i) \<and>
          (if int i mod nSize = nRank
           then InitializeDataLocal G nRank (m_vecGridPatches G ! i) = Inr (m_vecGridPatches G' ! i)
                \<and> IsInitialized (m_dataRefStateNode (m_vecGridPatches G' ! i))
                \<and> length (m_datavecStateNode (m_vecGridPatches G' ! i)) =
                    nat (GetComponentDataInstances (m_model G))
                \<and> list_all IsInitialized (m_datavecStateNode (m_vecGridPatches G' ! i))
                \<and> length (m_datavecStateREdge (m_vecGridPatches G' ! i)) =
                    nat (GetComponentDataInstances (m_model G))
                \<and> list_all IsInitialized (m_datavecStateREdge (m_vecGridPatches G' ! i))
                \<and> length (m_datavecTracers (m_vecGridPatches G' ! i)) =
                    nat (GetTracerDataInstances (m_model G))
                \<and> list_all (\<lambda>d. IsInitialized d = (GetTracers (m_model G) \<noteq> 0))
                      (m_datavecTracers (m_vecGridPatches G' ! i))
           else m_vecGridPatches G' ! i =
                  (m_vecGridPatches G ! i)\<lparr>m_iProcessor := int i mod nSize\<rparr>
                \<and> m_datavecStateNode (m_vecGridPatches G' ! i) =
                    m_datavecStateNode (m_vecGridPatches G ! i)
                \<and> m_datavecStateREdge (m_vecGridPatches G' ! i) =
                    m_datavecStateREdge (m_vecGridPatches G ! i)
                \<and> m_datavecTracers (m_vecGridPatches G' ! i) =
                    m_datavecTracers (m_vecGridPatches G ! i)
                \<and> m_dataRefStateNode (m_vecGridPatches G' ! i) =
                    m_dataRefStateNode (m_vecGridPatches G ! i))))
    \<and> (\<forall>i<length (m_vecGridPatches G).
          \<exists>!nRank. 0 \<le> nRank \<and> nRank < nSize \<and>
            (\<exists>G'. DistributePatches G nSize nRank = Inr G' \<and>
                  m_fContainsData (m_vecGridPatches G' ! i)))
    \<and> (\<forall>r1 r2 G1 G2. 0 \<le> r1 \<and> r1 < nSize \<and> 0 \<le> r2 \<and> r2 < nSize \<and>
          DistributePatches G nSize r1 = Inr G1 \<and> DistributePatches G nSize r2 = Inr G2 \<longrightarrow>
          \<bar>int (length (m_vecActiveGridPatches G1)) - int (length (m_vecActiveGridPatches G2))\<bar> \<le> 1)"
proof (intro conjI allI impI)
  have pos: "0 < nSize" using P by simp
  note per = DistributePatches_per_rank [OF pos fresh act]
  show "\<exists>G'. DistributePatches G nSize nRank = Inr G' \<and>
       length (m_vecGridPatches G') = length (m_vecGridPatches G) \<and>
       m_vecActiveGridPatches G' =
         filter (\<lambda>i. int i mod nSize = nRank) [0..<length (m_vecGridPatches G)] \<and>
       (\<forall>i<length (m_vecGridPatches G).
          m_iProcessor (m_vecGridPatches G' ! i) = int i mod nSize \<and>
          m_fContainsData (m_vecGridPatches G' ! i) = (int i mod nSize = nRank) \<and>
          (i \<in> set (m_vecActiveGridPatches G')) = (int i mod nSize = nRank) \<and>
          m_ixPatch (m_vecGridPatches G' ! i) = m_ixPatch (m_vecGridPatches G ! i) \<and>
          m_box (m_vecGridPatches G' ! i) = m_box (m_vecGridPatches G ! i) \<and>
          (if int i mod nSize = nRank
           then InitializeDataLocal G nRank (m_vecGridPatches G ! i) = Inr (m_vecGridPatches G' ! i)
                \<and> IsInitialized (m_dataRefStateNode (m_vecGridPatches G' ! i))
                \<and> length (m_datavecStateNode (m_vecGridPatches G' ! i)) =
                    nat (GetComponentDataInstances (m_model G))
                \<and> list_all IsInitialized (m_datavecStateNode (m_vecGridPatches G' ! i))
                \<and> length (m_datavecStateREdge (m_vecGridPatches G' ! i)) =
                    nat (GetComponentDataInstances (m_model G))
                \<and> list_all IsInitialized (m_datavecStateREdge (m_vecGridPatches G' ! i))
                \<and> length (m_datavecTracers (m_vecGridPatches G' ! i)) =
                    nat (GetTracerDataInstances (m_model G))
                \<and> list_all (\<lambda>d. IsInitialized d = (GetTracers (m_model G) \<noteq> 0))
                      (m_datavecTracers (m_vecGridPatches G' ! i))
           else m_vecGridPatches G' ! i =
                  (m_vecGridPatches G ! i)\<lparr>m_iProcessor := int i mod nSize\<rparr>
                \<and> m_datavecStateNode (m_vecGridPatches G' ! i) =
                    m_datavecStateNode (m_vecGridPatches G ! i)
                \<and> m_datavecStateREdge (m_vecGridPatches G' ! i) =
                    m_datavecStateREdge (m_vecGridPatches G ! i)
                \<and> m_datavecTracers (m_vecGridPatches G' ! i) =
                    m_datavecTracers (m_vecGridPatches G ! i)
                \<and> m_dataRefStateNode (m_vecGridPatches G' ! i) =
                    m_dataRefStateNode (m_vecGridPatches G ! i)))" for nRank
    by (rule per)
  show "\<exists>!nRank. 0 \<le> nRank \<and> nRank < nSize \<and>
            (\<exists>G'. DistributePatches G nSize nRank = Inr G' \<and>
                  m_fContainsData (m_vecGridPatches G' ! i))"
    if i: "i < length (m_vecGridPatches G)" for i
  proof (rule ex1I [of _ "int i mod nSize"])
    from per [of "int i mod nSize"] obtain G' where
      "DistributePatches G nSize (int i mod nSize) = Inr G'"
      "\<forall>j<length (m_vecGridPatches G).
         m_fContainsData (m_vecGridPatches G' ! j) = (int j mod nSize = int i mod nSize)"
      by blast
    then show "0 \<le> int i mod nSize \<and> int i mod nSize < nSize \<and>
            (\<exists>G'. DistributePatches G nSize (int i mod nSize) = Inr G' \<and>
                  m_fContainsData (m_vecGridPatches G' ! i))"
      using pos i by auto
  next
    fix r
    assume r: "0 \<le> r \<and> r < nSize \<and>
            (\<exists>G'. DistributePatches G nSize r = Inr G' \<and>
                  m_fContainsData (m_vecGridPatches G' ! i))"
    from per [of r] obtain G' where
      "DistributePatches G nSize r = Inr G'"
      "\<forall>j<length (m_vecGridPatches G).
         m_fContainsData (m_vecGridPatches G' ! j) = (int j mod nSize = r)"
      by blast
    then show "r = int i mod nSize" using r i by auto
  qed
  show "\<bar>int (length (m_vecActiveGridPatches G1)) - int (length (m_vecActiveGridPatches G2))\<bar> \<le> 1"
    if h: "0 \<le> r1 \<and> r1 < nSize \<and> 0 \<le> r2 \<and> r2 < nSize \<and>
          DistributePatches G nSize r1 = Inr G1 \<and> DistributePatches G nSize r2 = Inr G2"
    for r1 r2 G1 G2
  proof -
    from per [of r1] h have a1: "m_vecActiveGridPatches G1 =
         filter (\<lambda>i. int i mod nSize = r1) [0..<length (m_vecGridPatches G)]" by auto
    from per [of r2] h have a2: "m_vecActiveGridPatches G2 =
         filter (\<lambda>i. int i mod nSize = r2) [0..<length (m_vecGridPatches G)]" by auto
    show ?thesis unfolding a1 a2
      by (rule round_robin_balance) (use pos h in simp_all)
  qed
qed

text \<open>
  The scenario of the spec, six patches on four processes, seen from rank 1: the
  owners are 0, 1, 2, 3, 0, 1, and rank 1 holds patches 1 and 5, each with two
  initialized state slots and an initialized reference state; the four stubs have no
  slot.
\<close>

theorem DistributePatches_round_robin_witness:
  "\<exists>G'. DistributePatches example_grid 4 1 = Inr G' \<and>
     map m_iProcessor (m_vecGridPatches G') = [0, 1, 2, 3, 0, 1] \<and>
     map m_fContainsData (m_vecGridPatches G') = [False, True, False, False, False, True] \<and>
     m_vecActiveGridPatches G' = [1, 5] \<and>
     map (\<lambda>P. map IsInitialized (m_datavecStateNode P)) (m_vecGridPatches G') =
       [[], [True, True], [], [], [], [True, True]] \<and>
     map (\<lambda>P. map IsInitialized (m_datavecStateREdge P)) (m_vecGridPatches G') =
       [[], [True, True], [], [], [], [True, True]] \<and>
     map (\<lambda>P. IsInitialized (m_dataRefStateNode P)) (m_vecGridPatches G') =
       [False, True, False, False, False, True]"
proof -
  have h1: "(1::int) \<le> 4" by simp
  have h2: "\<forall>p \<in> set (m_vecGridPatches example_grid). \<not> m_fContainsData p"
    by (simp add: example_grid_def example_patch_def GridPatch_new_def)
  have h3: "m_vecActiveGridPatches example_grid = []"
    by (simp add: example_grid_def)
  have n: "length (m_vecGridPatches example_grid) = 6" by (simp add: example_grid_def)
  have six: "[0..<6] = [0, 1, 2, 3, 4, 5::nat]" by (simp add: numeral_eq_Suc)
  have two: "map IsInitialized xs = [True, True]"
    if "length xs = nat 2" "list_all IsInitialized xs" for xs :: "GridData4D list"
  proof -
    have "length xs = Suc (Suc 0)" using that(1) by simp
    then obtain a b where "xs = [a, b]"
      by (auto simp: length_Suc_conv)
    then show ?thesis using that(2) by simp
  qed
  have inst: "GetComponentDataInstances (m_model example_grid) = 2"
    by (simp add: example_grid_def example_model_def)
  have stub: "m_datavecStateNode (m_vecGridPatches example_grid ! i) = [] \<and>
              m_datavecStateREdge (m_vecGridPatches example_grid ! i) = [] \<and>
              \<not> IsInitialized (m_dataRefStateNode (m_vecGridPatches example_grid ! i))"
    if "i < 6" for i
  proof -
    have "i \<in> set [0, 1, 2, 3, 4, 5::nat]" using that unfolding six [symmetric] by simp
    then show ?thesis
      by (auto simp: example_grid_def example_patch_def GridPatch_new_def unallocated_def)
  qed
  note rr = DistributePatches_round_robin [OF h1 h2 h3, THEN conjunct1, THEN spec, of 1]
  show ?thesis
    apply (rule exE [OF rr])
    apply (elim conjE)
    subgoal premises prems for G'
    proof -
      note run = prems(1) and len = prems(2) and active = prems(3)
      note each = prems(4) [rule_format]
      have a: "m_vecActiveGridPatches G' = [1, 5]" using active unfolding n six by simp
      have l: "length (m_vecGridPatches G') = 6" using len n by simp
      have nth: "m_vecGridPatches G' = map (\<lambda>i. m_vecGridPatches G' ! i) [0..<6]"
        using map_nth [of "m_vecGridPatches G'"] l by simp
      have e: "m_iProcessor (m_vecGridPatches G' ! i) = int i mod 4 \<and>
               m_fContainsData (m_vecGridPatches G' ! i) = (int i mod 4 = 1)" if "i < 6" for i
        using each [of i] n that by simp
      have own: "map IsInitialized (m_datavecStateNode (m_vecGridPatches G' ! i)) = [True, True] \<and>
                 map IsInitialized (m_datavecStateREdge (m_vecGridPatches G' ! i)) = [True, True] \<and>
                 IsInitialized (m_dataRefStateNode (m_vecGridPatches G' ! i))"
        if "i < 6" "int i mod 4 = 1" for i
        using each [of i] n that by (simp add: inst two)
      have rem: "m_datavecStateNode (m_vecGridPatches G' ! i) = [] \<and>
                 m_datavecStateREdge (m_vecGridPatches G' ! i) = [] \<and>
                 \<not> IsInitialized (m_dataRefStateNode (m_vecGridPatches G' ! i))"
        if "i < 6" "int i mod 4 \<noteq> 1" for i
        using each [of i] n that stub [of i] by simp
      have b: "map m_iProcessor (m_vecGridPatches G') = [0, 1, 2, 3, 0, 1]"
        using arg_cong [OF nth, of "map m_iProcessor"] e unfolding six by simp
      have c: "map m_fContainsData (m_vecGridPatches G') =
          [False, True, False, False, False, True]"
        using arg_cong [OF nth, of "map m_fContainsData"] e unfolding six by simp
      have d1: "map (\<lambda>P. map IsInitialized (m_datavecStateNode P)) (m_vecGridPatches G') =
          [[], [True, True], [], [], [], [True, True]]"
        using arg_cong [OF nth, of "map (\<lambda>P. map IsInitialized (m_datavecStateNode P))"]
          own [of 1] own [of 5] rem [of 0] rem [of 2] rem [of 3] rem [of 4]
        unfolding six by simp
      have d2: "map (\<lambda>P. map IsInitialized (m_datavecStateREdge P)) (m_vecGridPatches G') =
          [[], [True, True], [], [], [], [True, True]]"
        using arg_cong [OF nth, of "map (\<lambda>P. map IsInitialized (m_datavecStateREdge P))"]
          own [of 1] own [of 5] rem [of 0] rem [of 2] rem [of 3] rem [of 4]
        unfolding six by simp
      have d3: "map (\<lambda>P. IsInitialized (m_dataRefStateNode P)) (m_vecGridPatches G') =
          [False, True, False, False, False, True]"
        using arg_cong [OF nth, of "map (\<lambda>P. IsInitialized (m_dataRefStateNode P))"]
          own [of 1] own [of 5] rem [of 0] rem [of 2] rem [of 3] rem [of 4]
        unfolding six by simp
      show ?thesis using run a b c d1 d2 d3 by (intro exI [of _ G'] conjI)
    qed
    done
qed

section \<open>Connectivity construction: sample count, corners, diagonal connections\<close>

lemma boundary_samples_length:
  assumes "GetAGlobalInteriorBegin box \<le> GetAGlobalInteriorEnd box"
    and "GetBGlobalInteriorBegin box \<le> GetBGlobalInteriorEnd box"
  shows "int (length (boundary_samples box)) =
     2 * (GetAGlobalInteriorEnd box - GetAGlobalInteriorBegin box)
     + 2 * (GetBGlobalInteriorEnd box - GetBGlobalInteriorBegin box) + 4"
  using assms by (simp add: boundary_samples_def)

lemma edge_step_ix:
  assumes "edge_step opp G vecPatch atEnd dE aE dO aO dN aN fN st = Inr st'"
  shows "es_ix st' = es_ix st + (if atEnd then 0 else 1)"
  using assms
  by (auto simp: edge_step_def bindE_def split: sum.splits if_splits)

lemma for_up_ix:
  assumes body: "\<And>i s s'. body i s = Inr s' \<Longrightarrow> es_ix s' = es_ix s + (if i = hi then 0 else 1)"
  shows "i \<le> hi \<Longrightarrow> for_up i hi body s = Inr s' \<Longrightarrow> es_ix s' = es_ix s + (hi - i)"
proof (induction "nat (hi - i)" arbitrary: i s)
  case 0
  then have ih: "i = hi" by simp
  from "0.prems" obtain s1 where s1: "body i s = Inr s1"
    and rest: "for_up (i + 1) hi body s1 = Inr s'"
    by (subst (asm) for_up.simps) (auto simp: bindE_def split: sum.splits)
  have "for_up (i + 1) hi body s1 = Inr s1" using ih by (subst for_up.simps) simp
  then have eq: "s' = s1" using rest by simp
  have "es_ix s1 = es_ix s + (if i = hi then 0 else 1)" by (rule body [OF s1])
  then show ?case using ih eq by simp
next
  case (Suc d)
  from Suc.prems obtain s1 where s1: "body i s = Inr s1"
    and rest: "for_up (i + 1) hi body s1 = Inr s'"
    by (subst (asm) for_up.simps) (auto simp: bindE_def split: sum.splits)
  have ne: "i \<noteq> hi" and lt: "i + 1 \<le> hi" and d: "d = nat (hi - (i + 1))"
    using Suc.hyps(2) by simp_all
  have "es_ix s' = es_ix s1 + (hi - (i + 1))"
    by (rule Suc.hyps(1) [OF d lt rest])
  moreover have "es_ix s1 = es_ix s + (if i = hi then 0 else 1)" by (rule body [OF s1])
  ultimately show ?case using ne by simp
qed

lemma for_down_ix:
  assumes body: "\<And>i s s'. body i s = Inr s' \<Longrightarrow> es_ix s' = es_ix s + (if i = lo then 0 else 1)"
  shows "lo \<le> i \<Longrightarrow> for_down i lo body s = Inr s' \<Longrightarrow> es_ix s' = es_ix s + (i - lo)"
proof (induction "nat (i - lo)" arbitrary: i s)
  case 0
  then have ih: "i = lo" by simp
  from "0.prems" obtain s1 where s1: "body i s = Inr s1"
    and rest: "for_down (i - 1) lo body s1 = Inr s'"
    by (subst (asm) for_down.simps) (auto simp: bindE_def split: sum.splits)
  have "for_down (i - 1) lo body s1 = Inr s1" using ih by (subst for_down.simps) simp
  then have eq: "s' = s1" using rest by simp
  have "es_ix s1 = es_ix s + (if i = lo then 0 else 1)" by (rule body [OF s1])
  then show ?case using ih eq by simp
next
  case (Suc d)
  from Suc.prems obtain s1 where s1: "body i s = Inr s1"
    and rest: "for_down (i - 1) lo body s1 = Inr s'"
    by (subst (asm) for_down.simps) (auto simp: bindE_def split: sum.splits)
  have ne: "i \<noteq> lo" and lt: "lo \<le> i - 1" and d: "d = nat (i - 1 - lo)"
    using Suc.hyps(2) by simp_all
  have "es_ix s' = es_ix s1 + (i - 1 - lo)"
    by (rule Suc.hyps(1) [OF d lt rest])
  moreover have "es_ix s1 = es_ix s + (if i = lo then 0 else 1)" by (rule body [OF s1])
  ultimately show ?case using ne by simp
qed

lemma edge_start_ix: "edge_start vecPatch ix f P = Inr st \<Longrightarrow> es_ix st = ix"
  by (auto simp: edge_start_def bindE_def split: sum.splits)

lemma connect_boundary_ix:
  assumes wA: "GetAInteriorBegin (m_box P) \<le> GetAInteriorEnd (m_box P)"
    and wB: "GetBInteriorBegin (m_box P) \<le> GetBInteriorEnd (m_box P)"
    and run: "connect_boundary opp G vecPatch P = Inr (ix, P')"
  shows "ix = 2 * (GetAInteriorEnd (m_box P) - GetAInteriorBegin (m_box P))
            + 2 * (GetBInteriorEnd (m_box P) - GetBInteriorBegin (m_box P)) + 4"
proof -
  let ?box = "m_box P"
  from run obtain P1 s0 s1 P2 s2 s3 P3 s4 s5 P4 s6 s7 where
    e0: "edge_start vecPatch 1 (GetAInteriorBegin ?box) P1 = Inr s0"
    and l1: "for_up (GetAInteriorBegin ?box) (GetAInteriorEnd ?box)
               (bottom_body opp G vecPatch ?box) s0 = Inr s1"
    and e2: "edge_start vecPatch (es_ix s1 + 1) (GetBInteriorBegin ?box) P2 = Inr s2"
    and l3: "for_up (GetBInteriorBegin ?box) (GetBInteriorEnd ?box)
               (right_body opp G vecPatch ?box) s2 = Inr s3"
    and e4: "edge_start vecPatch (es_ix s3 + 1) (GetAInteriorEnd ?box) P3 = Inr s4"
    and l5: "for_down (GetAInteriorEnd ?box - 1) (GetAInteriorBegin ?box - 1)
               (top_body opp G vecPatch ?box) s4 = Inr s5"
    and e6: "edge_start vecPatch (es_ix s5 + 1) (GetBInteriorEnd ?box) P4 = Inr s6"
    and l7: "for_down (GetBInteriorEnd ?box - 1) (GetBInteriorBegin ?box - 1)
               (left_body opp G vecPatch ?box) s6 = Inr s7"
    and fin: "ix = es_ix s7"
    unfolding connect_boundary_def Let_def bindE_def
    by (auto split: sum.splits)
  have i0: "es_ix s0 = 1" by (rule edge_start_ix [OF e0])
  have i1: "es_ix s1 = es_ix s0 + (GetAInteriorEnd ?box - GetAInteriorBegin ?box)"
    by (rule for_up_ix [OF _ wA l1]) (auto simp: bottom_body_def dest: edge_step_ix)
  have i2: "es_ix s2 = es_ix s1 + 1" by (rule edge_start_ix [OF e2])
  have i3: "es_ix s3 = es_ix s2 + (GetBInteriorEnd ?box - GetBInteriorBegin ?box)"
    by (rule for_up_ix [OF _ wB l3]) (auto simp: right_body_def dest: edge_step_ix)
  have i4: "es_ix s4 = es_ix s3 + 1" by (rule edge_start_ix [OF e4])
  have wA': "GetAInteriorBegin ?box - 1 \<le> GetAInteriorEnd ?box - 1" using wA by simp
  have wB': "GetBInteriorBegin ?box - 1 \<le> GetBInteriorEnd ?box - 1" using wB by simp
  have i5: "es_ix s5 = es_ix s4 + (GetAInteriorEnd ?box - 1 - (GetAInteriorBegin ?box - 1))"
    by (rule for_down_ix [OF _ wA' l5]) (auto simp: top_body_def dest: edge_step_ix)
  have i6: "es_ix s6 = es_ix s5 + 1" by (rule edge_start_ix [OF e6])
  have i7: "es_ix s7 = es_ix s6 + (GetBInteriorEnd ?box - 1 - (GetBInteriorBegin ?box - 1))"
    by (rule for_down_ix [OF _ wB' l7]) (auto simp: left_body_def dest: edge_step_ix)
  show ?thesis using fin i0 i1 i2 i3 i4 i5 i6 i7 by simp
qed


lemma bindE_neq: "m \<noteq> Inl e \<Longrightarrow> (\<And>x. f x \<noteq> Inl e) \<Longrightarrow> bindE m f \<noteq> Inl e"
  by (cases m) (simp_all add: bindE_def)

lemma vec_at_no_exception: "vec_at xs i \<noteq> Inl (Exception msg)"
  by (simp add: vec_at_def)

lemma patch_at_no_exception: "patch_at G i \<noteq> Inl (Exception msg)"
  by (simp add: patch_at_def vec_at_no_exception)

lemma ExteriorConnect_no_mismatch:
  "ExteriorConnect opp G P d S a b \<noteq> Inl (Exception ''Index mismatch'')"
  by (cases S) (simp_all add: ExteriorConnect_def Let_def split: prod.splits)

lemma ExteriorConnect_dir_no_mismatch:
  "ExteriorConnect_dir opp G P d S \<noteq> Inl (Exception ''Index mismatch'')"
  by (simp add: ExteriorConnect_dir_def ExteriorConnect_no_mismatch)

lemma connect_corner_no_mismatch:
  "connect_corner opp G vecPatch d ix P \<noteq> Inl (Exception ''Index mismatch'')"
  unfolding connect_corner_def Connectivity_ExteriorConnect_dir_def
  by (intro bindE_neq vec_at_no_exception)
     (simp add: bindE_neq patch_at_no_exception ExteriorConnect_dir_no_mismatch)

lemma edge_start_no_mismatch:
  "edge_start vecPatch ix f P \<noteq> Inl (Exception ''Index mismatch'')"
  unfolding edge_start_def by (intro bindE_neq vec_at_no_exception) simp

lemma edge_step_no_mismatch:
  "edge_step opp G vecPatch atEnd dE aE dO aO dN aN fN st \<noteq> Inl (Exception ''Index mismatch'')"
  unfolding edge_step_def Connectivity_ExteriorConnect_def
  by (intro bindE_neq)
     (simp_all add: bindE_neq vec_at_no_exception patch_at_no_exception
        ExteriorConnect_no_mismatch)

lemma for_up_neq:
  assumes body: "\<And>i s. body i s \<noteq> Inl e"
  shows "for_up i hi body s \<noteq> Inl e"
proof (induction "nat (hi + 1 - i)" arbitrary: i s)
  case 0
  then show ?case by (subst for_up.simps) simp
next
  case (Suc d)
  then have d: "d = nat (hi + 1 - (i + 1))" by simp
  show ?case
    by (subst for_up.simps) (simp add: bindE_neq body Suc.hyps(1) [OF d])
qed

lemma for_down_neq:
  assumes body: "\<And>i s. body i s \<noteq> Inl e"
  shows "for_down i lo body s \<noteq> Inl e"
proof (induction "nat (i + 1 - lo)" arbitrary: i s)
  case 0
  then show ?case by (subst for_down.simps) simp
next
  case (Suc d)
  then have d: "d = nat (i - 1 + 1 - lo)" by simp
  show ?case
    by (subst for_down.simps) (simp add: bindE_neq body Suc.hyps(1) [OF d])
qed

lemma connect_boundary_no_mismatch:
  "connect_boundary opp G vecPatch P \<noteq> Inl (Exception ''Index mismatch'')"
  unfolding connect_boundary_def Let_def
  by (intro bindE_neq connect_corner_no_mismatch edge_start_no_mismatch
        for_up_neq for_down_neq)
     (simp_all add: bottom_body_def right_body_def top_body_def left_body_def
        edge_step_no_mismatch)

text \<open>
  Claim C1. For a well-formed box, the traversal of \<open>Grid::InitializeConnectivity\<close>
  writes interior perimeter + 4 samples; whenever the consumption pass runs to its end,
  whatever the samples resolved to, it has advanced \<open>ix\<close> by the same amount; and the
  pass for the patch never ends in \<open>Index mismatch\<close>: neither check fires. (The pass can
  still end in another error: a diagonal connection without enough interior elements, or
  an edge sample that resolved to no patch.)
\<close>

theorem boundary_traversal_index_count:
  assumes wf: "PatchBox_wf (m_box P)"
  shows "int (length (boundary_samples (m_box P))) = GetInteriorPerimeter (m_box P) + 4
     \<and> (\<forall>vecPatch ix P'. connect_boundary opp G vecPatch P = Inr (ix, P')
            \<longrightarrow> ix = GetInteriorPerimeter (m_box P) + 4)
     \<and> InitializeConnectivity_patch opp resolve G P \<noteq> Inl (Exception ''Index mismatch'')"
proof -
  let ?box = "m_box P"
  have gA: "GetAGlobalInteriorBegin ?box \<le> GetAGlobalInteriorEnd ?box"
    and gB: "GetBGlobalInteriorBegin ?box \<le> GetBGlobalInteriorEnd ?box"
    and lA: "GetAInteriorBegin ?box \<le> GetAInteriorEnd ?box"
    and lB: "GetBInteriorBegin ?box \<le> GetBInteriorEnd ?box"
    and per: "GetInteriorPerimeter ?box =
        2 * (GetAInteriorEnd ?box - GetAInteriorBegin ?box)
        + 2 * (GetBInteriorEnd ?box - GetBInteriorBegin ?box)"
    and gper: "GetInteriorPerimeter ?box =
        2 * (GetAGlobalInteriorEnd ?box - GetAGlobalInteriorBegin ?box)
        + 2 * (GetBGlobalInteriorEnd ?box - GetBGlobalInteriorBegin ?box)"
    using wf by (simp_all add: PatchBox_wf_def)
  have gen: "int (length (boundary_samples ?box)) = GetInteriorPerimeter ?box + 4"
    using boundary_samples_length [OF gA gB] gper by simp
  have cons: "ix = GetInteriorPerimeter ?box + 4"
    if "connect_boundary opp G vecPatch P = Inr (ix, P')" for vecPatch ix P'
    using connect_boundary_ix [OF lA lB that] per by simp
  let ?vp = "map (\<lambda>(ixA, ixB, panel). resolve (GetRefinementLevel ?box) ixA ixB panel)
               (boundary_samples ?box)"
  have "InitializeConnectivity_patch opp resolve G P \<noteq> Inl (Exception ''Index mismatch'')"
  proof (cases "connect_boundary opp G ?vp P")
    case (Inl e)
    then have "e \<noteq> Exception ''Index mismatch''"
      using connect_boundary_no_mismatch [of opp G ?vp P] by auto
    then show ?thesis using Inl gen
      by (simp add: InitializeConnectivity_patch_def Let_def bindE_def)
  next
    case (Inr r)
    obtain ix P' where r: "r = (ix, P')" by (cases r)
    have "ix = GetInteriorPerimeter ?box + 4" using cons Inr r by simp
    then show ?thesis using Inr r gen
      by (simp add: InitializeConnectivity_patch_def Let_def bindE_def)
  qed
  then show ?thesis using gen cons by blast
qed



text \<open>
  What the pass adds to the connectivity of the patch. Every \<open>ExteriorConnect\<close> that
  returns has appended one neighbour; a corner block appends the standalone relation of
  its corner or nothing; an edge loop appends edge relations and, where the patch
  changes along the edge, diagonal relations at the element of the change, which is
  never the corner element: the first sample of an edge starts the run, and at the end
  of the edge no diagonal relation is added.
\<close>

lemma bindE_Inr_iff: "bindE m f = Inr y \<longleftrightarrow> (\<exists>x. m = Inr x \<and> f x = Inr y)"
  by (cases m) (simp_all add: bindE_def)

lemma ExteriorConnect_appends:
  assumes "ExteriorConnect opp G P dir (Some S) a b = Inr P'"
  shows "\<exists>nb. P' = P\<lparr>m_connect := m_connect P @ [nb]\<rparr> \<and> nb_dirFirst nb = dir \<and>
           nb_ixFirst nb = a \<and> nb_ixSecond nb = b \<and> nb_ixNeighbor nb = m_ixPatch S"
proof -
  obtain dO fR fF where o: "opp (GetPanel (m_box P)) (GetPanel (m_box S)) dir = (dO, fR, fF)"
    by (cases "opp (GetPanel (m_box P)) (GetPanel (m_box S)) dir") auto
  show ?thesis
    using assms o by (cases dir) (auto simp: ExteriorConnect_def Let_def split: if_splits)
qed

lemma ExteriorConnect_insufficient:
  assumes "is_corner d"
    and "GetAInteriorEnd (m_box P) - GetAInteriorBegin (m_box P) < GetModelHaloElements (m_model G) \<or>
         GetBInteriorEnd (m_box P) - GetBInteriorBegin (m_box P) < GetModelHaloElements (m_model G)"
  shows "ExteriorConnect_dir opp G P d (Some S) =
           Inl (Exception ''Insufficient interior elements to build diagonal connection.'')"
proof -
  obtain dO fR fF where o: "opp (GetPanel (m_box P)) (GetPanel (m_box S)) d = (dO, fR, fF)"
    by (cases "opp (GetPanel (m_box P)) (GetPanel (m_box S)) d") auto
  consider (tr) "d = Direction_TopRight" | (tl) "d = Direction_TopLeft"
    | (bl) "d = Direction_BottomLeft" | (br) "d = Direction_BottomRight"
    using assms(1) by (auto simp: is_corner_def)
  then show ?thesis
  proof cases
    case tr
    then show ?thesis using assms(2) o
      by (auto simp: ExteriorConnect_dir_def ExteriorConnect_def)
  next
    case tl
    then show ?thesis using assms(2) o
      by (auto simp: ExteriorConnect_dir_def ExteriorConnect_def)
  next
    case bl
    then show ?thesis using assms(2) o
      by (auto simp: ExteriorConnect_dir_def ExteriorConnect_def)
  next
    case br
    then show ?thesis using assms(2) o
      by (auto simp: ExteriorConnect_dir_def ExteriorConnect_def)
  qed
qed

lemma ExteriorConnect_dir_corner:
  assumes c: "is_corner d" and run: "ExteriorConnect_dir opp G P d (Some S) = Inr P'"
  shows "\<exists>nb. P' = P\<lparr>m_connect := m_connect P @ [nb]\<rparr> \<and> standalone_corner (m_box P) d nb \<and>
      nb_ixNeighbor nb = m_ixPatch S \<and>
      GetModelHaloElements (m_model G) \<le> GetAInteriorEnd (m_box P) - GetAInteriorBegin (m_box P) \<and>
      GetModelHaloElements (m_model G) \<le> GetBInteriorEnd (m_box P) - GetBInteriorBegin (m_box P)"
proof -
  have suff: "GetModelHaloElements (m_model G) \<le> GetAInteriorEnd (m_box P) - GetAInteriorBegin (m_box P) \<and>
      GetModelHaloElements (m_model G) \<le> GetBInteriorEnd (m_box P) - GetBInteriorBegin (m_box P)"
    using ExteriorConnect_insufficient [OF c, of P G opp S] run by force
  have "ExteriorConnect opp G P d (Some S) (fst (corner_element (m_box P) d))
          (snd (corner_element (m_box P) d)) = Inr P'"
    using c run by (auto simp: ExteriorConnect_dir_def corner_element_def is_corner_def)
  from ExteriorConnect_appends [OF this] suff show ?thesis
    by (auto simp: standalone_corner_def)
qed

lemma connect_corner_filter:
  assumes c: "is_corner dk" and run: "connect_corner opp G vecPatch dk pos Pin = Inr Pout"
  shows "\<exists>v c. vec_at vecPatch pos = Inr v \<and> m_connect Pout = m_connect Pin @ c \<and>
     m_box Pout = m_box Pin \<and>
     (\<forall>d. d \<noteq> dk \<longrightarrow> filter (standalone_corner (m_box Pin) d) c = []) \<and>
     (if v = InvalidIndex then c = []
      else \<exists>S nb. patch_at G v = Inr S \<and> c = [nb] \<and> standalone_corner (m_box Pin) dk nb \<and>
             nb_ixNeighbor nb = m_ixPatch S \<and>
             GetModelHaloElements (m_model G)
               \<le> GetAInteriorEnd (m_box Pin) - GetAInteriorBegin (m_box Pin) \<and>
             GetModelHaloElements (m_model G)
               \<le> GetBInteriorEnd (m_box Pin) - GetBInteriorBegin (m_box Pin))"
proof -
  from run obtain v where v: "vec_at vecPatch pos = Inr v"
    and rest: "(if v \<noteq> InvalidIndex then
         bindE (patch_at G v) (\<lambda>S. Connectivity_ExteriorConnect_dir opp G Pin dk S)
       else Inr Pin) = Inr Pout"
    unfolding connect_corner_def bindE_Inr_iff by blast
  show ?thesis
  proof (cases "v = InvalidIndex")
    case True
    then have "Pout = Pin" using rest by simp
    then show ?thesis using v True by simp
  next
    case False
    then obtain S where S: "patch_at G v = Inr S"
      and e: "ExteriorConnect_dir opp G Pin dk (Some S) = Inr Pout"
      using rest by (auto simp: bindE_Inr_iff Connectivity_ExteriorConnect_dir_def)
    from ExteriorConnect_dir_corner [OF c e] obtain nb where
      nb: "Pout = Pin\<lparr>m_connect := m_connect Pin @ [nb]\<rparr>"
        "standalone_corner (m_box Pin) dk nb" "nb_ixNeighbor nb = m_ixPatch S"
        "GetModelHaloElements (m_model G)
               \<le> GetAInteriorEnd (m_box Pin) - GetAInteriorBegin (m_box Pin)"
        "GetModelHaloElements (m_model G)
               \<le> GetBInteriorEnd (m_box Pin) - GetBInteriorBegin (m_box Pin)"
      by blast
    have other: "\<forall>d. d \<noteq> dk \<longrightarrow> filter (standalone_corner (m_box Pin) d) [nb] = []"
      using nb(2) by (simp add: standalone_corner_def)
    show ?thesis
      using v False S nb other by (intro exI [of _ v] exI [of _ "[nb]"]) auto
  qed
qed


lemma edge_step_added:
  assumes run: "edge_step opp G vecPatch atEnd dE aE dO aO dN aN fN st = Inr st'"
    and RE: "\<And>nb. nb_dirFirst nb = dE \<Longrightarrow> R nb"
    and RO: "\<And>nb. \<not> atEnd \<Longrightarrow> vec_at vecPatch (es_ix st) \<noteq> Inr (es_iCurrentPatch st) \<Longrightarrow>
               nb_dirFirst nb = dO \<Longrightarrow> nb_ixFirst nb = fst aO \<Longrightarrow> nb_ixSecond nb = snd aO \<Longrightarrow> R nb"
    and RN: "\<And>nb. \<not> atEnd \<Longrightarrow> vec_at vecPatch (es_ix st) \<noteq> Inr (es_iCurrentPatch st) \<Longrightarrow>
               nb_dirFirst nb = dN \<Longrightarrow> nb_ixFirst nb = fst aN \<Longrightarrow> nb_ixSecond nb = snd aN \<Longrightarrow> R nb"
  shows "m_box (es_patch st') = m_box (es_patch st) \<and>
         (\<exists>new. m_connect (es_patch st') = m_connect (es_patch st) @ new \<and> list_all R new)"
proof (cases atEnd)
  case True
  from run True obtain pOld P1 where
    "ExteriorConnect opp G (es_patch st) dE (Some pOld) (fst aE) (snd aE) = Inr P1"
    and st': "st' = st\<lparr>es_patch := P1\<rparr>"
    by (auto simp: edge_step_def bindE_Inr_iff Connectivity_ExteriorConnect_def)
  from ExteriorConnect_appends [OF this(1)] obtain nb where
    "P1 = (es_patch st)\<lparr>m_connect := m_connect (es_patch st) @ [nb]\<rparr>" "nb_dirFirst nb = dE"
    by blast
  then show ?thesis using st' RE [of nb] by simp
next
  case False
  from run False obtain v where v: "vec_at vecPatch (es_ix st) = Inr v"
    by (auto simp: edge_step_def bindE_Inr_iff)
  show ?thesis
  proof (cases "v = es_iCurrentPatch st")
    case True
    then have "st' = st\<lparr>es_ix := es_ix st + 1\<rparr>"
      using run False v by (simp add: edge_step_def bindE_def)
    then show ?thesis by simp
  next
    case ne: False
    have ch: "vec_at vecPatch (es_ix st) \<noteq> Inr (es_iCurrentPatch st)" using v ne by simp
    from run False v ne obtain pOld P1 P2 pNew P3 where
      c1: "ExteriorConnect opp G (es_patch st) dE (Some pOld) (fst aE) (snd aE) = Inr P1"
      and c2: "ExteriorConnect opp G P1 dO (Some pOld) (fst aO) (snd aO) = Inr P2"
      and c3: "ExteriorConnect opp G P2 dN (Some pNew) (fst aN) (snd aN) = Inr P3"
      and st': "st' = st\<lparr>es_ixFirst := fN, es_iCurrentPatch := v, es_patch := P3,
                         es_ix := es_ix st + 1\<rparr>"
      by (auto simp: edge_step_def bindE_Inr_iff Connectivity_ExteriorConnect_def)
    from ExteriorConnect_appends [OF c1] obtain nb1 where
      n1: "P1 = (es_patch st)\<lparr>m_connect := m_connect (es_patch st) @ [nb1]\<rparr>"
        "nb_dirFirst nb1 = dE"
      by blast
    from ExteriorConnect_appends [OF c2] obtain nb2 where
      n2: "P2 = P1\<lparr>m_connect := m_connect P1 @ [nb2]\<rparr>"
        "nb_dirFirst nb2 = dO" "nb_ixFirst nb2 = fst aO" "nb_ixSecond nb2 = snd aO"
      by blast
    from ExteriorConnect_appends [OF c3] obtain nb3 where
      n3: "P3 = P2\<lparr>m_connect := m_connect P2 @ [nb3]\<rparr>"
        "nb_dirFirst nb3 = dN" "nb_ixFirst nb3 = fst aN" "nb_ixSecond nb3 = snd aN"
      by blast
    have "R nb1" by (rule RE [OF n1(2)])
    moreover have "R nb2" by (rule RO [OF False ch n2(2,3,4)])
    moreover have "R nb3" by (rule RN [OF False ch n3(2,3,4)])
    ultimately show ?thesis using st' n1(1) n2(1) n3(1) by simp
  qed
qed

lemma for_up_added:
  assumes body: "\<And>i s s'. Inv i s \<Longrightarrow> body i s = Inr s' \<Longrightarrow>
      Inv (i + 1) s' \<and> m_box (es_patch s') = m_box (es_patch s) \<and>
      (\<exists>new. m_connect (es_patch s') = m_connect (es_patch s) @ new \<and> list_all R new)"
  shows "Inv i s \<Longrightarrow> for_up i hi body s = Inr s' \<Longrightarrow>
     m_box (es_patch s') = m_box (es_patch s) \<and>
     (\<exists>new. m_connect (es_patch s') = m_connect (es_patch s) @ new \<and> list_all R new)"
proof (induction "nat (hi + 1 - i)" arbitrary: i s)
  case 0
  then have "for_up i hi body s = Inr s" by (subst for_up.simps) simp
  then have "s' = s" using "0.prems"(2) by simp
  then show ?case by simp
next
  case (Suc d)
  have le: "i \<le> hi" using Suc.hyps(2) by simp
  from Suc.prems(2) le obtain s1 where s1: "body i s = Inr s1"
    and rest: "for_up (i + 1) hi body s1 = Inr s'"
    by (subst (asm) for_up.simps) (auto simp: bindE_Inr_iff)
  from body [OF Suc.prems(1) s1] obtain new1 where
    inv1: "Inv (i + 1) s1" and b1: "m_box (es_patch s1) = m_box (es_patch s)"
    and n1: "m_connect (es_patch s1) = m_connect (es_patch s) @ new1" "list_all R new1"
    by blast
  have d: "d = nat (hi + 1 - (i + 1))" using Suc.hyps(2) by simp
  from Suc.hyps(1) [OF d inv1 rest] obtain new2 where
    b2: "m_box (es_patch s') = m_box (es_patch s1)"
    and n2: "m_connect (es_patch s') = m_connect (es_patch s1) @ new2" "list_all R new2"
    by blast
  show ?case using b1 b2 n1 n2 by (intro conjI exI [of _ "new1 @ new2"]) simp_all
qed

lemma for_down_added:
  assumes body: "\<And>i s s'. Inv i s \<Longrightarrow> body i s = Inr s' \<Longrightarrow>
      Inv (i - 1) s' \<and> m_box (es_patch s') = m_box (es_patch s) \<and>
      (\<exists>new. m_connect (es_patch s') = m_connect (es_patch s) @ new \<and> list_all R new)"
  shows "Inv i s \<Longrightarrow> for_down i lo body s = Inr s' \<Longrightarrow>
     m_box (es_patch s') = m_box (es_patch s) \<and>
     (\<exists>new. m_connect (es_patch s') = m_connect (es_patch s) @ new \<and> list_all R new)"
proof (induction "nat (i + 1 - lo)" arbitrary: i s)
  case 0
  then have "for_down i lo body s = Inr s" by (subst for_down.simps) simp
  then have "s' = s" using "0.prems"(2) by simp
  then show ?case by simp
next
  case (Suc d)
  have le: "lo \<le> i" using Suc.hyps(2) by simp
  from Suc.prems(2) le obtain s1 where s1: "body i s = Inr s1"
    and rest: "for_down (i - 1) lo body s1 = Inr s'"
    by (subst (asm) for_down.simps) (auto simp: bindE_Inr_iff)
  from body [OF Suc.prems(1) s1] obtain new1 where
    inv1: "Inv (i - 1) s1" and b1: "m_box (es_patch s1) = m_box (es_patch s)"
    and n1: "m_connect (es_patch s1) = m_connect (es_patch s) @ new1" "list_all R new1"
    by blast
  have d: "d = nat (i - 1 + 1 - lo)" using Suc.hyps(2) by simp
  from Suc.hyps(1) [OF d inv1 rest] obtain new2 where
    b2: "m_box (es_patch s') = m_box (es_patch s1)"
    and n2: "m_connect (es_patch s') = m_connect (es_patch s1) @ new2" "list_all R new2"
    by blast
  show ?case using b1 b2 n1 n2 by (intro conjI exI [of _ "new1 @ new2"]) simp_all
qed

lemma bottom_loop_added:
  assumes fresh: "vec_at vecPatch (es_ix s) = Inr (es_iCurrentPatch s)"
    and run: "for_up (GetAInteriorBegin box) (GetAInteriorEnd box)
                (bottom_body opp G vecPatch box) s = Inr s'"
  shows "m_box (es_patch s') = m_box (es_patch s) \<and>
     (\<exists>new. m_connect (es_patch s') = m_connect (es_patch s) @ new \<and>
        list_all (\<lambda>nb. \<forall>d. is_corner d \<longrightarrow> \<not> standalone_corner box d nb) new)"
proof (rule for_up_added [where Inv = "\<lambda>i s. GetAInteriorBegin box \<le> i \<and>
          (i = GetAInteriorBegin box \<longrightarrow> vec_at vecPatch (es_ix s) = Inr (es_iCurrentPatch s))",
        OF _ _ run])
  show "GetAInteriorBegin box \<le> GetAInteriorBegin box \<and>
        (GetAInteriorBegin box = GetAInteriorBegin box \<longrightarrow>
           vec_at vecPatch (es_ix s) = Inr (es_iCurrentPatch s))"
    using fresh by simp
next
  fix i s s'
  assume inv: "GetAInteriorBegin box \<le> i \<and>
          (i = GetAInteriorBegin box \<longrightarrow> vec_at vecPatch (es_ix s) = Inr (es_iCurrentPatch s))"
    and b: "bottom_body opp G vecPatch box i s = Inr s'"
  have "m_box (es_patch s') = m_box (es_patch s) \<and>
     (\<exists>new. m_connect (es_patch s') = m_connect (es_patch s) @ new \<and>
        list_all (\<lambda>nb. \<forall>d. is_corner d \<longrightarrow> \<not> standalone_corner box d nb) new)"
    by (rule edge_step_added [OF b [unfolded bottom_body_def]])
       (use inv in \<open>auto simp: standalone_corner_def corner_element_def is_corner_def\<close>)
  then show "(GetAInteriorBegin box \<le> i + 1 \<and>
          (i + 1 = GetAInteriorBegin box \<longrightarrow> vec_at vecPatch (es_ix s') = Inr (es_iCurrentPatch s'))) \<and>
     m_box (es_patch s') = m_box (es_patch s) \<and>
     (\<exists>new. m_connect (es_patch s') = m_connect (es_patch s) @ new \<and>
        list_all (\<lambda>nb. \<forall>d. is_corner d \<longrightarrow> \<not> standalone_corner box d nb) new)"
    using inv by simp
qed


lemma right_loop_added:
  assumes fresh: "vec_at vecPatch (es_ix s) = Inr (es_iCurrentPatch s)"
    and run: "for_up (GetBInteriorBegin box) (GetBInteriorEnd box)
                (right_body opp G vecPatch box) s = Inr s'"
  shows "m_box (es_patch s') = m_box (es_patch s) \<and>
     (\<exists>new. m_connect (es_patch s') = m_connect (es_patch s) @ new \<and>
        list_all (\<lambda>nb. \<forall>d. is_corner d \<longrightarrow> \<not> standalone_corner box d nb) new)"
proof (rule for_up_added [where Inv = "\<lambda>i s. GetBInteriorBegin box \<le> i \<and>
          (i = GetBInteriorBegin box \<longrightarrow> vec_at vecPatch (es_ix s) = Inr (es_iCurrentPatch s))",
        OF _ _ run])
  show "GetBInteriorBegin box \<le> GetBInteriorBegin box \<and>
        (GetBInteriorBegin box = GetBInteriorBegin box \<longrightarrow>
           vec_at vecPatch (es_ix s) = Inr (es_iCurrentPatch s))"
    using fresh by simp
next
  fix i s s'
  assume inv: "GetBInteriorBegin box \<le> i \<and>
          (i = GetBInteriorBegin box \<longrightarrow> vec_at vecPatch (es_ix s) = Inr (es_iCurrentPatch s))"
    and b: "right_body opp G vecPatch box i s = Inr s'"
  have "m_box (es_patch s') = m_box (es_patch s) \<and>
     (\<exists>new. m_connect (es_patch s') = m_connect (es_patch s) @ new \<and>
        list_all (\<lambda>nb. \<forall>d. is_corner d \<longrightarrow> \<not> standalone_corner box d nb) new)"
    by (rule edge_step_added [OF b [unfolded right_body_def]])
       (use inv in \<open>auto simp: standalone_corner_def corner_element_def is_corner_def\<close>)
  then show "(GetBInteriorBegin box \<le> i + 1 \<and>
          (i + 1 = GetBInteriorBegin box \<longrightarrow> vec_at vecPatch (es_ix s') = Inr (es_iCurrentPatch s'))) \<and>
     m_box (es_patch s') = m_box (es_patch s) \<and>
     (\<exists>new. m_connect (es_patch s') = m_connect (es_patch s) @ new \<and>
        list_all (\<lambda>nb. \<forall>d. is_corner d \<longrightarrow> \<not> standalone_corner box d nb) new)"
    using inv by simp
qed

lemma top_loop_added:
  assumes fresh: "vec_at vecPatch (es_ix s) = Inr (es_iCurrentPatch s)"
    and run: "for_down (GetAInteriorEnd box - 1) (GetAInteriorBegin box - 1)
                (top_body opp G vecPatch box) s = Inr s'"
  shows "m_box (es_patch s') = m_box (es_patch s) \<and>
     (\<exists>new. m_connect (es_patch s') = m_connect (es_patch s) @ new \<and>
        list_all (\<lambda>nb. \<forall>d. is_corner d \<longrightarrow> \<not> standalone_corner box d nb) new)"
proof (rule for_down_added [where Inv = "\<lambda>i s. i \<le> GetAInteriorEnd box - 1 \<and>
          (i = GetAInteriorEnd box - 1 \<longrightarrow> vec_at vecPatch (es_ix s) = Inr (es_iCurrentPatch s))",
        OF _ _ run])
  show "GetAInteriorEnd box - 1 \<le> GetAInteriorEnd box - 1 \<and>
        (GetAInteriorEnd box - 1 = GetAInteriorEnd box - 1 \<longrightarrow>
           vec_at vecPatch (es_ix s) = Inr (es_iCurrentPatch s))"
    using fresh by simp
next
  fix i s s'
  assume inv: "i \<le> GetAInteriorEnd box - 1 \<and>
          (i = GetAInteriorEnd box - 1 \<longrightarrow> vec_at vecPatch (es_ix s) = Inr (es_iCurrentPatch s))"
    and b: "top_body opp G vecPatch box i s = Inr s'"
  have "m_box (es_patch s') = m_box (es_patch s) \<and>
     (\<exists>new. m_connect (es_patch s') = m_connect (es_patch s) @ new \<and>
        list_all (\<lambda>nb. \<forall>d. is_corner d \<longrightarrow> \<not> standalone_corner box d nb) new)"
    by (rule edge_step_added [OF b [unfolded top_body_def]])
       (use inv in \<open>auto simp: standalone_corner_def corner_element_def is_corner_def\<close>)
  then show "(i - 1 \<le> GetAInteriorEnd box - 1 \<and>
          (i - 1 = GetAInteriorEnd box - 1 \<longrightarrow> vec_at vecPatch (es_ix s') = Inr (es_iCurrentPatch s'))) \<and>
     m_box (es_patch s') = m_box (es_patch s) \<and>
     (\<exists>new. m_connect (es_patch s') = m_connect (es_patch s) @ new \<and>
        list_all (\<lambda>nb. \<forall>d. is_corner d \<longrightarrow> \<not> standalone_corner box d nb) new)"
    using inv by simp
qed

lemma left_loop_added:
  assumes fresh: "vec_at vecPatch (es_ix s) = Inr (es_iCurrentPatch s)"
    and run: "for_down (GetBInteriorEnd box - 1) (GetBInteriorBegin box - 1)
                (left_body opp G vecPatch box) s = Inr s'"
  shows "m_box (es_patch s') = m_box (es_patch s) \<and>
     (\<exists>new. m_connect (es_patch s') = m_connect (es_patch s) @ new \<and>
        list_all (\<lambda>nb. \<forall>d. is_corner d \<longrightarrow> \<not> standalone_corner box d nb) new)"
proof (rule for_down_added [where Inv = "\<lambda>i s. i \<le> GetBInteriorEnd box - 1 \<and>
          (i = GetBInteriorEnd box - 1 \<longrightarrow> vec_at vecPatch (es_ix s) = Inr (es_iCurrentPatch s))",
        OF _ _ run])
  show "GetBInteriorEnd box - 1 \<le> GetBInteriorEnd box - 1 \<and>
        (GetBInteriorEnd box - 1 = GetBInteriorEnd box - 1 \<longrightarrow>
           vec_at vecPatch (es_ix s) = Inr (es_iCurrentPatch s))"
    using fresh by simp
next
  fix i s s'
  assume inv: "i \<le> GetBInteriorEnd box - 1 \<and>
          (i = GetBInteriorEnd box - 1 \<longrightarrow> vec_at vecPatch (es_ix s) = Inr (es_iCurrentPatch s))"
    and b: "left_body opp G vecPatch box i s = Inr s'"
  have "m_box (es_patch s') = m_box (es_patch s) \<and>
     (\<exists>new. m_connect (es_patch s') = m_connect (es_patch s) @ new \<and>
        list_all (\<lambda>nb. \<forall>d. is_corner d \<longrightarrow> \<not> standalone_corner box d nb) new)"
    by (rule edge_step_added [OF b [unfolded left_body_def]])
       (use inv in \<open>auto simp: standalone_corner_def corner_element_def is_corner_def\<close>)
  then show "(i - 1 \<le> GetBInteriorEnd box - 1 \<and>
          (i - 1 = GetBInteriorEnd box - 1 \<longrightarrow> vec_at vecPatch (es_ix s') = Inr (es_iCurrentPatch s'))) \<and>
     m_box (es_patch s') = m_box (es_patch s) \<and>
     (\<exists>new. m_connect (es_patch s') = m_connect (es_patch s) @ new \<and>
        list_all (\<lambda>nb. \<forall>d. is_corner d \<longrightarrow> \<not> standalone_corner box d nb) new)"
    using inv by simp
qed

lemma edge_start_fresh:
  assumes "edge_start vecPatch ix f P = Inr st"
  shows "es_ix st = ix \<and> es_patch st = P \<and> vec_at vecPatch (es_ix st) = Inr (es_iCurrentPatch st)"
  using assms by (auto simp: edge_start_def bindE_Inr_iff)

lemma filter_not_standalone:
  assumes "list_all (\<lambda>nb. \<forall>d. is_corner d \<longrightarrow> \<not> standalone_corner box d nb) new" "is_corner d"
  shows "filter (standalone_corner box d) new = []"
  using assms by (induction new) auto


lemma connect_boundary_corners:
  assumes wA: "GetAInteriorBegin (m_box P) \<le> GetAInteriorEnd (m_box P)"
    and wB: "GetBInteriorBegin (m_box P) \<le> GetBInteriorEnd (m_box P)"
    and run: "connect_boundary opp G vecPatch P = Inr (ix, P')"
    and pos: "d = Direction_BottomLeft \<and> pos = 0 \<or>
              d = Direction_BottomRight \<and>
                pos = GetAInteriorEnd (m_box P) - GetAInteriorBegin (m_box P) + 1 \<or>
              d = Direction_TopRight \<and>
                pos = GetAInteriorEnd (m_box P) - GetAInteriorBegin (m_box P)
                      + (GetBInteriorEnd (m_box P) - GetBInteriorBegin (m_box P)) + 2 \<or>
              d = Direction_TopLeft \<and>
                pos = 2 * (GetAInteriorEnd (m_box P) - GetAInteriorBegin (m_box P))
                      + (GetBInteriorEnd (m_box P) - GetBInteriorBegin (m_box P)) + 3"
  shows "\<exists>added v. m_connect P' = m_connect P @ added \<and> vec_at vecPatch pos = Inr v \<and>
     (if v = InvalidIndex then filter (standalone_corner (m_box P) d) added = []
      else \<exists>S nb. patch_at G v = Inr S \<and>
             filter (standalone_corner (m_box P) d) added = [nb] \<and>
             nb_ixNeighbor nb = m_ixPatch S \<and>
             GetModelHaloElements (m_model G)
               \<le> GetAInteriorEnd (m_box P) - GetAInteriorBegin (m_box P) \<and>
             GetModelHaloElements (m_model G)
               \<le> GetBInteriorEnd (m_box P) - GetBInteriorBegin (m_box P))"
proof -
  let ?box = "m_box P"
  let ?R = "\<lambda>nb. \<forall>d. is_corner d \<longrightarrow> \<not> standalone_corner ?box d nb"
  let ?F = "\<lambda>d. filter (standalone_corner ?box d)"
  from run obtain P1 s0 s1 P2 s2 s3 P3 s4 s5 P4 s6 s7 where
    c0: "connect_corner opp G vecPatch Direction_BottomLeft 0 P = Inr P1"
    and e0: "edge_start vecPatch 1 (GetAInteriorBegin ?box) P1 = Inr s0"
    and l1: "for_up (GetAInteriorBegin ?box) (GetAInteriorEnd ?box)
               (bottom_body opp G vecPatch ?box) s0 = Inr s1"
    and c1: "connect_corner opp G vecPatch Direction_BottomRight (es_ix s1) (es_patch s1) = Inr P2"
    and e2: "edge_start vecPatch (es_ix s1 + 1) (GetBInteriorBegin ?box) P2 = Inr s2"
    and l3: "for_up (GetBInteriorBegin ?box) (GetBInteriorEnd ?box)
               (right_body opp G vecPatch ?box) s2 = Inr s3"
    and c2: "connect_corner opp G vecPatch Direction_TopRight (es_ix s3) (es_patch s3) = Inr P3"
    and e4: "edge_start vecPatch (es_ix s3 + 1) (GetAInteriorEnd ?box) P3 = Inr s4"
    and l5: "for_down (GetAInteriorEnd ?box - 1) (GetAInteriorBegin ?box - 1)
               (top_body opp G vecPatch ?box) s4 = Inr s5"
    and c3: "connect_corner opp G vecPatch Direction_TopLeft (es_ix s5) (es_patch s5) = Inr P4"
    and e6: "edge_start vecPatch (es_ix s5 + 1) (GetBInteriorEnd ?box) P4 = Inr s6"
    and l7: "for_down (GetBInteriorEnd ?box - 1) (GetBInteriorBegin ?box - 1)
               (left_body opp G vecPatch ?box) s6 = Inr s7"
    and fin: "P' = es_patch s7"
    unfolding connect_boundary_def Let_def bindE_def
    by (auto split: sum.splits)
  note f0 = edge_start_fresh [OF e0] and f2 = edge_start_fresh [OF e2]
    and f4 = edge_start_fresh [OF e4] and f6 = edge_start_fresh [OF e6]
  have i1: "es_ix s1 = es_ix s0 + (GetAInteriorEnd ?box - GetAInteriorBegin ?box)"
    by (rule for_up_ix [OF _ wA l1]) (auto simp: bottom_body_def dest: edge_step_ix)
  have i3: "es_ix s3 = es_ix s2 + (GetBInteriorEnd ?box - GetBInteriorBegin ?box)"
    by (rule for_up_ix [OF _ wB l3]) (auto simp: right_body_def dest: edge_step_ix)
  have wA': "GetAInteriorBegin ?box - 1 \<le> GetAInteriorEnd ?box - 1" using wA by simp
  have i5: "es_ix s5 = es_ix s4 + (GetAInteriorEnd ?box - 1 - (GetAInteriorBegin ?box - 1))"
    by (rule for_down_ix [OF _ wA' l5]) (auto simp: top_body_def dest: edge_step_ix)
  have p1: "es_ix s1 = GetAInteriorEnd ?box - GetAInteriorBegin ?box + 1"
    using i1 f0 by simp
  have p3: "es_ix s3 = GetAInteriorEnd ?box - GetAInteriorBegin ?box
                      + (GetBInteriorEnd ?box - GetBInteriorBegin ?box) + 2"
    using i3 f2 p1 by simp
  have p5: "es_ix s5 = 2 * (GetAInteriorEnd ?box - GetAInteriorBegin ?box)
                      + (GetBInteriorEnd ?box - GetBInteriorBegin ?box) + 3"
    using i5 f4 p3 by simp
  have cBL: "is_corner Direction_BottomLeft" and cBR: "is_corner Direction_BottomRight"
    and cTR: "is_corner Direction_TopRight" and cTL: "is_corner Direction_TopLeft"
    by (simp_all add: is_corner_def)
  from bottom_loop_added [OF conjunct2 [OF conjunct2 [OF f0]] l1] obtain n1 where
    b1: "m_box (es_patch s1) = m_box (es_patch s0)"
    and n1: "m_connect (es_patch s1) = m_connect (es_patch s0) @ n1" "list_all ?R n1"
    by blast
  from right_loop_added [OF conjunct2 [OF conjunct2 [OF f2]] l3] obtain n3 where
    b3: "m_box (es_patch s3) = m_box (es_patch s2)"
    and n3: "m_connect (es_patch s3) = m_connect (es_patch s2) @ n3" "list_all ?R n3"
    by blast
  from top_loop_added [OF conjunct2 [OF conjunct2 [OF f4]] l5] obtain n5 where
    b5: "m_box (es_patch s5) = m_box (es_patch s4)"
    and n5: "m_connect (es_patch s5) = m_connect (es_patch s4) @ n5" "list_all ?R n5"
    by blast
  from left_loop_added [OF conjunct2 [OF conjunct2 [OF f6]] l7] obtain n7 where
    b7: "m_box (es_patch s7) = m_box (es_patch s6)"
    and n7: "m_connect (es_patch s7) = m_connect (es_patch s6) @ n7" "list_all ?R n7"
    by blast
  let ?ok = "\<lambda>dk v c. (\<forall>d. d \<noteq> dk \<longrightarrow> ?F d c = []) \<and>
     (if v = InvalidIndex then c = []
      else \<exists>S nb. patch_at G v = Inr S \<and> c = [nb] \<and> standalone_corner ?box dk nb \<and>
             nb_ixNeighbor nb = m_ixPatch S \<and>
             GetModelHaloElements (m_model G)
               \<le> GetAInteriorEnd ?box - GetAInteriorBegin ?box \<and>
             GetModelHaloElements (m_model G)
               \<le> GetBInteriorEnd ?box - GetBInteriorBegin ?box)"
  from connect_corner_filter [OF cBL c0] obtain v0 k0 where
    v0: "vec_at vecPatch 0 = Inr v0" and k0: "m_connect P1 = m_connect P @ k0"
    and x0: "m_box P1 = ?box" and o0: "?ok Direction_BottomLeft v0 k0"
    by blast
  have bx1: "m_box (es_patch s1) = ?box" using b1 f0 x0 by simp
  from connect_corner_filter [OF cBR c1] obtain v1 k1 where
    v1: "vec_at vecPatch (es_ix s1) = Inr v1" and k1: "m_connect P2 = m_connect (es_patch s1) @ k1"
    and x1: "m_box P2 = ?box" and o1: "?ok Direction_BottomRight v1 k1"
    unfolding bx1 by blast
  have bx3: "m_box (es_patch s3) = ?box" using b3 f2 x1 by simp
  from connect_corner_filter [OF cTR c2] obtain v2 k2 where
    v2: "vec_at vecPatch (es_ix s3) = Inr v2" and k2: "m_connect P3 = m_connect (es_patch s3) @ k2"
    and x2: "m_box P3 = ?box" and o2: "?ok Direction_TopRight v2 k2"
    unfolding bx3 by blast
  have bx5: "m_box (es_patch s5) = ?box" using b5 f4 x2 by simp
  from connect_corner_filter [OF cTL c3] obtain v3 k3 where
    v3: "vec_at vecPatch (es_ix s5) = Inr v3" and k3: "m_connect P4 = m_connect (es_patch s5) @ k3"
    and x3: "m_box P4 = ?box" and o3: "?ok Direction_TopLeft v3 k3"
    unfolding bx5 by blast
  let ?added = "k0 @ n1 @ k1 @ n3 @ k2 @ n5 @ k3 @ n7"
  have all: "m_connect P' = m_connect P @ ?added"
    using fin n7 f6 k3 n5 f4 k2 n3 f2 k1 n1 f0 k0 by simp
  have corner: "is_corner d" using pos by (auto simp: is_corner_def)
  have z1: "?F d n1 = []" by (rule filter_not_standalone [OF n1(2) corner])
  have z3: "?F d n3 = []" by (rule filter_not_standalone [OF n3(2) corner])
  have z5: "?F d n5 = []" by (rule filter_not_standalone [OF n5(2) corner])
  have z7: "?F d n7 = []" by (rule filter_not_standalone [OF n7(2) corner])
  have own: "?F dk c = c" if "?ok dk v c" for dk v c
    using that by (auto split: if_splits)
  consider (bl) "d = Direction_BottomLeft" "pos = 0"
    | (br) "d = Direction_BottomRight" "pos = es_ix s1"
    | (tr) "d = Direction_TopRight" "pos = es_ix s3"
    | (tl) "d = Direction_TopLeft" "pos = es_ix s5"
    using pos p1 p3 p5 by auto
  then show ?thesis
  proof cases
    case bl
    have "?F d ?added = k0"
      using z1 z3 z5 z7 own [OF o0] o1 o2 o3 bl(1) by simp
    then show ?thesis
      using all v0 o0 bl by (intro exI [of _ ?added] exI [of _ v0]) (auto split: if_splits)
  next
    case br
    have "?F d ?added = k1"
      using z1 z3 z5 z7 own [OF o1] o0 o2 o3 br(1) by simp
    then show ?thesis
      using all v1 o1 br by (intro exI [of _ ?added] exI [of _ v1]) (auto split: if_splits)
  next
    case tr
    have "?F d ?added = k2"
      using z1 z3 z5 z7 own [OF o2] o0 o1 o3 tr(1) by simp
    then show ?thesis
      using all v2 o2 tr by (intro exI [of _ ?added] exI [of _ v2]) (auto split: if_splits)
  next
    case tl
    have "?F d ?added = k3"
      using z1 z3 z5 z7 own [OF o3] o0 o1 o2 tl(1) by simp
    then show ?thesis
      using all v3 o3 tl by (intro exI [of _ ?added] exI [of _ v3]) (auto split: if_splits)
  qed
qed


lemma vec_at_split:
  "xs = pre @ c # rest \<Longrightarrow> int (length pre) = pos \<Longrightarrow> vec_at (map f xs) pos = Inr (f c)"
  by (auto simp: vec_at_def nth_append)

lemma boundary_samples_corner:
  assumes wA: "GetAGlobalInteriorBegin box \<le> GetAGlobalInteriorEnd box"
    and wB: "GetBGlobalInteriorBegin box \<le> GetBGlobalInteriorEnd box"
    and pos: "d = Direction_BottomLeft \<and> pos = 0 \<or>
              d = Direction_BottomRight \<and>
                pos = GetAGlobalInteriorEnd box - GetAGlobalInteriorBegin box + 1 \<or>
              d = Direction_TopRight \<and>
                pos = GetAGlobalInteriorEnd box - GetAGlobalInteriorBegin box
                      + (GetBGlobalInteriorEnd box - GetBGlobalInteriorBegin box) + 2 \<or>
              d = Direction_TopLeft \<and>
                pos = 2 * (GetAGlobalInteriorEnd box - GetAGlobalInteriorBegin box)
                      + (GetBGlobalInteriorEnd box - GetBGlobalInteriorBegin box) + 3"
  shows "vec_at (map f (boundary_samples box)) pos = Inr (f (corner_sample box d))"
proof -
  let ?c0 = "(GetAGlobalInteriorBegin box - 1, GetBGlobalInteriorBegin box - 1, GetPanel box)"
  let ?e1 = "map (\<lambda>i. (i, GetBGlobalInteriorBegin box - 1, GetPanel box))
         [GetAGlobalInteriorBegin box .. GetAGlobalInteriorEnd box - 1]"
  let ?c1 = "(GetAGlobalInteriorEnd box, GetBGlobalInteriorBegin box - 1, GetPanel box)"
  let ?e2 = "map (\<lambda>j. (GetAGlobalInteriorEnd box, j, GetPanel box))
         [GetBGlobalInteriorBegin box .. GetBGlobalInteriorEnd box - 1]"
  let ?c2 = "(GetAGlobalInteriorEnd box, GetBGlobalInteriorEnd box, GetPanel box)"
  let ?e3 = "map (\<lambda>i. (i, GetBGlobalInteriorEnd box, GetPanel box))
         (rev [GetAGlobalInteriorBegin box .. GetAGlobalInteriorEnd box - 1])"
  let ?c3 = "(GetAGlobalInteriorBegin box - 1, GetBGlobalInteriorEnd box, GetPanel box)"
  let ?e4 = "map (\<lambda>j. (GetAGlobalInteriorBegin box - 1, j, GetPanel box))
         (rev [GetBGlobalInteriorBegin box .. GetBGlobalInteriorEnd box - 1])"
  consider (bl) "d = Direction_BottomLeft" "pos = 0"
    | (br) "d = Direction_BottomRight"
           "pos = GetAGlobalInteriorEnd box - GetAGlobalInteriorBegin box + 1"
    | (tr) "d = Direction_TopRight"
           "pos = GetAGlobalInteriorEnd box - GetAGlobalInteriorBegin box
                      + (GetBGlobalInteriorEnd box - GetBGlobalInteriorBegin box) + 2"
    | (tl) "d = Direction_TopLeft"
           "pos = 2 * (GetAGlobalInteriorEnd box - GetAGlobalInteriorBegin box)
                      + (GetBGlobalInteriorEnd box - GetBGlobalInteriorBegin box) + 3"
    using pos by auto
  then show ?thesis
  proof cases
    case bl
    show ?thesis
      by (rule vec_at_split [where pre = "[]"
            and rest = "?e1 @ [?c1] @ ?e2 @ [?c2] @ ?e3 @ [?c3] @ ?e4"])
         (simp_all add: boundary_samples_def corner_sample_def bl)
  next
    case br
    show ?thesis
      by (rule vec_at_split [where pre = "[?c0] @ ?e1"
            and rest = "?e2 @ [?c2] @ ?e3 @ [?c3] @ ?e4"])
         (use wA wB in \<open>simp_all add: boundary_samples_def corner_sample_def br\<close>)
  next
    case tr
    show ?thesis
      by (rule vec_at_split [where pre = "[?c0] @ ?e1 @ [?c1] @ ?e2"
            and rest = "?e3 @ [?c3] @ ?e4"])
         (use wA wB in \<open>simp_all add: boundary_samples_def corner_sample_def tr\<close>)
  next
    case tl
    show ?thesis
      by (rule vec_at_split [where pre = "[?c0] @ ?e1 @ [?c1] @ ?e2 @ [?c2] @ ?e3"
            and rest = "?e4"])
         (use wA wB in \<open>simp_all add: boundary_samples_def corner_sample_def tl\<close>)
  qed
qed

lemma vec_at_errors: "e \<noteq> UncheckedAccess \<Longrightarrow> vec_at xs i \<noteq> Inl e"
  by (simp add: vec_at_def)

lemma patch_at_errors: "e \<noteq> UncheckedAccess \<Longrightarrow> patch_at G i \<noteq> Inl e"
  by (simp add: patch_at_def vec_at_errors)

lemma ExteriorConnect_errors:
  "e \<noteq> Exception ''Insufficient interior elements to build diagonal connection.'' \<Longrightarrow>
   ExteriorConnect opp G P d S a b \<noteq> Inl e"
  by (cases S) (simp_all add: ExteriorConnect_def Let_def split: prod.splits)

lemma ExteriorConnect_dir_errors:
  "is_corner d \<Longrightarrow>
   e \<noteq> Exception ''Insufficient interior elements to build diagonal connection.'' \<Longrightarrow>
   ExteriorConnect_dir opp G P d S \<noteq> Inl e"
  by (auto simp: ExteriorConnect_dir_def ExteriorConnect_errors is_corner_def)

lemma connect_corner_errors:
  assumes "is_corner d"
    and "e \<noteq> Exception ''Insufficient interior elements to build diagonal connection.''"
    and "e \<noteq> UncheckedAccess"
  shows "connect_corner opp G vecPatch d ix P \<noteq> Inl e"
  unfolding connect_corner_def Connectivity_ExteriorConnect_dir_def
  by (intro bindE_neq vec_at_errors assms)
     (simp add: bindE_neq patch_at_errors ExteriorConnect_dir_errors assms)

lemma edge_start_errors:
  "e \<noteq> UncheckedAccess \<Longrightarrow> edge_start vecPatch ix f P \<noteq> Inl e"
  unfolding edge_start_def by (intro bindE_neq vec_at_errors) simp_all

lemma edge_step_errors:
  assumes "e \<noteq> Exception ''Insufficient interior elements to build diagonal connection.''"
    and "e \<noteq> UncheckedAccess"
  shows "edge_step opp G vecPatch atEnd dE aE dO aO dN aN fN st \<noteq> Inl e"
  unfolding edge_step_def Connectivity_ExteriorConnect_def
  by (intro bindE_neq)
     (simp_all add: bindE_neq vec_at_errors patch_at_errors ExteriorConnect_errors assms)

lemma connect_boundary_errors:
  assumes "e \<noteq> Exception ''Insufficient interior elements to build diagonal connection.''"
    and "e \<noteq> UncheckedAccess"
  shows "connect_boundary opp G vecPatch P \<noteq> Inl e"
  unfolding connect_boundary_def Let_def
  by (intro bindE_neq connect_corner_errors edge_start_errors for_up_neq for_down_neq assms)
     (simp_all add: bottom_body_def right_body_def top_body_def left_body_def
        edge_step_errors assms is_corner_def)


lemma InitializeConnectivity_patch_Inr:
  assumes "InitializeConnectivity_patch opp resolve G P = Inr P'"
  shows "\<exists>ix. connect_boundary opp G
            (map (\<lambda>(ixA, ixB, panel). resolve (GetRefinementLevel (m_box P)) ixA ixB panel)
               (boundary_samples (m_box P))) P = Inr (ix, P')"
  using assms
  by (auto simp: InitializeConnectivity_patch_def Let_def bindE_Inr_iff split: if_splits)

lemma InitializeConnectivity_patch_errors:
  assumes wf: "PatchBox_wf (m_box P)"
    and e: "InitializeConnectivity_patch opp resolve G P = Inl e"
  shows "e = Exception ''Insufficient interior elements to build diagonal connection.'' \<or>
         e = UncheckedAccess"
proof -
  let ?box = "m_box P"
  let ?vp = "map (\<lambda>(ixA, ixB, panel). resolve (GetRefinementLevel ?box) ixA ixB panel)
               (boundary_samples ?box)"
  have gA: "GetAGlobalInteriorBegin ?box \<le> GetAGlobalInteriorEnd ?box"
    and gB: "GetBGlobalInteriorBegin ?box \<le> GetBGlobalInteriorEnd ?box"
    and lA: "GetAInteriorBegin ?box \<le> GetAInteriorEnd ?box"
    and lB: "GetBInteriorBegin ?box \<le> GetBInteriorEnd ?box"
    and per: "GetInteriorPerimeter ?box =
        2 * (GetAInteriorEnd ?box - GetAInteriorBegin ?box)
        + 2 * (GetBInteriorEnd ?box - GetBInteriorBegin ?box)"
    and gper: "GetInteriorPerimeter ?box =
        2 * (GetAGlobalInteriorEnd ?box - GetAGlobalInteriorBegin ?box)
        + 2 * (GetBGlobalInteriorEnd ?box - GetBGlobalInteriorBegin ?box)"
    using wf by (simp_all add: PatchBox_wf_def)
  have gen: "int (length (boundary_samples ?box)) = GetInteriorPerimeter ?box + 4"
    using boundary_samples_length [OF gA gB] gper by simp
  show ?thesis
  proof (cases "connect_boundary opp G ?vp P")
    case (Inl e')
    then have "e' = e" using e gen
      by (simp add: InitializeConnectivity_patch_def Let_def bindE_def)
    then show ?thesis using Inl connect_boundary_errors [of e opp G ?vp P] by auto
  next
    case (Inr r)
    obtain ix P' where r: "r = (ix, P')" by (cases r)
    have "ix = GetInteriorPerimeter ?box + 4"
      using connect_boundary_ix [OF lA lB Inr [unfolded r]] per by simp
    then show ?thesis using Inr r gen e
      by (simp add: InitializeConnectivity_patch_def Let_def bindE_def)
  qed
qed

lemma InitializeConnectivity_patch_narrow:
  assumes wf: "PatchBox_wf (m_box P)"
    and ok: "\<forall>(ixA, ixB, panel) \<in> set (boundary_samples (m_box P)).
               0 \<le> resolve (GetRefinementLevel (m_box P)) ixA ixB panel \<and>
               resolve (GetRefinementLevel (m_box P)) ixA ixB panel
                 < int (length (m_vecGridPatches G))"
    and small: "GetAInteriorEnd (m_box P) - GetAInteriorBegin (m_box P)
                  < GetModelHaloElements (m_model G) \<or>
                GetBInteriorEnd (m_box P) - GetBInteriorBegin (m_box P)
                  < GetModelHaloElements (m_model G)"
  shows "InitializeConnectivity_patch opp resolve G P =
           Inl (Exception ''Insufficient interior elements to build diagonal connection.'')"
proof -
  let ?box = "m_box P"
  let ?f = "\<lambda>(ixA, ixB, panel). resolve (GetRefinementLevel ?box) ixA ixB panel"
  let ?vp = "map ?f (boundary_samples ?box)"
  let ?v = "?f (corner_sample ?box Direction_BottomLeft)"
  have gA: "GetAGlobalInteriorBegin ?box \<le> GetAGlobalInteriorEnd ?box"
    and gB: "GetBGlobalInteriorBegin ?box \<le> GetBGlobalInteriorEnd ?box"
    and gper: "GetInteriorPerimeter ?box =
        2 * (GetAGlobalInteriorEnd ?box - GetAGlobalInteriorBegin ?box)
        + 2 * (GetBGlobalInteriorEnd ?box - GetBGlobalInteriorBegin ?box)"
    using wf by (simp_all add: PatchBox_wf_def)
  have gen: "int (length (boundary_samples ?box)) = GetInteriorPerimeter ?box + 4"
    using boundary_samples_length [OF gA gB] gper by simp
  have v: "vec_at ?vp 0 = Inr ?v"
    by (rule boundary_samples_corner [OF gA gB]) simp
  have "corner_sample ?box Direction_BottomLeft \<in> set (boundary_samples ?box)"
    by (simp add: boundary_samples_def corner_sample_def)
  then have r: "0 \<le> ?v \<and> ?v < int (length (m_vecGridPatches G))"
    using ok by (fastforce split: prod.splits)
  then have ne: "?v \<noteq> InvalidIndex" by (simp add: InvalidIndex_def)
  have S: "patch_at G ?v = Inr (m_vecGridPatches G ! nat ?v)"
    using r by (simp add: patch_at_def vec_at_def)
  have c: "is_corner Direction_BottomLeft" by (simp add: is_corner_def)
  have "connect_corner opp G ?vp Direction_BottomLeft 0 P =
          Inl (Exception ''Insufficient interior elements to build diagonal connection.'')"
    using ne ExteriorConnect_insufficient [OF c small, of opp "m_vecGridPatches G ! nat ?v"]
    by (simp add: connect_corner_def v S bindE_def Connectivity_ExteriorConnect_dir_def)
  then have "connect_boundary opp G ?vp P =
          Inl (Exception ''Insufficient interior elements to build diagonal connection.'')"
    by (simp add: connect_boundary_def Let_def bindE_def)
  then show ?thesis using gen
    by (simp add: InitializeConnectivity_patch_def Let_def bindE_def)
qed

text \<open>
  Claim C5, as the code has it. In the pass of \<open>Grid::InitializeConnectivity\<close> over a
  patch with a well-formed box, each corner block looks only at the patch its own sample
  resolved to: the sample the traversal wrote for that corner. When the pass completes,
  the relations it has added to the patch hold a standalone relation for the corner (a
  neighbour in the corner's direction at the corner element) exactly when that sample
  did not resolve to \<open>InvalidIndex\<close>, and then exactly one, to the patch the sample
  resolved to; the patch then has at least the halo width of interior elements along
  both axes. The samples of the adjacent edges are arbitrary in the statement: whether
  they resolve to the same patch as the corner makes no difference. When the corner
  sample resolves to a patch and the patch has fewer interior elements than the halo
  width along an axis, the pass does not complete: it ends in the exception
  \<open>Insufficient interior elements to build diagonal connection.\<close>, or in an unchecked
  access (to the patch vector, for a sample that resolved to no patch of the grid); it
  ends in the exception when every sample resolved to a patch of the grid.
\<close>

theorem corner_relation_emitted_iff_valid:
  assumes wf: "PatchBox_wf (m_box P)" and corner: "is_corner d"
  shows "(\<forall>P'. InitializeConnectivity_patch opp resolve G P = Inr P' \<longrightarrow>
           (\<exists>added. m_connect P' = m_connect P @ added \<and>
              (if corner_patch resolve (m_box P) d = InvalidIndex
               then filter (standalone_corner (m_box P) d) added = []
               else \<exists>S nb. patch_at G (corner_patch resolve (m_box P) d) = Inr S \<and>
                      filter (standalone_corner (m_box P) d) added = [nb] \<and>
                      nb_ixNeighbor nb = m_ixPatch S \<and>
                      GetModelHaloElements (m_model G)
                        \<le> GetAInteriorEnd (m_box P) - GetAInteriorBegin (m_box P) \<and>
                      GetModelHaloElements (m_model G)
                        \<le> GetBInteriorEnd (m_box P) - GetBInteriorBegin (m_box P))))
       \<and> (corner_patch resolve (m_box P) d \<noteq> InvalidIndex \<and>
            (GetAInteriorEnd (m_box P) - GetAInteriorBegin (m_box P)
               < GetModelHaloElements (m_model G) \<or>
             GetBInteriorEnd (m_box P) - GetBInteriorBegin (m_box P)
               < GetModelHaloElements (m_model G)) \<longrightarrow>
            InitializeConnectivity_patch opp resolve G P =
              Inl (Exception ''Insufficient interior elements to build diagonal connection.'') \<or>
            InitializeConnectivity_patch opp resolve G P = Inl UncheckedAccess)
       \<and> ((\<forall>(ixA, ixB, panel) \<in> set (boundary_samples (m_box P)).
               0 \<le> resolve (GetRefinementLevel (m_box P)) ixA ixB panel \<and>
               resolve (GetRefinementLevel (m_box P)) ixA ixB panel
                 < int (length (m_vecGridPatches G))) \<and>
            (GetAInteriorEnd (m_box P) - GetAInteriorBegin (m_box P)
               < GetModelHaloElements (m_model G) \<or>
             GetBInteriorEnd (m_box P) - GetBInteriorBegin (m_box P)
               < GetModelHaloElements (m_model G)) \<longrightarrow>
            InitializeConnectivity_patch opp resolve G P =
              Inl (Exception ''Insufficient interior elements to build diagonal connection.''))"
proof -
  let ?box = "m_box P"
  let ?f = "\<lambda>(ixA, ixB, panel). resolve (GetRefinementLevel ?box) ixA ixB panel"
  let ?vp = "map ?f (boundary_samples ?box)"
  let ?wA = "GetAInteriorEnd ?box - GetAInteriorBegin ?box"
  let ?wB = "GetBInteriorEnd ?box - GetBInteriorBegin ?box"
  have gA: "GetAGlobalInteriorBegin ?box \<le> GetAGlobalInteriorEnd ?box"
    and gB: "GetBGlobalInteriorBegin ?box \<le> GetBGlobalInteriorEnd ?box"
    and lA: "GetAInteriorBegin ?box \<le> GetAInteriorEnd ?box"
    and lB: "GetBInteriorBegin ?box \<le> GetBInteriorEnd ?box"
    and eA: "?wA = GetAGlobalInteriorEnd ?box - GetAGlobalInteriorBegin ?box"
    and eB: "?wB = GetBGlobalInteriorEnd ?box - GetBGlobalInteriorBegin ?box"
    using wf by (simp_all add: PatchBox_wf_def)
  define pos where "pos =
     (if d = Direction_BottomLeft then 0
      else if d = Direction_BottomRight then ?wA + 1
      else if d = Direction_TopRight then ?wA + ?wB + 2
      else 2 * ?wA + ?wB + 3)"
  have posL: "d = Direction_BottomLeft \<and> pos = 0 \<or>
              d = Direction_BottomRight \<and> pos = ?wA + 1 \<or>
              d = Direction_TopRight \<and> pos = ?wA + ?wB + 2 \<or>
              d = Direction_TopLeft \<and> pos = 2 * ?wA + ?wB + 3"
    using corner by (auto simp: pos_def is_corner_def)
  have posG: "d = Direction_BottomLeft \<and> pos = 0 \<or>
              d = Direction_BottomRight \<and>
                pos = GetAGlobalInteriorEnd ?box - GetAGlobalInteriorBegin ?box + 1 \<or>
              d = Direction_TopRight \<and>
                pos = GetAGlobalInteriorEnd ?box - GetAGlobalInteriorBegin ?box
                      + (GetBGlobalInteriorEnd ?box - GetBGlobalInteriorBegin ?box) + 2 \<or>
              d = Direction_TopLeft \<and>
                pos = 2 * (GetAGlobalInteriorEnd ?box - GetAGlobalInteriorBegin ?box)
                      + (GetBGlobalInteriorEnd ?box - GetBGlobalInteriorBegin ?box) + 3"
    using posL unfolding eA eB .
  have sample: "vec_at ?vp pos = Inr (corner_patch resolve ?box d)"
    using boundary_samples_corner [OF gA gB posG, of ?f]
    by (simp add: corner_patch_def)
  have emitted: "\<exists>added. m_connect P' = m_connect P @ added \<and>
              (if corner_patch resolve ?box d = InvalidIndex
               then filter (standalone_corner ?box d) added = []
               else \<exists>S nb. patch_at G (corner_patch resolve ?box d) = Inr S \<and>
                      filter (standalone_corner ?box d) added = [nb] \<and>
                      nb_ixNeighbor nb = m_ixPatch S \<and>
                      GetModelHaloElements (m_model G) \<le> ?wA \<and>
                      GetModelHaloElements (m_model G) \<le> ?wB)"
    if run: "InitializeConnectivity_patch opp resolve G P = Inr P'" for P'
  proof -
    from InitializeConnectivity_patch_Inr [OF run] obtain ix where
      cb: "connect_boundary opp G ?vp P = Inr (ix, P')" by blast
    from connect_boundary_corners [OF lA lB cb posL] obtain added v where
      a: "m_connect P' = m_connect P @ added" and v: "vec_at ?vp pos = Inr v"
      and r: "if v = InvalidIndex then filter (standalone_corner ?box d) added = []
        else \<exists>S nb. patch_at G v = Inr S \<and>
             filter (standalone_corner ?box d) added = [nb] \<and>
             nb_ixNeighbor nb = m_ixPatch S \<and>
             GetModelHaloElements (m_model G) \<le> ?wA \<and>
             GetModelHaloElements (m_model G) \<le> ?wB"
      by blast
    have "v = corner_patch resolve ?box d" using v sample by simp
    then show ?thesis using a r by blast
  qed
  have fatal: "InitializeConnectivity_patch opp resolve G P =
              Inl (Exception ''Insufficient interior elements to build diagonal connection.'') \<or>
            InitializeConnectivity_patch opp resolve G P = Inl UncheckedAccess"
    if valid: "corner_patch resolve ?box d \<noteq> InvalidIndex"
      and small: "?wA < GetModelHaloElements (m_model G) \<or> ?wB < GetModelHaloElements (m_model G)"
  proof (cases "InitializeConnectivity_patch opp resolve G P")
    case (Inl e)
    from InitializeConnectivity_patch_errors [OF wf Inl] show ?thesis using Inl by auto
  next
    case (Inr P')
    from emitted [OF Inr] valid small show ?thesis by auto
  qed
  have narrow: "InitializeConnectivity_patch opp resolve G P =
              Inl (Exception ''Insufficient interior elements to build diagonal connection.'')"
    if "\<forall>(ixA, ixB, panel) \<in> set (boundary_samples ?box).
               0 \<le> resolve (GetRefinementLevel ?box) ixA ixB panel \<and>
               resolve (GetRefinementLevel ?box) ixA ixB panel
                 < int (length (m_vecGridPatches G))"
      and "?wA < GetModelHaloElements (m_model G) \<or> ?wB < GetModelHaloElements (m_model G)"
    by (rule InitializeConnectivity_patch_narrow [where resolve = resolve and G = G, OF wf that])
  show ?thesis
  proof (intro conjI allI impI)
    fix P' assume "InitializeConnectivity_patch opp resolve G P = Inr P'"
    then show "\<exists>added. m_connect P' = m_connect P @ added \<and>
              (if corner_patch resolve ?box d = InvalidIndex
               then filter (standalone_corner ?box d) added = []
               else \<exists>S nb. patch_at G (corner_patch resolve ?box d) = Inr S \<and>
                      filter (standalone_corner ?box d) added = [nb] \<and>
                      nb_ixNeighbor nb = m_ixPatch S \<and>
                      GetModelHaloElements (m_model G) \<le> ?wA \<and>
                      GetModelHaloElements (m_model G) \<le> ?wB)"
      by (rule emitted)
  next
    assume "corner_patch resolve ?box d \<noteq> InvalidIndex \<and>
            (?wA < GetModelHaloElements (m_model G) \<or> ?wB < GetModelHaloElements (m_model G))"
    then show "InitializeConnectivity_patch opp resolve G P =
              Inl (Exception ''Insufficient interior elements to build diagonal connection.'') \<or>
            InitializeConnectivity_patch opp resolve G P = Inl UncheckedAccess"
      using fatal by blast
  next
    assume "(\<forall>(ixA, ixB, panel) \<in> set (boundary_samples ?box).
               0 \<le> resolve (GetRefinementLevel ?box) ixA ixB panel \<and>
               resolve (GetRefinementLevel ?box) ixA ixB panel
                 < int (length (m_vecGridPatches G))) \<and>
            (?wA < GetModelHaloElements (m_model G) \<or> ?wB < GetModelHaloElements (m_model G))"
    then show "InitializeConnectivity_patch opp resolve G P =
              Inl (Exception ''Insufficient interior elements to build diagonal connection.'')"
      using narrow by blast
  qed
qed


text \<open>
  The definitions that evaluate the pass on the small grid.
\<close>

lemmas conn_eval = InitializeConnectivity_patch_def connect_boundary_def connect_corner_def
  edge_start_def edge_step_def bottom_body_def right_body_def top_body_def left_body_def
  for_up.simps for_down.simps Connectivity_ExteriorConnect_def Connectivity_ExteriorConnect_dir_def
  ExteriorConnect_def ExteriorConnect_dir_def patch_at_def vec_at_def bindE_def Let_def
  boundary_samples_def small_grid_def small_patch_def GridPatch_new_def PatchBox_new_def
  example_model_def same_panel_opposing_def InvalidIndex_def upto.simps

text \<open>
  A patch of 3 by 2 interior elements: perimeter 10, 14 samples, and the consumption pass
  ends with \<open>ix = 14\<close>.
\<close>

theorem boundary_traversal_index_count_witness:
  "PatchBox_wf (m_box (small_patch 0))
   \<and> GetInteriorPerimeter (m_box (small_patch 0)) = 10
   \<and> int (length (boundary_samples (m_box (small_patch 0)))) = 14
   \<and> (case connect_boundary same_panel_opposing small_grid (replicate 14 1) (small_patch 0) of
         Inl e \<Rightarrow> False | Inr (ix, P') \<Rightarrow> ix = 14)
   \<and> InitializeConnectivity_patch same_panel_opposing (\<lambda>level ixA ixB panel. 1)
         small_grid (small_patch 0) \<noteq> Inl (Exception ''Index mismatch'')"
proof -
  have wf: "PatchBox_wf (m_box (small_patch 0))"
    by (simp add: PatchBox_wf_def small_patch_def GridPatch_new_def PatchBox_new_def)
  have per: "GetInteriorPerimeter (m_box (small_patch 0)) = 10"
    by (simp add: small_patch_def GridPatch_new_def PatchBox_new_def)
  have run: "(case connect_boundary same_panel_opposing small_grid (replicate 14 1) (small_patch 0) of
         Inl e \<Rightarrow> False | Inr (ix, P') \<Rightarrow> ix = 14)"
    by (simp add: conn_eval numeral_eq_Suc)
  from boundary_traversal_index_count [OF wf, of same_panel_opposing small_grid
      "\<lambda>level ixA ixB panel. 1"]
  show ?thesis using wf per run by simp
qed


text \<open>
  The first small patch with a resolver that finds no patch at the bottom-left and the
  top-right corner and patch 1 at every other sample: the pass completes, with no
  standalone relation at the bottom-left corner and one, to patch 1, at the bottom-right
  corner. The narrow patch, 1 by 2 interior elements with a halo of 2, in a grid of two
  patches, with patch 1 at every sample: the pass ends in the exception.
\<close>

theorem corner_relation_emitted_iff_valid_witness:
  "PatchBox_wf (m_box (small_patch 0))
   \<and> corner_patch two_corner_resolver (m_box (small_patch 0)) Direction_BottomLeft = InvalidIndex
   \<and> corner_patch two_corner_resolver (m_box (small_patch 0)) Direction_BottomRight = 1
   \<and> (\<exists>P'. InitializeConnectivity_patch same_panel_opposing two_corner_resolver
              small_grid (small_patch 0) = Inr P'
         \<and> filter (standalone_corner (m_box (small_patch 0)) Direction_BottomLeft)
              (m_connect P') = []
         \<and> map nb_ixNeighbor
              (filter (standalone_corner (m_box (small_patch 0)) Direction_BottomRight)
                 (m_connect P')) = [1])
   \<and> PatchBox_wf (m_box narrow_patch)
   \<and> corner_patch (\<lambda>level ixA ixB panel. 1) (m_box narrow_patch) Direction_BottomLeft = 1
   \<and> int (length (m_vecGridPatches narrow_grid)) = 2
   \<and> GetAInteriorEnd (m_box narrow_patch) - GetAInteriorBegin (m_box narrow_patch)
       < GetModelHaloElements (m_model narrow_grid)
   \<and> InitializeConnectivity_patch same_panel_opposing (\<lambda>level ixA ixB panel. 1)
         narrow_grid narrow_patch =
       Inl (Exception ''Insufficient interior elements to build diagonal connection.'')"
proof -
  let ?box = "m_box (small_patch 0)"
  have wf: "PatchBox_wf ?box"
    by (simp add: PatchBox_wf_def small_patch_def GridPatch_new_def PatchBox_new_def)
  have cBL: "is_corner Direction_BottomLeft" and cBR: "is_corner Direction_BottomRight"
    by (simp_all add: is_corner_def)
  have vBL: "corner_patch two_corner_resolver ?box Direction_BottomLeft = InvalidIndex"
    by (simp add: corner_patch_def corner_sample_def two_corner_resolver_def
        small_patch_def GridPatch_new_def PatchBox_new_def)
  have vBR: "corner_patch two_corner_resolver ?box Direction_BottomRight = 1"
    by (simp add: corner_patch_def corner_sample_def two_corner_resolver_def
        small_patch_def GridPatch_new_def PatchBox_new_def)
  have ne: "(1::int) \<noteq> InvalidIndex" by (simp add: InvalidIndex_def)
  have p1: "patch_at small_grid 1 = Inr (small_patch 1)"
    by (simp add: patch_at_def vec_at_def small_grid_def)
  have i1: "m_ixPatch (small_patch 1) = 1"
    by (simp add: small_patch_def GridPatch_new_def)
  have c0: "m_connect (small_patch 0) = []"
    by (simp add: small_patch_def GridPatch_new_def)
  have "case InitializeConnectivity_patch same_panel_opposing two_corner_resolver
              small_grid (small_patch 0) of Inl e \<Rightarrow> False | Inr P' \<Rightarrow> True"
    by (simp add: conn_eval two_corner_resolver_def numeral_eq_Suc)
  then obtain P' where run: "InitializeConnectivity_patch same_panel_opposing two_corner_resolver
              small_grid (small_patch 0) = Inr P'"
    by (auto split: sum.splits)
  from corner_relation_emitted_iff_valid [OF wf cBL, of same_panel_opposing two_corner_resolver
         small_grid, THEN conjunct1, rule_format, OF run]
  have a: "filter (standalone_corner ?box Direction_BottomLeft) (m_connect P') = []"
    unfolding vBL c0 by auto
  from corner_relation_emitted_iff_valid [OF wf cBR, of same_panel_opposing two_corner_resolver
         small_grid, THEN conjunct1, rule_format, OF run]
  have b: "map nb_ixNeighbor
              (filter (standalone_corner ?box Direction_BottomRight) (m_connect P')) = [1]"
    unfolding vBR c0 using ne p1 i1 by auto
  have wfn: "PatchBox_wf (m_box narrow_patch)"
    by (simp add: PatchBox_wf_def narrow_patch_def GridPatch_new_def PatchBox_new_def)
  have vn: "corner_patch (\<lambda>level ixA ixB panel. 1) (m_box narrow_patch) Direction_BottomLeft = 1"
    by (simp add: corner_patch_def corner_sample_def narrow_patch_def GridPatch_new_def
        PatchBox_new_def)
  have small: "GetAInteriorEnd (m_box narrow_patch) - GetAInteriorBegin (m_box narrow_patch)
       < GetModelHaloElements (m_model narrow_grid)"
    by (simp add: narrow_patch_def narrow_grid_def small_grid_def example_model_def
        GridPatch_new_def PatchBox_new_def)
  have np: "int (length (m_vecGridPatches narrow_grid)) = 2"
    by (simp add: narrow_grid_def)
  have ok: "\<forall>(ixA, ixB, panel) \<in> set (boundary_samples (m_box narrow_patch)).
               0 \<le> (1::int) \<and> 1 < int (length (m_vecGridPatches narrow_grid))"
    by (simp add: np split: prod.splits)
  from corner_relation_emitted_iff_valid [OF wfn cBL, of same_panel_opposing
         "\<lambda>level ixA ixB panel. 1" narrow_grid, THEN conjunct2, THEN conjunct2]
  have c: "InitializeConnectivity_patch same_panel_opposing (\<lambda>level ixA ixB panel. 1)
         narrow_grid narrow_patch =
       Inl (Exception ''Insufficient interior elements to build diagonal connection.'')"
    using ok small by blast
  show ?thesis using wf vBL vBR run a b wfn vn np small c
    by (intro conjI exI [of _ P'])
qed

text \<open>
  Every sample of the first small patch resolves to patch 1, so each corner resolves to
  the patch of both adjacent edges; the pass still adds the four standalone corner
  relations (at the corner elements (2,2), (4,2), (4,3), (2,3)) beside the four edges.
\<close>

theorem corner_relation_same_patch_counterexample:
  "map (\<lambda>(ixA, ixB, panel). (\<lambda>level ixA ixB panel. 1 :: int) (0 :: int) ixA ixB panel)
       (boundary_samples (m_box (small_patch 0))) = replicate 14 1
   \<and> (case InitializeConnectivity_patch same_panel_opposing (\<lambda>level ixA ixB panel. 1)
           small_grid (small_patch 0) of
        Inl e \<Rightarrow> []
      | Inr P' \<Rightarrow> map (\<lambda>nb. (nb_dirFirst nb, nb_ixNeighbor nb, nb_ixFirst nb, nb_ixSecond nb))
                 (m_connect P')) =
     [(Direction_BottomLeft, 1, 2, 2), (Direction_Bottom, 1, 2, 5),
      (Direction_BottomRight, 1, 4, 2), (Direction_Right, 1, 2, 4),
      (Direction_TopRight, 1, 4, 3), (Direction_Top, 1, 2, 5),
      (Direction_TopLeft, 1, 2, 3), (Direction_Left, 1, 2, 4)]
   \<and> (case InitializeConnectivity_patch same_panel_opposing (\<lambda>level ixA ixB panel. 1)
           small_grid (small_patch 0) of
        Inl e \<Rightarrow> []
      | Inr P' \<Rightarrow> map (\<lambda>d. length (filter (standalone_corner (m_box (small_patch 0)) d)
                                     (m_connect P')))
          [Direction_BottomLeft, Direction_BottomRight, Direction_TopRight, Direction_TopLeft])
       = [1, 1, 1, 1]"
  by (simp add: conn_eval standalone_corner_def corner_element_def numeral_eq_Suc)

section \<open>Root consolidation: the guards of ConsolidateDataAtRoot\<close>

text \<open>
  Claim C9. When the status reports \<open>Done()\<close>, \<open>ConsolidateDataAtRoot\<close> throws on any
  process and leaves the status and the pending messages as they were: no message has
  been received (on the root the exception is \<open>Attempting to consolidate data after
  completion\<close>). When the status is not done and the tag of the message received decodes
  to a patch index outside \<open>[0, patch count)\<close>, the root throws \<open>Panel tag index out of
  range\<close> with the status unchanged: the (patch, data type) pair has not been recorded,
  whatever \<open>SetReceiveStatus\<close> would have done with it.
\<close>

theorem ConsolidateDataAtRoot_guards:
  "(Done ops (rs_status st) \<longrightarrow>
      (\<exists>msg. ConsolidateDataAtRoot ops G nRank st = (Inl (Exception msg), st)) \<and>
      ConsolidateDataAtRoot ops G 0 st =
        (Inl (Exception ''Attempting to consolidate data after completion''), st))
   \<and> (\<not> Done ops (rs_status st) \<and> rs_mailbox st = (nTag, nRecvCount) # rest \<and>
       ParseTag ops nTag = Inr (ixRecvPatch, eRecvDataType) \<and>
       (ixRecvPatch < 0 \<or> ixRecvPatch \<ge> int (length (m_vecGridPatches G))) \<longrightarrow>
      ConsolidateDataAtRoot ops G 0 st =
        (Inl (Exception ''Panel tag index out of range''), st\<lparr>rs_mailbox := rest\<rparr>) \<and>
      rs_status (snd (ConsolidateDataAtRoot ops G 0 st)) = rs_status st)"
  by (simp add: ConsolidateDataAtRoot_def Let_def)

text \<open>
  On the small grid of two patches, with both State pairs expected: after both are
  received the status is done and a further call throws without touching the pending
  message; before that, a tag for patch 2 is refused and nothing is recorded.
\<close>

theorem ConsolidateDataAtRoot_guards_witness:
  "ConsolidateDataAtRoot example_status_ops small_grid 0
      \<lparr>rs_status = ([(0, DataType_State), (1, DataType_State)],
                     [(1, DataType_State), (0, DataType_State)]),
       rs_mailbox = [(16, 378)]\<rparr> =
     (Inl (Exception ''Attempting to consolidate data after completion''),
      \<lparr>rs_status = ([(0, DataType_State), (1, DataType_State)],
                     [(1, DataType_State), (0, DataType_State)]),
       rs_mailbox = [(16, 378)]\<rparr>)
   \<and> ConsolidateDataAtRoot example_status_ops small_grid 0
      \<lparr>rs_status = ([(0, DataType_State), (1, DataType_State)], [(1, DataType_State)]),
       rs_mailbox = [(32, 378), (0, 378)]\<rparr> =
     (Inl (Exception ''Panel tag index out of range''),
      \<lparr>rs_status = ([(0, DataType_State), (1, DataType_State)], [(1, DataType_State)]),
       rs_mailbox = [(0, 378)]\<rparr>)"
proof -
  let ?done = "\<lparr>rs_status = ([(0, DataType_State), (1, DataType_State)],
                     [(1, DataType_State), (0::int, DataType_State)]),
       rs_mailbox = [(16::int, 378::int)]\<rparr>"
  let ?open = "\<lparr>rs_status = ([(0, DataType_State), (1, DataType_State)], [(1::int, DataType_State)]),
       rs_mailbox = [(32::int, 378::int), (0, 378)]\<rparr>"
  have d: "Done example_status_ops (rs_status ?done)"
    by (simp add: example_status_ops_def)
  have o: "\<not> Done example_status_ops (rs_status ?open)"
    by (simp add: example_status_ops_def)
  have p: "ParseTag example_status_ops 32 = Inr (2, DataType_State)"
    by (simp add: example_status_ops_def DataType_of_code_def bindE_def)
  have r: "(2::int) < 0 \<or> 2 \<ge> int (length (m_vecGridPatches small_grid))"
    by (simp add: small_grid_def)
  from ConsolidateDataAtRoot_guards [of example_status_ops ?done small_grid 0 16 378 "[]" 2 DataType_State]
       ConsolidateDataAtRoot_guards [of example_status_ops ?open small_grid 0 32 378 "[(0, 378)]" 2 DataType_State]
  show ?thesis using d o p r by simp
qed


section \<open>Data-slot operations: the range checks\<close>

text \<open>
  \<open>CopyData\<close>, \<open>ZeroData\<close>, \<open>AddReferenceState\<close> and \<open>LinearCombineData\<close> refuse a slot
  index that is negative or not below the number of slots, for State and for Tracers.
\<close>

lemma slot_operations_check_range:
  assumes "eDataType = DataType_State \<and> n = int (length (m_datavecStateNode P)) \<or>
           eDataType = DataType_Tracers \<and> n = int (length (m_datavecTracers P))"
    and "ix < 0 \<or> ix \<ge> n"
  shows "\<exists>msg. CopyData P ix ixOther eDataType = Inl (Exception msg)"
    and "\<exists>msg. CopyData P 0 ix eDataType = Inl (Exception msg)"
    and "\<exists>msg. ZeroData P ix eDataType = Inl (Exception msg)"
    and "\<exists>msg. LinearCombineData P dCoeff ix eDataType = Inl (Exception msg)"
    and "eDataType = DataType_State \<longrightarrow> (\<exists>msg. AddReferenceState P ix = Inl (Exception msg))"
  using assms
  by (auto simp: CopyData_def ZeroData_def LinearCombineData_def AddReferenceState_def)

text \<open>
  In \<open>LinearCombineData\<close> a negative destination index is refused by the first test,
  the one against the coefficient array, with the formatted message of that test.
\<close>

lemma LinearCombineData_negative_index:
  "LinearCombineData small_active_patch [1, 2] (- 1) DataType_State =
     Inl (Exception ''Destination index [-1] out of coefficient bounds [0,1]'')"
  by (simp add: LinearCombineData_def format_int_def format_nat.simps)

text \<open>
  Claim C7 fails on the code: \<open>Send\<close> and \<open>Receive\<close> test \<open>iDataIndex > size\<close> where the
  other operations test \<open>>=\<close>: the index equal to the number of slots passes the test, and the slot vector is
  read one past its end. Here the patch has two state slots and the index is 2.
\<close>

theorem Send_slot_count_passes_check:
  "length (m_datavecStateNode small_active_patch) = 2
   \<and> GridPatch_Send Pack PackArray SendBuffers small_active_patch c DataType_State 2
       = Inl UncheckedAccess
   \<and> GridPatch_Send Pack PackArray SendBuffers small_active_patch c DataType_Tracers 2
       = Inl UncheckedAccess
   \<and> CopyData small_active_patch 2 0 DataType_State
       = Inl (Exception ''Invalid ixSource index in CopyData.'')"
  by (simp add: small_active_patch_def InitializeDataLocal_def small_grid_def small_patch_def
      GridPatch_new_def example_model_def GridPatch_Send_def CopyData_def
      vec_at_def bindE_def numeral_eq_Suc)


section \<open>Tracer operations on a model without tracers\<close>

lemma collect_locals_all_None:
  "\<forall>r \<in> set rs. r = Inr None \<Longrightarrow> collect_locals rs = Inr (replicate (length rs) None)"
  by (induction rs) (simp_all add: bindE_def)

text \<open>
  Claim C8, as the code has it. With a tracer count of zero,
  \<open>Grid::ConsolidateDataToRoot\<close> throws \<open>Attempting to consolidate empty tracer data\<close>
  when the status contains Tracers; \<open>Grid::Checksum\<close> for Tracers returns at once, without
  an error: no local checksum is computed and, the processes sharing the model, nothing
  is reduced and \<open>dChecksums\<close> is left as it was on every process.
\<close>

theorem tracer_operations_without_tracers:
  assumes "GetTracers (m_model G) = 0"
    and "\<forall>G' \<in> set procs. GetTracers (m_model G') = 0"
  shows "(Contains ops status DataType_Tracers \<longrightarrow>
            ConsolidateDataToRoot ops G status =
              Inl (Exception ''Attempting to consolidate empty tracer data''))
       \<and> Checksum_local G DataType_Tracers iDataIndex eChecksumType = Inr None
       \<and> Grid_Checksum procs outs DataType_Tracers iDataIndex eChecksumType = Inr outs"
proof -
  have l: "Checksum_local G DataType_Tracers iDataIndex eChecksumType = Inr None"
    using assms(1) by (simp add: Checksum_local_def)
  have "\<forall>r \<in> set (map (\<lambda>G. Checksum_local G DataType_Tracers iDataIndex eChecksumType) procs).
          r = Inr None"
    using assms(2) by (simp add: Checksum_local_def)
  then have "collect_locals (map (\<lambda>G. Checksum_local G DataType_Tracers iDataIndex eChecksumType)
          procs) = Inr (replicate (length procs) None)"
    using collect_locals_all_None [of "map (\<lambda>G. Checksum_local G DataType_Tracers iDataIndex
      eChecksumType) procs"] by simp
  then have "Grid_Checksum procs outs DataType_Tracers iDataIndex eChecksumType = Inr outs"
    by (simp add: Grid_Checksum_def bindE_def list_all_length)
  then show ?thesis using l assms(1) by (simp add: ConsolidateDataToRoot_def)
qed

text \<open>
  The small grid has no tracer: consolidation of Tracers throws, the Tracers checksum on
  one process returns with \<open>dChecksums\<close> untouched.
\<close>

theorem tracer_operations_without_tracers_witness:
  "ConsolidateDataToRoot example_status_ops small_grid ([(0, DataType_Tracers)], []) =
     Inl (Exception ''Attempting to consolidate empty tracer data'')
   \<and> Grid_Checksum [small_grid, small_grid] [[7], []] DataType_Tracers 0 ChecksumType_Sum
       = Inr [[7], []]"
proof -
  have z: "GetTracers (m_model small_grid) = 0"
    by (simp add: small_grid_def example_model_def)
  have c: "Contains example_status_ops ([(0, DataType_Tracers)], []) DataType_Tracers"
    by (simp add: example_status_ops_def)
  have zs: "\<forall>G' \<in> set [small_grid, small_grid]. GetTracers (m_model G') = 0"
    using z by simp
  from tracer_operations_without_tracers [OF z zs, of example_status_ops
      "([(0, DataType_Tracers)], [])" 0 ChecksumType_Sum "[[7], []]"]
  show ?thesis using c by simp
qed

text \<open>
  \<open>Grid::Checksum\<close> for Tracers on a model without tracers is no error: it returns, and
  the caller's \<open>dChecksums\<close> is what it was.
\<close>

theorem Checksum_without_tracers_counterexample:
  "GetTracers (m_model small_grid) = 0
   \<and> Grid_Checksum [small_grid] [[7]] DataType_Tracers 0 ChecksumType_Sum = Inr [[7]]"
  by (simp add: Grid_Checksum_def Checksum_local_def bindE_def small_grid_def example_model_def)


section \<open>Root consolidation: the element count of a message\<close>

text \<open>
  For State, Tracers and Jacobian the root compares the count received with the count
  the patch and the model give, and throws on a mismatch (after the pair has been
  recorded in the status).
\<close>

lemma ConsolidateDataAtRoot_count_checked:
  assumes "\<not> Done ops (rs_status st)" "rs_mailbox st = (nTag, nRecvCount) # rest"
    and "ParseTag ops nTag = Inr (ixRecvPatch, eRecvDataType)"
    and "0 \<le> ixRecvPatch" "ixRecvPatch < int (length (m_vecGridPatches G))"
    and "SetReceiveStatus ops (rs_status st) ixRecvPatch eRecvDataType = Inr status'"
    and "eRecvDataType = DataType_State \<and>
           nExpected = wrap_int (wrap_int (GetComponents (m_model G) * m_nRElements G)
                         * GetTotalNodes (m_box (m_vecGridPatches G ! nat ixRecvPatch))) \<or>
         eRecvDataType = DataType_Tracers \<and>
           nExpected = wrap_int (wrap_int (GetTracers (m_model G) * m_nRElements G)
                         * GetTotalNodes (m_box (m_vecGridPatches G ! nat ixRecvPatch))) \<or>
         eRecvDataType = DataType_Jacobian \<and>
           nExpected = wrap_int (m_nRElements G
                         * GetTotalNodes (m_box (m_vecGridPatches G ! nat ixRecvPatch)))"
    and "nExpected \<noteq> nRecvCount"
  shows "\<exists>msg. fst (ConsolidateDataAtRoot ops G 0 st) = Inl (Exception msg)"
  using assms by (auto simp: ConsolidateDataAtRoot_def Let_def)

text \<open>
  Claim C4 fails on the code: for Topography, Longitude, Latitude and Z no count is
  compared (the source notes it: \<open>Perform check for other data types\<close>). Here the root expects
  the topography of patch 0 of the small grid, an array of 7 by 6 = 42 values (the count
  \<open>ConsolidateDataToRoot\<close> sends), and a message with that tag and a count of 0 is
  accepted and recorded as received.
\<close>

theorem ConsolidateDataAtRoot_topography_count_unchecked:
  "ConsolidateDataAtRoot example_status_ops small_grid 0
      \<lparr>rs_status = ([(0, DataType_Topography)], []), rs_mailbox = [(3, 0)]\<rparr> =
     (Inr (0, 0, DataType_Topography),
      \<lparr>rs_status = ([(0, DataType_Topography)], [(0, DataType_Topography)]), rs_mailbox = []\<rparr>)
   \<and> patch_sends example_status_ops small_grid ([(0, DataType_Topography)], [])
        small_active_patch = Inr [(3, 42)]"
  by (simp add: ConsolidateDataAtRoot_def example_status_ops_def DataType_of_code_def
      DataType_code_def bindE_def small_grid_def patch_sends_def small_active_patch_def
      InitializeDataLocal_def small_patch_def GridPatch_new_def PatchBox_new_def
      example_model_def vec_at_def numeral_eq_Suc)

section \<open>Checksums: the loops against the sums they compute\<close>

lemma fold_update_at:
  "fold (\<lambda>j cs. cs[c := h j (cs ! c)]) js cs = cs[c := fold h js (cs ! c)]"
proof (induction js arbitrary: cs)
  case Nil
  then show ?case by simp
next
  case (Cons j js)
  show ?case
  proof (cases "c < length cs")
    case True
    then show ?thesis by (simp add: Cons.IH)
  next
    case False
    then show ?thesis by (simp add: Cons.IH list_update_beyond)
  qed
qed

lemma fold_over_concat: "fold f (concat xss) = fold (fold f) xss"
  by (induction xss) simp_all

lemma accumulate_as_updates:
  "accumulate t dat area vars ks is js cs =
     fold (\<lambda>c cs. cs[c := fold (\<lambda>(v, a) x. checksum_update t x v a)
                            [(dat c k i j, area k i j). k \<leftarrow> ks, i \<leftarrow> is, j \<leftarrow> js] (cs ! c)])
       vars cs"
proof -
  have inner: "fold (\<lambda>k. fold (\<lambda>i. fold (\<lambda>j cs.
        cs[c := checksum_update t (cs ! c) (dat c k i j) (area k i j)]) js) is) ks =
     (\<lambda>cs. cs[c := fold (\<lambda>(v, a) x. checksum_update t x v a)
                            [(dat c k i j, area k i j). k \<leftarrow> ks, i \<leftarrow> is, j \<leftarrow> js] (cs ! c)])"
    for c
  proof -
    have j: "fold (\<lambda>j cs. cs[c := checksum_update t (cs ! c) (dat c k i j) (area k i j)]) js =
        (\<lambda>cs. cs[c := fold (\<lambda>j x. checksum_update t x (dat c k i j) (area k i j)) js (cs ! c)])"
      for k i
      by (rule ext) (rule fold_update_at [where h = "\<lambda>j x. checksum_update t x (dat c k i j) (area k i j)"])
    have i: "fold (\<lambda>i. fold (\<lambda>j cs. cs[c := checksum_update t (cs ! c) (dat c k i j) (area k i j)]) js) is =
        (\<lambda>cs. cs[c := fold (\<lambda>i. fold (\<lambda>j x. checksum_update t x (dat c k i j) (area k i j)) js) is (cs ! c)])"
      for k
      unfolding j by (rule ext) (rule fold_update_at)
    have k: "fold (\<lambda>k. fold (\<lambda>i. fold (\<lambda>j cs.
        cs[c := checksum_update t (cs ! c) (dat c k i j) (area k i j)]) js) is) ks =
        (\<lambda>cs. cs[c := fold (\<lambda>k. fold (\<lambda>i. fold (\<lambda>j x.
              checksum_update t x (dat c k i j) (area k i j)) js) is) ks (cs ! c)])"
      unfolding i by (rule ext) (rule fold_update_at)
    have flat: "fold (\<lambda>(v, a) x. checksum_update t x v a)
                  [(dat c k i j, area k i j). k \<leftarrow> ks, i \<leftarrow> is, j \<leftarrow> js] =
                fold (\<lambda>k. fold (\<lambda>i. fold (\<lambda>j x.
                  checksum_update t x (dat c k i j) (area k i j)) js) is) ks"
      by (simp add: fold_over_concat fold_map comp_def)
    show ?thesis unfolding k flat ..
  qed
  show ?thesis unfolding accumulate_def inner ..
qed


lemma fold_updates_length:
  "length (fold (\<lambda>c cs. cs[c := F c (cs ! c)]) vars cs) = length cs"
  by (induction vars arbitrary: cs) simp_all

lemma fold_updates_nth:
  assumes "distinct vars" "c < length cs"
  shows "fold (\<lambda>c cs. cs[c := F c (cs ! c)]) vars cs ! c =
           (if c \<in> set vars then F c (cs ! c) else cs ! c)"
  using assms
proof (induction vars arbitrary: cs)
  case Nil
  then show ?case by simp
next
  case (Cons v vs)
  have len: "c < length (cs[v := F v (cs ! v)])" using Cons.prems(2) by simp
  have d: "distinct vs" and nv: "v \<notin> set vs" using Cons.prems(1) by simp_all
  have "fold (\<lambda>c cs. cs[c := F c (cs ! c)]) (v # vs) cs ! c =
        fold (\<lambda>c cs. cs[c := F c (cs ! c)]) vs (cs[v := F v (cs ! v)]) ! c"
    by simp
  also have "\<dots> = (if c \<in> set vs then F c (cs[v := F v (cs ! v)] ! c)
                    else cs[v := F v (cs ! v)] ! c)"
    by (rule Cons.IH [OF d len])
  also have "\<dots> = (if c \<in> set (v # vs) then F c (cs ! c) else cs ! c)"
  proof (cases "c = v")
    case True
    then show ?thesis using nv Cons.prems(2) by simp
  next
    case False
    then show ?thesis by simp
  qed
  finally show ?case .
qed

lemma accumulate_length: "length (accumulate t dat area vars ks is js cs) = length cs"
  unfolding accumulate_as_updates by (rule fold_updates_length)

lemma accumulate_nth:
  assumes "distinct vars" "c < length cs"
  shows "accumulate t dat area vars ks is js cs ! c =
           (if c \<in> set vars
            then fold (\<lambda>(v, a) x. checksum_update t x v a)
                   [(dat c k i j, area k i j). k \<leftarrow> ks, i \<leftarrow> is, j \<leftarrow> js] (cs ! c)
            else cs ! c)"
  unfolding accumulate_as_updates by (rule fold_updates_nth [OF assms])

lemma classify_vars_result:
  "classify_vars locs cs = Inr (nv, rv) \<Longrightarrow>
     nv = filter (\<lambda>c. locs ! c = DataLocation_Node) cs \<and>
     rv = filter (\<lambda>c. locs ! c = DataLocation_REdge) cs \<and>
     (\<forall>c \<in> set cs. locs ! c = DataLocation_Node \<or> locs ! c = DataLocation_REdge)"
proof (induction cs arbitrary: nv rv)
  case Nil
  then show ?case by simp
next
  case (Cons c cs)
  from Cons.prems obtain loc where loc: "vec_at locs (int c) = Inr loc"
    by (cases "vec_at locs (int c)") (simp_all add: bindE_def)
  then have l: "loc = locs ! c" by (auto simp: vec_at_def split: if_splits)
  show ?case
  proof (cases "loc = DataLocation_Node")
    case True
    with Cons.prems loc obtain nv' rv' where
      r: "classify_vars locs cs = Inr (nv', rv')" and e: "nv = c # nv'" "rv = rv'"
      by (cases "classify_vars locs cs") (auto simp: bindE_def)
    from Cons.IH [OF r] e True l show ?thesis by simp
  next
    case False
    show ?thesis
    proof (cases "loc = DataLocation_REdge")
      case True
      with Cons.prems loc False obtain nv' rv' where
        r: "classify_vars locs cs = Inr (nv', rv')" and e: "nv = nv'" "rv = c # rv'"
        by (cases "classify_vars locs cs") (auto simp: bindE_def)
      from Cons.IH [OF r] e True l show ?thesis by simp
    next
      case False
      with Cons.prems loc \<open>loc \<noteq> DataLocation_Node\<close> show ?thesis by (simp add: bindE_def)
    qed
  qed
qed

lemma checksum_fold_closed:
  assumes "t = ChecksumType_Sum \<or> t = ChecksumType_L1 \<or> t = ChecksumType_L2 \<or> t = ChecksumType_Linf"
  shows "fold (\<lambda>(v, a) x. checksum_update t x v a) vals 0 = local_checksum t vals"
proof -
  have s: "fold (\<lambda>(v, a) x. x + g v a) vals x = x + (\<Sum>(v, a) \<leftarrow> vals. g v a)"
    for g :: "real \<Rightarrow> real \<Rightarrow> real" and x
    by (induction vals arbitrary: x) (auto simp: algebra_simps)
  have m: "fold (\<lambda>(v, a) x. if \<bar>v\<bar> > x then \<bar>v\<bar> else x) vals x =
           Max (insert x (set (map (\<lambda>(v, a). \<bar>v\<bar>) vals)))" for x :: real
  proof (induction vals arbitrary: x)
    case Nil
    then show ?case by simp
  next
    case (Cons p vals)
    obtain v a where p: "p = (v, a)" by (cases p)
    let ?S = "set (map (\<lambda>(v, a). \<bar>v\<bar>) vals)"
    have "Max (insert (max x \<bar>v\<bar>) ?S) = Max (insert x (insert \<bar>v\<bar> ?S))"
      by (cases "?S = {}") (simp_all add: max.assoc)
    moreover have "(if \<bar>v\<bar> > x then \<bar>v\<bar> else x) = max x \<bar>v\<bar>" by (simp add: max_def)
    ultimately show ?case using Cons.IH [of "max x \<bar>v\<bar>"] p by simp
  qed
  from assms show ?thesis
  proof (elim disjE)
    assume "t = ChecksumType_Sum"
    then show ?thesis using s [of "\<lambda>v a. v * a" 0]
      by (simp add: checksum_update_def local_checksum_def)
  next
    assume "t = ChecksumType_L1"
    then show ?thesis using s [of "\<lambda>v a. \<bar>v\<bar> * a" 0]
      by (simp add: checksum_update_def local_checksum_def)
  next
    assume "t = ChecksumType_L2"
    then show ?thesis using s [of "\<lambda>v a. v * v * a" 0]
      by (simp add: checksum_update_def local_checksum_def)
  next
    assume "t = ChecksumType_Linf"
    then show ?thesis using m [of 0]
      by (simp add: checksum_update_def local_checksum_def)
  qed
qed


lemma vec_at_Inr: "vec_at xs i = Inr x \<Longrightarrow> 0 \<le> i \<and> nat i < length xs \<and> x = xs ! nat i"
  by (auto simp: vec_at_def split: if_splits)

lemma GridPatch_Checksum_State:
  assumes run: "GridPatch_Checksum G P DataType_State cs idx t = Inr cs'"
  shows "valid_checksum_type t \<and> num_vars G DataType_State \<le> length cs \<and> length cs' = length cs \<and>
     (\<forall>c < num_vars G DataType_State.
        cs' ! c = fold (\<lambda>(v, a) x. checksum_update t x v a)
                    (patch_values G P DataType_State idx c) (cs ! c))"
proof -
  let ?n = "nat (GetComponents (m_model G))"
  let ?is = "[GetAInteriorBegin (m_box P) .. GetAInteriorEnd (m_box P) - 1]"
  let ?js = "[GetBInteriorBegin (m_box P) .. GetBInteriorEnd (m_box P) - 1]"
  from run obtain dN where dN: "vec_at (m_datavecStateNode P) idx = Inr dN"
    by (cases "vec_at (m_datavecStateNode P) idx")
       (simp_all add: GridPatch_Checksum_def bindE_def split: if_splits)
  from run dN obtain dR where dR: "vec_at (m_datavecStateREdge P) idx = Inr dR"
    by (cases "vec_at (m_datavecStateREdge P) idx")
       (simp_all add: GridPatch_Checksum_def bindE_def split: if_splits)
  from run dN dR obtain nv rv where
    cl: "classify_vars (m_vecVarLocation G) [0..<?n] = Inr (nv, rv)"
    by (cases "classify_vars (m_vecVarLocation G) [0..<?n]")
       (auto simp: GridPatch_Checksum_def bindE_def split: if_splits)
  from run dN dR cl have rows: "\<not> int (length cs) < GetComponents (m_model G)"
    and vt: "valid_checksum_type t"
    and res: "cs' = accumulate t (values4 dR) (m_dataElementAreaREdge P) rv
                  [0 .. m_nRElements G] ?is ?js
               (accumulate t (values4 dN) (m_dataElementArea P) nv
                  [0 .. m_nRElements G - 1] ?is ?js cs)"
    by (auto simp: GridPatch_Checksum_def bindE_def valid_checksum_type_def split: if_splits)
  have n: "?n \<le> length cs" using rows by simp
  have nv: "nv = filter (\<lambda>c. m_vecVarLocation G ! c = DataLocation_Node) [0..<?n]"
    and rv: "rv = filter (\<lambda>c. m_vecVarLocation G ! c = DataLocation_REdge) [0..<?n]"
    and locs: "\<forall>c \<in> set [0..<?n]. m_vecVarLocation G ! c = DataLocation_Node \<or>
                  m_vecVarLocation G ! c = DataLocation_REdge"
    using classify_vars_result [OF cl] by simp_all
  have dnv: "distinct nv" and drv: "distinct rv" unfolding nv rv by simp_all
  have eN: "dN = m_datavecStateNode P ! nat idx" using vec_at_Inr [OF dN] by simp
  have eR: "dR = m_datavecStateREdge P ! nat idx" using vec_at_Inr [OF dR] by simp
  let ?cs1 = "accumulate t (values4 dN) (m_dataElementArea P) nv [0 .. m_nRElements G - 1] ?is ?js cs"
  have len1: "length ?cs1 = length cs" by (rule accumulate_length)
  have len: "length cs' = length cs" unfolding res by (simp add: accumulate_length)
  have each: "cs' ! c = fold (\<lambda>(v, a) x. checksum_update t x v a)
                    (patch_values G P DataType_State idx c) (cs ! c)" if c: "c < ?n" for c
  proof -
    have clen: "c < length cs" using c n by simp
    have clen1: "c < length ?cs1" using clen len1 by simp
    have a: "cs' ! c = (if c \<in> set rv
            then fold (\<lambda>(v, a) x. checksum_update t x v a)
                   [(values4 dR c k i j, m_dataElementAreaREdge P k i j).
                      k \<leftarrow> [0 .. m_nRElements G], i \<leftarrow> ?is, j \<leftarrow> ?js] (?cs1 ! c)
            else ?cs1 ! c)"
      unfolding res by (rule accumulate_nth [OF drv clen1])
    have b: "?cs1 ! c = (if c \<in> set nv
            then fold (\<lambda>(v, a) x. checksum_update t x v a)
                   [(values4 dN c k i j, m_dataElementArea P k i j).
                      k \<leftarrow> [0 .. m_nRElements G - 1], i \<leftarrow> ?is, j \<leftarrow> ?js] (cs ! c)
            else cs ! c)"
      by (rule accumulate_nth [OF dnv clen])
    show ?thesis
    proof (cases "m_vecVarLocation G ! c = DataLocation_REdge")
      case True
      then have "c \<in> set rv" "c \<notin> set nv" using c by (simp_all add: nv rv)
      then show ?thesis using a b True by (simp add: patch_values_def eR)
    next
      case False
      then have "m_vecVarLocation G ! c = DataLocation_Node" using locs c by auto
      then have "c \<notin> set rv" "c \<in> set nv" using c by (simp_all add: nv rv)
      then show ?thesis using a b False by (simp add: patch_values_def eN)
    qed
  qed
  show ?thesis using vt n len each by (simp add: num_vars_def)
qed

lemma GridPatch_Checksum_Tracers:
  assumes run: "GridPatch_Checksum G P DataType_Tracers cs idx t = Inr cs'"
  shows "valid_checksum_type t \<and> num_vars G DataType_Tracers \<le> length cs \<and> length cs' = length cs \<and>
     (\<forall>c < num_vars G DataType_Tracers.
        cs' ! c = fold (\<lambda>(v, a) x. checksum_update t x v a)
                    (patch_values G P DataType_Tracers idx c) (cs ! c))"
proof -
  let ?n = "nat (GetTracers (m_model G))"
  let ?is = "[GetAInteriorBegin (m_box P) .. GetAInteriorEnd (m_box P) - 1]"
  let ?js = "[GetBInteriorBegin (m_box P) .. GetBInteriorEnd (m_box P) - 1]"
  from run obtain dN where dN: "vec_at (m_datavecTracers P) idx = Inr dN"
    by (cases "vec_at (m_datavecTracers P) idx")
       (simp_all add: GridPatch_Checksum_def bindE_def split: if_splits)
  from run dN have rows: "\<not> int (length cs) < GetTracers (m_model G)"
    and vt: "valid_checksum_type t"
    and res: "cs' = accumulate t (values4 unallocated) (m_dataElementAreaREdge P) []
                  [0 .. m_nRElements G] ?is ?js
               (accumulate t (values4 dN) (m_dataElementArea P) [0..<?n]
                  [0 .. m_nRElements G - 1] ?is ?js cs)"
    by (auto simp: GridPatch_Checksum_def bindE_def valid_checksum_type_def split: if_splits)
  have n: "?n \<le> length cs" using rows by simp
  have eN: "dN = m_datavecTracers P ! nat idx" using vec_at_Inr [OF dN] by simp
  have res': "cs' = accumulate t (values4 dN) (m_dataElementArea P) [0..<?n]
                  [0 .. m_nRElements G - 1] ?is ?js cs"
    unfolding res by (simp add: accumulate_def)
  have len: "length cs' = length cs" unfolding res' by (rule accumulate_length)
  have each: "cs' ! c = fold (\<lambda>(v, a) x. checksum_update t x v a)
                    (patch_values G P DataType_Tracers idx c) (cs ! c)" if c: "c < ?n" for c
  proof -
    have clen: "c < length cs" using c n by simp
    have "cs' ! c = (if c \<in> set [0..<?n]
            then fold (\<lambda>(v, a) x. checksum_update t x v a)
                   [(values4 dN c k i j, m_dataElementArea P k i j).
                      k \<leftarrow> [0 .. m_nRElements G - 1], i \<leftarrow> ?is, j \<leftarrow> ?js] (cs ! c)
            else cs ! c)"
      unfolding res' by (rule accumulate_nth [OF _ clen]) simp
    then show ?thesis using c by (simp add: patch_values_def eN)
  qed
  show ?thesis using vt n len each by (simp add: num_vars_def)
qed


lemma GridPatch_Checksum_result:
  assumes dt: "eDataType = DataType_State \<or> eDataType = DataType_Tracers"
    and run: "GridPatch_Checksum G P eDataType cs idx t = Inr cs'"
  shows "valid_checksum_type t \<and> num_vars G eDataType \<le> length cs \<and> length cs' = length cs \<and>
     (\<forall>c < num_vars G eDataType.
        cs' ! c = fold (\<lambda>(v, a) x. checksum_update t x v a)
                    (patch_values G P eDataType idx c) (cs ! c))"
  using dt GridPatch_Checksum_State [of G P cs idx t cs']
    GridPatch_Checksum_Tracers [of G P cs idx t cs'] run
  by blast

lemma checksum_patches_result:
  assumes dt: "eDataType = DataType_State \<or> eDataType = DataType_Tracers"
  shows "checksum_patches G eDataType idx t ns cs = Inr cs' \<Longrightarrow>
     num_vars G eDataType \<le> length cs \<Longrightarrow>
     length cs' = length cs \<and>
     (\<forall>c < num_vars G eDataType.
        cs' ! c = fold (\<lambda>(v, a) x. checksum_update t x v a)
           (concat (map (\<lambda>n. patch_values G (m_vecGridPatches G ! n) eDataType idx c) ns))
           (cs ! c))"
proof (induction ns arbitrary: cs)
  case Nil
  then show ?case by simp
next
  case (Cons n ns)
  from Cons.prems(1) obtain P where P: "vec_at (m_vecGridPatches G) (int n) = Inr P"
    by (cases "vec_at (m_vecGridPatches G) (int n)") (simp_all add: bindE_def)
  then have eP: "P = m_vecGridPatches G ! n" using vec_at_Inr [OF P] by simp
  from Cons.prems(1) P obtain cs1 where
    one: "GridPatch_Checksum G P eDataType cs idx t = Inr cs1"
    and rest: "checksum_patches G eDataType idx t ns cs1 = Inr cs'"
    by (cases "GridPatch_Checksum G P eDataType cs idx t") (simp_all add: bindE_def)
  from GridPatch_Checksum_result [OF dt one] have
    len1: "length cs1 = length cs"
    and each1: "\<forall>c < num_vars G eDataType.
        cs1 ! c = fold (\<lambda>(v, a) x. checksum_update t x v a)
                    (patch_values G P eDataType idx c) (cs ! c)"
    by simp_all
  have n1: "num_vars G eDataType \<le> length cs1" using Cons.prems(2) len1 by simp
  from Cons.IH [OF rest n1] have
    len: "length cs' = length cs1"
    and each: "\<forall>c < num_vars G eDataType.
        cs' ! c = fold (\<lambda>(v, a) x. checksum_update t x v a)
           (concat (map (\<lambda>n. patch_values G (m_vecGridPatches G ! n) eDataType idx c) ns))
           (cs1 ! c)"
    by simp_all
  show ?case using len len1 each each1 by (simp add: eP)
qed

lemma Checksum_local_result:
  assumes run: "Checksum_local G eDataType idx t = Inr (Some l)"
    and vt: "valid_checksum_type t"
  shows "(eDataType = DataType_State \<or> eDataType = DataType_Tracers) \<and>
     length l = num_vars G eDataType \<and>
     (\<forall>c < num_vars G eDataType. l ! c = local_checksum t (all_values G eDataType idx c))"
proof -
  have dt: "eDataType = DataType_State \<or> eDataType = DataType_Tracers"
    using run by (auto simp: Checksum_local_def split: if_splits)
  have "checksum_patches G eDataType idx t (m_vecActiveGridPatches G)
          (replicate (num_vars G eDataType) 0) = Inr l"
    using run dt
    by (auto simp: Checksum_local_def num_vars_def bindE_def split: if_splits sum.splits)
  from checksum_patches_result [OF dt this] have
    len: "length l = num_vars G eDataType"
    and each: "\<forall>c < num_vars G eDataType.
        l ! c = fold (\<lambda>(v, a) x. checksum_update t x v a)
           (all_values G eDataType idx c) (replicate (num_vars G eDataType) 0 ! c)"
    by (simp_all add: all_values_def)
  have "l ! c = local_checksum t (all_values G eDataType idx c)"
    if "c < num_vars G eDataType" for c
    using each that checksum_fold_closed [of t "all_values G eDataType idx c"] vt
    by (simp add: valid_checksum_type_def)
  then show ?thesis using dt len by simp
qed

lemma collect_locals_Inr: "collect_locals (map Inr xs) = Inr xs"
  by (induction xs) (simp_all add: bindE_def)

lemma those_Some: "those (map Some xs) = Some xs"
  by (induction xs) simp_all

lemma fold_map2_length:
  "\<forall>w \<in> set ws. length w = n \<Longrightarrow> length v = n \<Longrightarrow>
   length (fold (\<lambda>w acc. map2 f acc w) ws v) = n"
  by (induction ws arbitrary: v) simp_all

lemma fold_map2_nth:
  "\<forall>w \<in> set ws. length w = n \<Longrightarrow> length v = n \<Longrightarrow> c < n \<Longrightarrow>
   fold (\<lambda>w acc. map2 f acc w) ws v ! c = fold (\<lambda>w x. f x (w ! c)) ws (v ! c)"
  by (induction ws arbitrary: v) simp_all

lemma fold_plus_sum: "fold (\<lambda>w x. x + g w) ws (x :: real) = x + sum_list (map g ws)"
  by (induction ws arbitrary: x) simp_all

lemma fold_max_Max: "fold (\<lambda>w x. max x (g w)) ws (x :: real) = Max (insert x (set (map g ws)))"
proof (induction ws arbitrary: x)
  case Nil
  then show ?case by simp
next
  case (Cons w ws)
  have "Max (insert (max x (g w)) (set (map g ws))) = Max (insert x (insert (g w) (set (map g ws))))"
    by (cases "set (map g ws) = {}") (simp_all add: max.assoc)
  then show ?case using Cons.IH [of "max x (g w)"] by simp
qed

lemma reduce_vec_result:
  assumes ne: "vs \<noteq> []" and lens: "\<forall>v \<in> set vs. length v = n"
  shows "length (reduce_vec (if t = ChecksumType_Linf then max else (+)) vs) = n \<and>
     (\<forall>c < n. reduce_vec (if t = ChecksumType_Linf then max else (+)) vs ! c =
        (if t = ChecksumType_Linf then Max (set (map (\<lambda>v. v ! c) vs))
         else sum_list (map (\<lambda>v. v ! c) vs)))"
proof -
  obtain v ws where vs: "vs = v # ws" using ne by (cases vs) auto
  have lw: "\<forall>w \<in> set ws. length w = n" and lv: "length v = n" using lens vs by simp_all
  show ?thesis
  proof (cases "t = ChecksumType_Linf")
    case True
    have "reduce_vec max vs ! c = Max (set (map (\<lambda>v. v ! c) vs))" if "c < n" for c
      using fold_map2_nth [OF lw lv that, of max] fold_max_Max [of "\<lambda>w. w ! c" ws "v ! c"]
      by (simp add: vs)
    then show ?thesis using True fold_map2_length [OF lw lv, of max] by (simp add: vs)
  next
    case False
    have "reduce_vec (+) vs ! c = sum_list (map (\<lambda>v. v ! c) vs)" if "c < n" for c
      using fold_map2_nth [OF lw lv that, of "(+)"] fold_plus_sum [of "\<lambda>w. w ! c" ws "v ! c"]
      by (simp add: vs)
    then show ?thesis using False fold_map2_length [OF lw lv, of "(+)"] by (simp add: vs)
  qed
qed


text \<open>
  Claim C3. Let every process finish its local part of \<open>Grid::Checksum\<close> without error,
  for one of the four checksum types, the processes sharing the number of components.
  Then the local value of each component on each process is the accumulation over the
  levels and interior nodes of its active patches: the sum of value times area (Sum), of
  |value| times area (L1), of value squared times area (L2), or the maximum of |value|
  and 0 (Linf). The call returns; on the root \<open>dChecksums\<close> holds, per component, the
  maximum of the local values (Linf), their sum (Sum, L1) or the square root of their sum
  (L2); on every other process \<open>dChecksums\<close> is untouched. So the square root is taken
  once, on the reduced sum, at the root, and for L2 only.
\<close>

theorem Grid_Checksum_accumulates_and_reduces:
  assumes ne: "procs \<noteq> []" and len: "length locals = length procs"
    and vt: "valid_checksum_type t"
    and loc: "\<forall>p < length procs.
                Checksum_local (procs ! p) eDataType idx t = Inr (Some (locals ! p))"
    and same: "\<forall>p < length procs. num_vars (procs ! p) eDataType = n"
  shows "(\<forall>p < length procs. length (locals ! p) = n \<and>
            (\<forall>c < n. locals ! p ! c =
               local_checksum t (all_values (procs ! p) eDataType idx c)))
     \<and> (\<exists>out. Grid_Checksum procs outs eDataType idx t = Inr (outs[0 := out]) \<and>
              length out = n \<and>
              (\<forall>c < n. out ! c = global_checksum t (map (\<lambda>l. l ! c) locals)))"
proof -
  have each: "length (locals ! p) = n \<and>
            (\<forall>c < n. locals ! p ! c =
               local_checksum t (all_values (procs ! p) eDataType idx c))"
    if p: "p < length procs" for p
    using Checksum_local_result [OF _ vt, of "procs ! p" eDataType idx "locals ! p"]
      loc same p by auto
  have lens: "\<forall>v \<in> set locals. length v = n"
    using each len by (auto simp: in_set_conv_nth)
  have lne: "locals \<noteq> []" using ne len by auto
  have m: "map (\<lambda>G. Checksum_local G eDataType idx t) procs = map Inr (map Some locals)"
    using loc len by (auto simp: list_eq_iff_nth_eq)
  have c: "collect_locals (map (\<lambda>G. Checksum_local G eDataType idx t) procs)
             = Inr (map Some locals)"
    unfolding m by (rule collect_locals_Inr)
  have notall: "\<not> list_all (\<lambda>l. l = None) (map Some locals)"
    using lne by (cases locals) simp_all
  let ?red = "reduce_vec (if t = ChecksumType_Linf then max else (+)) locals"
  let ?out = "if t = ChecksumType_L2 then map sqrt ?red else ?red"
  have run: "Grid_Checksum procs outs eDataType idx t = Inr (outs[0 := ?out])"
    using c notall by (simp add: Grid_Checksum_def bindE_def those_Some Let_def)
  from reduce_vec_result [OF lne lens, of t] have
    rl: "length ?red = n"
    and rc: "\<forall>c < n. ?red ! c =
        (if t = ChecksumType_Linf then Max (set (map (\<lambda>v. v ! c) locals))
         else sum_list (map (\<lambda>v. v ! c) locals))"
    by simp_all
  have ol: "length ?out = n" using rl by (cases "t = ChecksumType_L2") simp_all
  have oc: "?out ! c = global_checksum t (map (\<lambda>l. l ! c) locals)" if "c < n" for c
    using rc rl that by (cases "t = ChecksumType_L2") (simp_all add: global_checksum_def)
  show ?thesis using each run ol oc by blast
qed


text \<open>
  Two processes, one patch each, L2: the local values are 18 nodes times 9 times 2 and
  18 nodes times 16 times 2, and the root holds the square root of their sum, 900.
\<close>

theorem Grid_Checksum_accumulates_and_reduces_witness:
  "Checksum_local (checksum_grid 0) DataType_State 0 ChecksumType_L2 = Inr (Some [324, 324, 324])
   \<and> Checksum_local (checksum_grid 1) DataType_State 0 ChecksumType_L2 = Inr (Some [576, 576, 576])
   \<and> (\<exists>out. Grid_Checksum [checksum_grid 0, checksum_grid 1] [[], [1]]
               DataType_State 0 ChecksumType_L2 = Inr [out, [1]] \<and>
             length out = 3 \<and> out ! 0 = sqrt 900 \<and> out ! 1 = sqrt 900 \<and> out ! 2 = sqrt 900)"
proof -
  let ?procs = "[checksum_grid 0, checksum_grid 1]"
  let ?locals = "[[324, 324, 324], [576, 576, 576 :: real]]"
  have l0: "Checksum_local (checksum_grid 0) DataType_State 0 ChecksumType_L2
              = Inr (Some [324, 324, 324])"
    by (simp add: Checksum_local_def GridPatch_Checksum_def accumulate_def checksum_update_def
        vec_at_def bindE_def checksum_grid_def filled_patch_def small_grid_def small_patch_def
        GridPatch_new_def PatchBox_new_def example_model_def upto.simps numeral_eq_Suc)
  have l1: "Checksum_local (checksum_grid 1) DataType_State 0 ChecksumType_L2
              = Inr (Some [576, 576, 576])"
    by (simp add: Checksum_local_def GridPatch_Checksum_def accumulate_def checksum_update_def
        vec_at_def bindE_def checksum_grid_def filled_patch_def small_grid_def small_patch_def
        GridPatch_new_def PatchBox_new_def example_model_def upto.simps numeral_eq_Suc)
  have ne: "?procs \<noteq> []" and len: "length ?locals = length ?procs" by simp_all
  have vt: "valid_checksum_type ChecksumType_L2" by (simp add: valid_checksum_type_def)
  have loc: "\<forall>p < length ?procs.
      Checksum_local (?procs ! p) DataType_State 0 ChecksumType_L2 = Inr (Some (?locals ! p))"
    using l0 l1 by (simp add: less_Suc_eq)
  have same: "\<forall>p < length ?procs. num_vars (?procs ! p) DataType_State = 3"
    by (simp add: less_Suc_eq num_vars_def checksum_grid_def small_grid_def example_model_def)
  from Grid_Checksum_accumulates_and_reduces [OF ne len vt loc same, of "[[], [1]]"]
  obtain out where
    run: "Grid_Checksum ?procs [[], [1]] DataType_State 0 ChecksumType_L2 = Inr ([[], [1]][0 := out])"
    and ol: "length out = 3"
    and oc: "\<And>c. c < 3 \<Longrightarrow> out ! c = global_checksum ChecksumType_L2 (map (\<lambda>l. l ! c) ?locals)"
    by blast
  have "out ! 0 = sqrt 900" "out ! 1 = sqrt 900" "out ! 2 = sqrt 900"
    using oc [of 0] oc [of 1] oc [of 2] by (simp_all add: global_checksum_def)
  then show ?thesis using l0 l1 run ol by simp
qed

end
